(* ===== verification/Prelude.thy ===== *)
theory Prelude
  imports Main "HOL-Library.Char_ord" "HOL-Library.List_Lexorder"
begin

text \<open>
  Shared base of the development: results of fallible Rust code, decimal numerals as Rust
  prints and parses them, fixed-width integer helpers, and the list lemmas the components share.
  A \<^typ>\<open>string\<close> is a list of bytes (a Rust \<^verbatim>\<open>str\<close> is its UTF-8 bytes, a Redis value is
  binary safe), so \<^const>\<open>length\<close> is the byte length the code works with.
\<close>

named_theorems queue_simps \<open>rewrite rules that compute one queue mutation\<close>
named_theorems key_simps \<open>the keys of a namespace are pairwise different\<close>


section \<open>Results of fallible code\<close>

text \<open>
  \<^verbatim>\<open>Result<T, E>\<close>, with one more constructor for a panic (an index or a slice out of
  range, an arithmetic overflow where overflow checks are compiled in).
\<close>

datatype ('a, 'e) rresult = Ok 'a | Err 'e | Panic

text \<open>The question mark operator: return early on an error.\<close>

fun and_then :: "('a, 'e) rresult \<Rightarrow> ('a \<Rightarrow> ('b, 'e) rresult) \<Rightarrow> ('b, 'e) rresult" where
  "and_then (Ok a) f = f a"
| "and_then (Err e) f = Err e"
| "and_then Panic f = Panic"

fun map_ok :: "('a \<Rightarrow> 'b) \<Rightarrow> ('a, 'e) rresult \<Rightarrow> ('b, 'e) rresult" where
  "map_ok f (Ok a) = Ok (f a)"
| "map_ok f (Err e) = Err e"
| "map_ok f Panic = Panic"

text \<open>\<^verbatim>\<open>Option::ok_or\<close>.\<close>

fun ok_or :: "'a option \<Rightarrow> 'e \<Rightarrow> ('a, 'e) rresult" where
  "ok_or (Some a) e = Ok a"
| "ok_or None e = Err e"

lemma and_then_eq_Ok [simp]: "and_then r f = Ok b \<longleftrightarrow> (\<exists>a. r = Ok a \<and> f a = Ok b)"
  by (cases r) auto

lemma and_then_eq_Panic [simp]:
  "and_then r f = Panic \<longleftrightarrow> r = Panic \<or> (\<exists>a. r = Ok a \<and> f a = Panic)"
  by (cases r) auto

lemma ok_or_not_Panic [simp]: "ok_or r e \<noteq> Panic"
  by (cases r) auto

lemma map_ok_eq_Ok [simp]: "map_ok f r = Ok b \<longleftrightarrow> (\<exists>a. r = Ok a \<and> f a = b)"
  by (cases r) auto

lemma ok_or_eq_Ok [simp]: "ok_or r e = Ok b \<longleftrightarrow> r = Some b"
  by (cases r) auto

lemma ok_or_eq_Err [simp]: "ok_or r e = Err e' \<longleftrightarrow> r = None \<and> e' = e"
  by (cases r) auto

lemma and_then_eq_Err [simp]:
  "and_then r f = Err e \<longleftrightarrow> r = Err e \<or> (\<exists>a. r = Ok a \<and> f a = Err e)"
  by (cases r) auto

lemma map_ok_eq_Err [simp]: "map_ok f r = Err e \<longleftrightarrow> r = Err e" "map_ok f r = Panic \<longleftrightarrow> r = Panic"
  by (cases r; auto)+

text \<open>\<^verbatim>\<open>Vec::get\<close> and \<^verbatim>\<open>slice::get\<close>: an index out of range is \<^const>\<open>None\<close>.\<close>

definition get_at :: "'a list \<Rightarrow> nat \<Rightarrow> 'a option" where
  "get_at xs i = (if i < length xs then Some (xs ! i) else None)"

lemma get_at_simps [simp]:
  "get_at [] i = None"
  "get_at (x # xs) 0 = Some x"
  "get_at (x # xs) (Suc i) = get_at xs i"
  by (auto simp: get_at_def)

lemma get_at_numeral [simp]:
  "get_at (x # xs) (numeral k) = get_at xs (pred_numeral k)"
  "get_at (x # xs) 1 = get_at xs 0"
  by (auto simp: get_at_def numeral_eq_Suc)


section \<open>Decimal numerals\<close>

definition digit_char :: "nat \<Rightarrow> char" where
  "digit_char d = char_of (48 + d)"

definition is_digit :: "char \<Rightarrow> bool" where
  "is_digit c \<longleftrightarrow> 48 \<le> (of_char c :: nat) \<and> (of_char c :: nat) \<le> 57"

definition digit_val :: "char \<Rightarrow> nat" where
  "digit_val c = of_char c - 48"

text \<open>\<^verbatim>\<open>to_string\<close> of an unsigned integer.\<close>

fun show_nat :: "nat \<Rightarrow> string" where
  "show_nat n = (if n < 10 then [digit_char n] else show_nat (n div 10) @ [digit_char (n mod 10)])"

declare show_nat.simps [simp del]

text \<open>\<^verbatim>\<open>to_string\<close> of a signed integer.\<close>

definition show_int :: "int \<Rightarrow> string" where
  "show_int i = (if i < 0 then CHR ''-'' # show_nat (nat (- i)) else show_nat (nat i))"

fun digits_from :: "nat \<Rightarrow> string \<Rightarrow> nat option" where
  "digits_from a [] = Some a"
| "digits_from a (c # cs) = (if is_digit c then digits_from (10 * a + digit_val c) cs else None)"

definition read_nat :: "string \<Rightarrow> nat option" where
  "read_nat s = (if s = [] then None else digits_from 0 s)"

text \<open>
  \<^verbatim>\<open>str::parse\<close> at an unsigned type of \<open>w\<close> bits: one optional plus sign, at least one
  digit, digits only, and a value that fits.
\<close>

definition parse_unsigned :: "nat \<Rightarrow> string \<Rightarrow> nat option" where
  "parse_unsigned w s =
     (case read_nat (case s of c # cs \<Rightarrow> if c = CHR ''+'' then cs else s | [] \<Rightarrow> []) of
        Some n \<Rightarrow> if n < 2 ^ w then Some n else None
      | None \<Rightarrow> None)"

text \<open>\<^verbatim>\<open>str::parse\<close> at a signed type of \<open>w\<close> bits: an optional plus or minus sign.\<close>

definition parse_signed :: "nat \<Rightarrow> string \<Rightarrow> int option" where
  "parse_signed w s =
     (case s of
        [] \<Rightarrow> None
      | c # cs \<Rightarrow>
          (case read_nat (if c = CHR ''+'' \<or> c = CHR ''-'' then cs else s) of
             None \<Rightarrow> None
           | Some n \<Rightarrow>
               (let i = (if c = CHR ''-'' then - int n else int n)
                in if - (2 ^ (w - 1)) \<le> i \<and> i < 2 ^ (w - 1) then Some i else None)))"

text \<open>A decimal integer of any size, with an optional minus sign.\<close>

definition read_int :: "string \<Rightarrow> int option" where
  "read_int s =
     (case s of
        [] \<Rightarrow> None
      | c # cs \<Rightarrow>
          (if c = CHR ''-'' then map_option (\<lambda>n. - int n) (read_nat cs)
           else map_option int (read_nat s)))"

abbreviation "parse_u32 \<equiv> parse_unsigned 32"
abbreviation "parse_u64 \<equiv> parse_unsigned 64"
abbreviation "parse_usize \<equiv> parse_unsigned 64"

lemma of_digit_char: "d < 10 \<Longrightarrow> (of_char (digit_char d) :: nat) = 48 + d"
  by (simp add: digit_char_def)

lemma digit_char_simps [simp]:
  "digit_char 0 = CHR ''0''" "digit_char 1 = CHR ''1''" "digit_char (Suc 0) = CHR ''1''"
  "digit_char 2 = CHR ''2''" "digit_char 3 = CHR ''3''" "digit_char 4 = CHR ''4''"
  "digit_char 5 = CHR ''5''" "digit_char 6 = CHR ''6''" "digit_char 7 = CHR ''7''"
  "digit_char 8 = CHR ''8''" "digit_char 9 = CHR ''9''"
  by code_simp+

lemma is_digit_digit_char [simp]: "d < 10 \<Longrightarrow> is_digit (digit_char d)"
  by (simp add: is_digit_def of_digit_char)

lemma digit_val_digit_char [simp]: "d < 10 \<Longrightarrow> digit_val (digit_char d) = d"
  by (simp add: digit_val_def of_digit_char)

lemma digits_from_append:
  "digits_from a (xs @ ys) =
     (case digits_from a xs of None \<Rightarrow> None | Some b \<Rightarrow> digits_from b ys)"
  by (induction a xs rule: digits_from.induct) auto

lemma digits_from_show_nat: "digits_from 0 (show_nat n) = Some n"
proof (induction n rule: less_induct)
  case (less n)
  then have "10 \<le> n \<Longrightarrow> digits_from 0 (show_nat (n div 10)) = Some (n div 10)" by simp
  then show ?case
    by (cases "n < 10") (simp_all add: show_nat.simps [of n] digits_from_append)
qed

lemma show_nat_nonempty [simp]: "show_nat n \<noteq> []" "[] \<noteq> show_nat n"
  by (subst show_nat.simps, simp)+

lemma show_nat_digits: "c \<in> set (show_nat n) \<Longrightarrow> is_digit c"
proof (induction n rule: show_nat.induct)
  case (1 n)
  then show ?case
    by (cases "n < 10") (auto simp: show_nat.simps [of n])
qed

lemma read_show_nat [simp]: "read_nat (show_nat n) = Some n"
  by (simp add: read_nat_def digits_from_show_nat)

lemma show_nat_inject [simp]: "show_nat m = show_nat n \<longleftrightarrow> m = n"
  by (metis read_show_nat option.inject)

lemma is_digit_simps [simp]:
  "\<not> is_digit (CHR '':'')" "\<not> is_digit (CHR ''-'')" "\<not> is_digit (CHR ''+'')"
  "\<not> is_digit (CHR ''}'')" "\<not> is_digit (CHR ''{'')"
  by (simp_all add: is_digit_def)

lemma show_nat_notin [simp]: "\<not> is_digit c \<Longrightarrow> c \<notin> set (show_nat n)"
  using show_nat_digits by blast

lemma show_nat_Cons: "show_nat n = c # cs \<Longrightarrow> is_digit c"
  using show_nat_digits [of c n] by simp

lemma parse_unsigned_show_nat [simp]:
  assumes "n < 2 ^ w"
  shows "parse_unsigned w (show_nat n) = Some n"
proof -
  obtain c cs where c: "show_nat n = c # cs" by (cases "show_nat n") auto
  from show_nat_Cons [OF this] have "c \<noteq> CHR ''+''" by auto
  moreover have "read_nat (c # cs) = Some n" using c read_show_nat by metis
  ultimately show ?thesis using c assms by (simp add: parse_unsigned_def)
qed

lemma show_int_nonempty [simp]: "show_int i \<noteq> []"
  by (simp add: show_int_def)

lemma parse_signed_show_int [simp]:
  assumes "- (2 ^ (w - 1)) \<le> i" "i < 2 ^ (w - 1)"
  shows "parse_signed w (show_int i) = Some i"
proof (cases "i < 0")
  case True
  then show ?thesis using assms by (simp add: show_int_def parse_signed_def)
next
  case False
  then obtain c cs where c: "show_nat (nat i) = c # cs" by (cases "show_nat (nat i)") auto
  from show_nat_Cons [OF this] have "c \<noteq> CHR ''+''" "c \<noteq> CHR ''-''" by auto
  moreover have "read_nat (c # cs) = Some (nat i)" using c read_show_nat by metis
  ultimately show ?thesis using c False assms by (simp add: show_int_def parse_signed_def)
qed

lemma read_show_int [simp]: "read_int (show_int i) = Some i"
proof (cases "i < 0")
  case True
  then show ?thesis by (simp add: show_int_def read_int_def)
next
  case False
  then obtain c cs where c: "show_nat (nat i) = c # cs" by (cases "show_nat (nat i)") auto
  from show_nat_Cons [OF this] have "c \<noteq> CHR ''-''" by auto
  moreover have "read_nat (c # cs) = Some (nat i)" using c read_show_nat by metis
  ultimately show ?thesis using c False by (simp add: show_int_def read_int_def)
qed

lemma read_int_show_nat [simp]: "read_int (show_nat n) = Some (int n)"
  using read_show_int [of "int n"] by (simp add: show_int_def)

lemma show_int_inject [simp]: "show_int i = show_int j \<longleftrightarrow> i = j"
proof -
  have "show_nat n \<noteq> CHR ''-'' # xs" for n xs
    using show_nat_Cons [of n "CHR ''-''" xs] by auto
  moreover have "CHR ''-'' # xs \<noteq> show_nat n" for n xs
    using show_nat_Cons [of n "CHR ''-''" xs] by auto
  ultimately show ?thesis
    by (auto simp: show_int_def eq_nat_nat_iff)
qed

lemma show_int_of_nat [simp]: "show_int (int n) = show_nat n"
  by (simp add: show_int_def)

lemma show_int_0_iff: "show_int i = ''0'' \<longleftrightarrow> i = 0"
proof -
  have "show_int 0 = ''0''"
    by (simp add: show_int_def show_nat.simps)
  then show ?thesis by (metis show_int_inject)
qed


section \<open>Fixed-width integers\<close>

definition i64_min :: int where "i64_min = - (2 ^ 63)"
definition i64_max :: int where "i64_max = 2 ^ 63 - 1"
definition u64_max :: nat where "u64_max = 2 ^ 64 - 1"

text \<open>Clamping to the range of \<^verbatim>\<open>i64\<close>, which the saturating operations do.\<close>

definition clamp_i64 :: "int \<Rightarrow> int" where
  "clamp_i64 i = max i64_min (min i64_max i)"

text \<open>\<^verbatim>\<open>as i64\<close> on a \<^verbatim>\<open>u64\<close>: the same bits read as two's complement.\<close>

definition u64_as_i64 :: "nat \<Rightarrow> int" where
  "u64_as_i64 n = (if n < 2 ^ 63 then int n else int n - 2 ^ 64)"

lemma clamp_i64_id: "i64_min \<le> i \<Longrightarrow> i \<le> i64_max \<Longrightarrow> clamp_i64 i = i"
  by (simp add: clamp_i64_def)

lemma clamp_i64_bounds: "i64_min \<le> clamp_i64 i" "clamp_i64 i \<le> i64_max"
  by (simp_all add: clamp_i64_def i64_min_def i64_max_def)

lemma clamp_i64_mono: "i \<le> j \<Longrightarrow> clamp_i64 i \<le> clamp_i64 j"
  by (auto simp: clamp_i64_def)

section \<open>Lists\<close>

lemma takeWhile_append_stop:
  "(\<And>y. y \<in> set xs \<Longrightarrow> P y) \<Longrightarrow> \<not> P x \<Longrightarrow> takeWhile P (xs @ x # ys) = xs"
  by (induction xs) auto

lemma takeWhile_neq_append: "d \<notin> set xs \<Longrightarrow> takeWhile (\<lambda>c. c \<noteq> d) (xs @ d # ys) = xs"
  by (rule takeWhile_append_stop) auto

lemma dropWhile_append_stop:
  "(\<And>y. y \<in> set xs \<Longrightarrow> P y) \<Longrightarrow> \<not> P x \<Longrightarrow> dropWhile P (xs @ x # ys) = x # ys"
  by (induction xs) auto

lemma card_split_member: "finite A \<Longrightarrow> card A = card (A - {j}) + (if j \<in> A then 1 else 0)"
  by (cases "j \<in> A") (use card_Suc_Diff1 [of A j] in simp_all)

end
