(* ===== verification/Types.thy ===== *)
theory Types
  imports Prelude
begin

text \<open>
  The data model: \<^verbatim>\<open>crates/redloop/src/types.rs\<close>, \<^verbatim>\<open>error.rs\<close>, \<^verbatim>\<open>store.rs\<close> and the
  configuration types of \<^verbatim>\<open>config.rs\<close>.
  A \<^verbatim>\<open>chrono::DateTime<Utc>\<close> is an instant, here the number of nanoseconds since the epoch; a
  \<^verbatim>\<open>std::time::Duration\<close> is a number of nanoseconds.
  The errors of the redis and tokio crates are kept as the answers to the questions the code asks
  them.
\<close>

type_synonym timestamp = int
type_synonym duration = nat

section \<open>Job states and results\<close>

datatype job_state = Ready | Scheduled | Leased | Failed

fun job_state_as_str :: "job_state \<Rightarrow> string" where
  "job_state_as_str Ready = ''ready''"
| "job_state_as_str Scheduled = ''scheduled''"
| "job_state_as_str Leased = ''leased''"
| "job_state_as_str Failed = ''failed''"

definition job_state_from_str :: "string \<Rightarrow> job_state option" where
  "job_state_from_str value =
     (if value = ''ready'' then Some Ready
      else if value = ''scheduled'' then Some Scheduled
      else if value = ''leased'' then Some Leased
      else if value = ''failed'' then Some Failed
      else None)"

datatype enqueue_status = Created | Unchanged | Updated

definition enqueue_status_from_str :: "string \<Rightarrow> enqueue_status option" where
  "enqueue_status_from_str value =
     (if value = ''created'' then Some Created
      else if value = ''unchanged'' then Some Unchanged
      else if value = ''updated'' then Some Updated
      else None)"

text \<open>The wire name of an enqueue status, as the enqueue script writes it.\<close>

fun enqueue_status_str :: "enqueue_status \<Rightarrow> string" where
  "enqueue_status_str Created = ''created''"
| "enqueue_status_str Unchanged = ''unchanged''"
| "enqueue_status_str Updated = ''updated''"

record enqueue_result =
  er_job_id :: string
  er_state :: job_state
  er_status :: enqueue_status

record batch_enqueue_result =
  items :: "enqueue_result list"

record reschedule_result =
  rr_job_id :: string
  rr_state :: job_state
  rr_schedule_at :: "timestamp option"

datatype job_error = Retryable_error string

datatype job_outcome = Complete | Reschedule "timestamp option" | Fail string

record lease_holder =
  lh_worker_id :: string
  lh_lease_token :: string
  lh_leased_until :: timestamp

record job_record =
  jr_job_id :: string
  jr_state :: job_state
  jr_ready_at :: "timestamp option"
  jr_schedule_at :: "timestamp option"
  jr_failure_count :: nat
  jr_leased_by :: "lease_holder option"
  jr_failed_at :: "timestamp option"

record queue_counts =
  ready_count :: nat
  scheduled_due_count :: nat
  scheduled_future_count :: nat
  leased_count :: nat
  failed_count :: nat

record failed_jobs_query =
  fq_cursor :: "string option"
  fq_limit :: nat

record failed_jobs_page =
  fp_jobs :: "job_record list"
  fp_next_cursor :: "string option"

record worker_info =
  wi_worker_id :: string
  wi_concurrency :: nat
  wi_leased_count :: nat
  wi_last_heartbeat_at :: timestamp

datatype failed_selector = Sel_JobId string | Sel_OlderThan timestamp | Sel_All

record force_fail_request =
  ff_job_id :: string
  ff_message :: string


section \<open>Errors\<close>

datatype invalid_config_kind =
    ConcurrencyZero
  | LeaseDurationZero
  | HeartbeatIntervalZero
  | HeartbeatNotShorterThanLease
  | ReapIntervalZero
  | PollIntervalMinZero
  | PollIntervalRange
  | EmptyRedisNodes
  | EmptySentinelServiceName
  | RetryPolicyMismatch

fun invalid_config_kind_display :: "invalid_config_kind \<Rightarrow> string" where
  "invalid_config_kind_display ConcurrencyZero = ''worker concurrency must be greater than zero''"
| "invalid_config_kind_display LeaseDurationZero = ''lease_duration must be greater than zero''"
| "invalid_config_kind_display HeartbeatIntervalZero =
     ''heartbeat_interval must be greater than zero''"
| "invalid_config_kind_display HeartbeatNotShorterThanLease =
     ''heartbeat_interval must be shorter than lease_duration''"
| "invalid_config_kind_display ReapIntervalZero = ''reap_interval must be greater than zero''"
| "invalid_config_kind_display PollIntervalMinZero =
     ''poll_interval_min must be greater than zero''"
| "invalid_config_kind_display PollIntervalRange =
     ''poll_interval_min must be less than or equal to poll_interval_max''"
| "invalid_config_kind_display EmptyRedisNodes = ''redis deployment requires at least one node''"
| "invalid_config_kind_display EmptySentinelServiceName =
     ''sentinel deployment requires a service_name''"
| "invalid_config_kind_display RetryPolicyMismatch =
     ''worker retry_policy does not match the namespace retry_policy''"

text \<open>
  What the code asks a \<^verbatim>\<open>redis::RedisError\<close>; the rest of it is only passed on.
\<close>

record redis_error =
  is_timeout :: bool
  is_connection_refusal :: bool
  is_connection_dropped :: bool

text \<open>A \<^verbatim>\<open>tokio::task::JoinError\<close> is only passed on.\<close>

datatype join_error = Join_error

datatype error =
    JobIdTooLong nat
  | InvalidState string job_state
  | NotFound string
  | LeaseMismatch string
  | InvalidConfig invalid_config_kind
  | InvalidCursor string
  | InvalidTimestamp int
  | InvalidData string
  | Redis string redis_error
  | CommandTimedOut string nat
  | WorkerTaskJoin join_error

type_synonym 'a result = "('a, error) rresult"

fun is_recoverable_worker_runtime :: "error \<Rightarrow> bool" where
  "is_recoverable_worker_runtime (CommandTimedOut _ _) = True"
| "is_recoverable_worker_runtime (Redis _ source) =
     (is_timeout source \<or> is_connection_refusal source \<or> is_connection_dropped source)"
| "is_recoverable_worker_runtime _ = False"


section \<open>Configuration types\<close>

datatype redis_deployment =
    Standalone string
  | Sentinel string "string list"
  | Cluster "string list"

record connect_config =
  deployment :: redis_deployment
  key_prefix :: string
  command_timeout :: duration

datatype backoff =
    Backoff_none
  | Backoff_fixed nat
  | Backoff_exponential nat nat nat

datatype retry_policy =
    Policy_never
  | Policy_count nat backoff
  | Policy_infinite backoff

record worker_config =
  worker_id :: string
  concurrency :: nat
  retry_policy :: retry_policy
  lease_duration :: duration
  heartbeat_interval :: duration
  reap_interval :: duration
  poll_interval_min :: duration
  poll_interval_max :: duration


section \<open>Requests of the queue store\<close>

datatype replace_mode = Always | IfEarlier | IfLater

record enqueue_request =
  eq_job_id :: string
  eq_schedule_at :: "timestamp option"
  eq_replace_mode :: replace_mode
  eq_allow_existing_current_run :: bool

record reserved_job =
  rj_job_id :: string
  rj_lease_token :: string

record reserve_batch =
  rb_jobs :: "reserved_job list"
  rb_next_schedule_at :: "timestamp option"

datatype failure_action = Action_retryable | Action_terminal

record failure_request =
  fr_worker_id :: string
  fr_job_id :: string
  fr_lease_token :: string
  fr_action :: failure_action
  fr_retry_policy :: retry_policy
  fr_now :: timestamp


section \<open>Wire names round trip\<close>

lemma job_state_roundtrip [simp]: "job_state_from_str (job_state_as_str s) = Some s"
  by (cases s) (simp_all add: job_state_from_str_def)

lemma job_state_from_strD: "job_state_from_str v = Some s \<Longrightarrow> v = job_state_as_str s"
  by (auto simp: job_state_from_str_def split: if_splits)

lemma job_state_from_str_literals [simp]:
  "job_state_from_str ''ready'' = Some Ready"
  "job_state_from_str ''scheduled'' = Some Scheduled"
  "job_state_from_str ''leased'' = Some Leased"
  "job_state_from_str ''failed'' = Some Failed"
  by (simp_all add: job_state_from_str_def)

lemma enqueue_status_roundtrip [simp]:
  "enqueue_status_from_str (enqueue_status_str s) = Some s"
  by (cases s) (simp_all add: enqueue_status_from_str_def)

lemma enqueue_status_from_str_literals [simp]:
  "enqueue_status_from_str ''created'' = Some Created"
  "enqueue_status_from_str ''unchanged'' = Some Unchanged"
  "enqueue_status_from_str ''updated'' = Some Updated"
  by (simp_all add: enqueue_status_from_str_def)

lemma lease_mismatch_not_recoverable [simp]:
  "\<not> is_recoverable_worker_runtime (LeaseMismatch j)"
  by simp

end
