(* ===== verification/Config.thy ===== *)
theory Config
  imports Types
begin

text \<open>
  \<^verbatim>\<open>crates/redloop/src/config.rs\<close>: validation of the connection and worker configuration and
  the textual keys under which a namespace pins its retry policy.
\<close>

section \<open>Validation\<close>

definition deployment_validate :: "redis_deployment \<Rightarrow> unit result" where
  "deployment_validate d =
     (case d of
        Standalone _ \<Rightarrow> Ok ()
      | Sentinel service_name nodes \<Rightarrow>
          (if service_name = [] then Err (InvalidConfig EmptySentinelServiceName)
           else if nodes = [] then Err (InvalidConfig EmptyRedisNodes)
           else Ok ())
      | Cluster nodes \<Rightarrow>
          (if nodes = [] then Err (InvalidConfig EmptyRedisNodes) else Ok ()))"

definition connect_config_validate :: "connect_config \<Rightarrow> unit result" where
  "connect_config_validate c = deployment_validate (deployment c)"

definition worker_config_validate :: "worker_config \<Rightarrow> unit result" where
  "worker_config_validate c =
     (if concurrency c = 0 then Err (InvalidConfig ConcurrencyZero)
      else if lease_duration c = 0 then Err (InvalidConfig LeaseDurationZero)
      else if heartbeat_interval c = 0 then Err (InvalidConfig HeartbeatIntervalZero)
      else if heartbeat_interval c \<ge> lease_duration c
      then Err (InvalidConfig HeartbeatNotShorterThanLease)
      else if reap_interval c = 0 then Err (InvalidConfig ReapIntervalZero)
      else if poll_interval_min c = 0 then Err (InvalidConfig PollIntervalMinZero)
      else if poll_interval_min c > poll_interval_max c
      then Err (InvalidConfig PollIntervalRange)
      else Ok ())"


section \<open>Retry policy keys\<close>

fun backoff_key :: "backoff \<Rightarrow> string" where
  "backoff_key Backoff_none = ''none''"
| "backoff_key (Backoff_fixed delay_ms) = ''fixed:'' @ show_nat delay_ms"
| "backoff_key (Backoff_exponential initial_delay_ms multiplier max_delay_ms) =
     ''exponential:'' @ show_nat initial_delay_ms @ '':'' @ show_nat multiplier @ '':'' @
     show_nat max_delay_ms"

definition retry_policy_key :: "worker_config \<Rightarrow> string" where
  "retry_policy_key c =
     (case retry_policy c of
        Policy_never \<Rightarrow> ''never''
      | Policy_count max_retries b \<Rightarrow>
          ''count:'' @ show_nat max_retries @ '':'' @ backoff_key b
      | Policy_infinite b \<Rightarrow> ''infinite:'' @ backoff_key b)"


section \<open>Facts\<close>

text \<open>A validated worker heartbeats strictly within its lease and polls with a positive delay.\<close>

lemma worker_config_validate_iff:
  "worker_config_validate c = Ok () \<longleftrightarrow>
     0 < concurrency c \<and> 0 < heartbeat_interval c \<and> heartbeat_interval c < lease_duration c \<and>
     0 < reap_interval c \<and> 0 < poll_interval_min c \<and> poll_interval_min c \<le> poll_interval_max c"
  by (auto simp: worker_config_validate_def)

lemma worker_config_validate_no_panic [simp]: "worker_config_validate c \<noteq> Panic"
  by (simp add: worker_config_validate_def)

lemma split_at_colon:
  assumes "xs @ CHR '':'' # ys = xs' @ CHR '':'' # ys'" "CHR '':'' \<notin> set xs" "CHR '':'' \<notin> set xs'"
  shows "xs = xs' \<and> ys = ys'"
  using assms
proof (induction xs arbitrary: xs')
  case Nil
  then show ?case by (cases xs') auto
next
  case (Cons x xs)
  then show ?case by (cases xs') auto
qed

lemma colon_split_nat:
  "show_nat m @ CHR '':'' # ys = show_nat n @ CHR '':'' # ys' \<longleftrightarrow> m = n \<and> ys = ys'"
  using split_at_colon [of "show_nat m" ys "show_nat n" ys'] by auto

lemma backoff_key_inject: "backoff_key a = backoff_key b \<longleftrightarrow> a = b"
  by (cases a; cases b) (auto simp: colon_split_nat)

lemma retry_policy_key_inject:
  "retry_policy_key c = retry_policy_key c' \<longleftrightarrow> retry_policy c = retry_policy c'"
  by (cases "retry_policy c"; cases "retry_policy c'")
     (auto simp: retry_policy_key_def backoff_key_inject colon_split_nat)

end
