(* ===== verification/Codec.thy ===== *)
theory Codec
  imports Config
begin

text \<open>
  \<^verbatim>\<open>crates/redloop/src/redis_store/codec.rs\<close>: the packed worker registration record and the
  reader of packed lease metadata.
\<close>

record stored_worker_config =
  sw_concurrency :: nat
  sw_lease_duration_ms :: nat

definition as_millis :: "duration \<Rightarrow> nat" where
  "as_millis d = d div 1000000"

definition as_micros :: "duration \<Rightarrow> nat" where
  "as_micros d = d div 1000"

definition pack_worker_config_record :: "worker_config \<Rightarrow> string" where
  "pack_worker_config_record c =
     show_nat (concurrency c) @ '':'' @
     show_nat (as_millis (lease_duration c)) @ '':'' @
     show_nat (as_millis (heartbeat_interval c)) @ '':'' @
     show_nat (as_millis (reap_interval c)) @ '':'' @
     show_nat (as_millis (poll_interval_min c)) @ '':'' @
     show_nat (as_millis (poll_interval_max c)) @ '':'' @
     retry_policy_key c"

text \<open>\<^verbatim>\<open>str::split\<close> on one character: never empty, one more part than separators.\<close>

fun split_on :: "char \<Rightarrow> string \<Rightarrow> string list" where
  "split_on d [] = [[]]"
| "split_on d (c # cs) =
     (if c = d then [] # split_on d cs
      else (case split_on d cs of [] \<Rightarrow> [[c]] | p # ps \<Rightarrow> (c # p) # ps))"

definition parse_worker_config_record :: "string \<Rightarrow> stored_worker_config result" where
  "parse_worker_config_record record =
     (let parts = split_on (CHR '':'') record
      in and_then (ok_or (get_at parts 0) (InvalidData ''workers:config.concurrency'')) (\<lambda>p0.
         and_then (ok_or (parse_usize p0) (InvalidData ''workers:config.concurrency'')) (\<lambda>conc.
         and_then (ok_or (get_at parts 1) (InvalidData ''workers:config.lease_duration_ms'')) (\<lambda>p1.
         and_then (ok_or (parse_u64 p1) (InvalidData ''workers:config.lease_duration_ms'')) (\<lambda>ms.
         Ok \<lparr>sw_concurrency = conc, sw_lease_duration_ms = ms\<rparr>)))))"

text \<open>
  \<^verbatim>\<open>str::is_char_boundary\<close>: a byte offset at the end or at a byte that does not continue a
  UTF-8 sequence. Slicing a \<^verbatim>\<open>str\<close> anywhere else panics.
\<close>

definition is_char_boundary :: "string \<Rightarrow> nat \<Rightarrow> bool" where
  "is_char_boundary s i \<longleftrightarrow>
     i = 0 \<or> i = length s \<or>
     (i < length s \<and> ((of_char (s ! i) :: nat) < 128 \<or> 192 \<le> (of_char (s ! i) :: nat)))"

definition str_find :: "char \<Rightarrow> string \<Rightarrow> nat option" where
  "str_find d s = (if d \<in> set s then Some (length (takeWhile (\<lambda>c. c \<noteq> d) s)) else None)"

definition parse_lease_meta :: "string \<Rightarrow> (string \<times> string) result" where
  "parse_lease_meta meta =
     and_then (ok_or (str_find (CHR '':'') meta) (InvalidData ''lease_meta.delimiter'')) (\<lambda>delimiter.
     and_then (ok_or (parse_usize (take delimiter meta)) (InvalidData ''lease_meta.length'')) (\<lambda>len.
     let rest = drop (delimiter + 1) meta
     in if length rest < len then Err (InvalidData ''lease_meta.worker_id'')
        else if \<not> is_char_boundary rest len then Panic
        else Ok (take len rest, drop len rest)))"


section \<open>Facts\<close>

lemma split_on_nonempty [simp]: "split_on d s \<noteq> []"
  by (induction s) (auto split: list.splits)

lemma split_on_append_sep:
  "d \<notin> set xs \<Longrightarrow> split_on d (xs @ d # ys) = xs # split_on d ys"
  by (induction xs) auto

lemma split_on_no_sep: "d \<notin> set xs \<Longrightarrow> split_on d xs = [xs]"
  by (induction xs) auto

lemma str_find_append:
  "d \<notin> set xs \<Longrightarrow> str_find d (xs @ d # ys) = Some (length xs)"
  by (simp add: str_find_def takeWhile_neq_append)

lemma split_worker_record:
  "\<exists>rest. split_on (CHR '':'') (pack_worker_config_record c) =
     show_nat (concurrency c) # show_nat (as_millis (lease_duration c)) # rest"
  by (simp add: pack_worker_config_record_def split_on_append_sep)

lemma parse_pack_worker_record:
  assumes "concurrency c < 2 ^ 64" "as_millis (lease_duration c) < 2 ^ 64"
  shows "parse_worker_config_record (pack_worker_config_record c) =
    Ok \<lparr>sw_concurrency = concurrency c, sw_lease_duration_ms = as_millis (lease_duration c)\<rparr>"
proof -
  obtain rest where "split_on (CHR '':'') (pack_worker_config_record c) =
      show_nat (concurrency c) # show_nat (as_millis (lease_duration c)) # rest"
    using split_worker_record by blast
  with assms show ?thesis by (simp add: parse_worker_config_record_def)
qed

lemma parse_unsigned_show_nat_None:
  assumes "\<not> n < 2 ^ w"
  shows "parse_unsigned w (show_nat n) = None"
proof -
  obtain c cs where c: "show_nat n = c # cs" by (cases "show_nat n") auto
  from show_nat_Cons [OF this] have "c \<noteq> CHR ''+''" by auto
  moreover have "read_nat (c # cs) = Some n" using c read_show_nat by metis
  ultimately show ?thesis using c assms by (simp add: parse_unsigned_def)
qed

lemma parse_pack_worker_record_overflow:
  assumes "concurrency c < 2 ^ 64" "2 ^ 64 \<le> as_millis (lease_duration c)"
  shows "parse_worker_config_record (pack_worker_config_record c) =
    Err (InvalidData ''workers:config.lease_duration_ms'')"
proof -
  obtain rest where "split_on (CHR '':'') (pack_worker_config_record c) =
      show_nat (concurrency c) # show_nat (as_millis (lease_duration c)) # rest"
    using split_worker_record by blast
  with assms show ?thesis
    by (simp add: parse_worker_config_record_def parse_unsigned_show_nat_None)
qed

lemma parse_worker_record_no_panic: "parse_worker_config_record r \<noteq> Panic"
  by (simp add: parse_worker_config_record_def Let_def)

end
