(* ===== verification/Redis_Service.thy ===== *)
theory Redis_Service
  imports Types
begin

text \<open>
  The Redis commands the program issues, as a parameter of the model. A record holds one operation
  per command; the locales state what Redis documents of them; a small in-memory Redis shows that
  the laws can be met and runs the examples.
  A key holds one type of value. The program never uses one key at two types (its keys are
  pairwise different, theory Keys), so each type is described on its own key space.
  A sorted set member has a double as its score. Every score of this program is an integral
  double, so a score is an integer here.
\<close>


section \<open>Sorted set entries\<close>

text \<open>Redis orders a sorted set by score, and members of equal score by their bytes.\<close>

datatype zentry = ZEntry (zscore_of: int) (zmember: string)

instantiation zentry :: linorder
begin

definition less_eq_zentry :: "zentry \<Rightarrow> zentry \<Rightarrow> bool" where
  "less_eq_zentry a b \<longleftrightarrow>
     zscore_of a < zscore_of b \<or> (zscore_of a = zscore_of b \<and> zmember a \<le> zmember b)"

definition less_zentry :: "zentry \<Rightarrow> zentry \<Rightarrow> bool" where
  "less_zentry a b \<longleftrightarrow>
     zscore_of a < zscore_of b \<or> (zscore_of a = zscore_of b \<and> zmember a < zmember b)"

instance
  by standard (auto simp: less_eq_zentry_def less_zentry_def intro: zentry.expand)

end

text \<open>The bounds of a score range: infinite, inclusive, or exclusive (written with a bracket).\<close>

datatype score_bound = NegInf | PosInf | Incl int | Excl int

fun above :: "score_bound \<Rightarrow> int \<Rightarrow> bool" where
  "above NegInf s = True"
| "above PosInf s = False"
| "above (Incl b) s = (b \<le> s)"
| "above (Excl b) s = (b < s)"

fun below :: "score_bound \<Rightarrow> int \<Rightarrow> bool" where
  "below NegInf s = False"
| "below PosInf s = True"
| "below (Incl b) s = (s \<le> b)"
| "below (Excl b) s = (s < b)"

definition in_range :: "score_bound \<Rightarrow> score_bound \<Rightarrow> zentry \<Rightarrow> bool" where
  "in_range lo hi e \<longleftrightarrow> above lo (zscore_of e) \<and> below hi (zscore_of e)"

lemma in_range_simps [simp]:
  "in_range NegInf (Incl b) (ZEntry s m) \<longleftrightarrow> s \<le> b"
  "in_range NegInf (Excl b) (ZEntry s m) \<longleftrightarrow> s < b"
  "in_range (Excl b) PosInf (ZEntry s m) \<longleftrightarrow> b < s"
  by (simp_all add: in_range_def)


section \<open>The commands\<close>

type_synonym redis_key = string

record 'db redis_api =
  zadd :: "'db \<Rightarrow> string \<Rightarrow> int \<Rightarrow> string \<Rightarrow> 'db"
  zrem :: "'db \<Rightarrow> string \<Rightarrow> string \<Rightarrow> 'db"
  zscore :: "'db \<Rightarrow> string \<Rightarrow> string \<Rightarrow> int option"
  zrange :: "'db \<Rightarrow> string \<Rightarrow> int \<Rightarrow> int \<Rightarrow> zentry list"
  zrangebyscore :: "'db \<Rightarrow> string \<Rightarrow> score_bound \<Rightarrow> score_bound \<Rightarrow> nat option \<Rightarrow> zentry list"
  zcard :: "'db \<Rightarrow> string \<Rightarrow> nat"
  zcount :: "'db \<Rightarrow> string \<Rightarrow> score_bound \<Rightarrow> score_bound \<Rightarrow> nat"
  hget :: "'db \<Rightarrow> string \<Rightarrow> string \<Rightarrow> string option"
  hset :: "'db \<Rightarrow> string \<Rightarrow> string \<Rightarrow> string \<Rightarrow> 'db"
  hdel :: "'db \<Rightarrow> string \<Rightarrow> string \<Rightarrow> 'db"
  hincrby :: "'db \<Rightarrow> string \<Rightarrow> string \<Rightarrow> int \<Rightarrow> 'db \<times> int"
  sadd :: "'db \<Rightarrow> string \<Rightarrow> string \<Rightarrow> 'db \<times> nat"
  srem :: "'db \<Rightarrow> string \<Rightarrow> string \<Rightarrow> 'db \<times> nat"
  smembers :: "'db \<Rightarrow> string \<Rightarrow> string list"
  score_text :: "int \<Rightarrow> string"
  reply_type_error :: redis_error

text \<open>The whole sorted set in rank order, \<^verbatim>\<open>ZRANGE key 0 -1 WITHSCORES\<close>.\<close>

definition zall :: "'db redis_api \<Rightarrow> 'db \<Rightarrow> string \<Rightarrow> zentry list" where
  "zall R db k = zrange R db k 0 (- 1)"

text \<open>Membership of a set, as \<^verbatim>\<open>SMEMBERS\<close> shows it.\<close>

definition sis :: "'db redis_api \<Rightarrow> 'db \<Rightarrow> string \<Rightarrow> string \<Rightarrow> bool" where
  "sis R db k m \<longleftrightarrow> m \<in> set (smembers R db k)"

text \<open>The largest magnitude below which every integer is a double, two to the power 53.\<close>

definition safe_int :: "int \<Rightarrow> bool" where
  "safe_int n \<longleftrightarrow> - (2 ^ 53) \<le> n \<and> n \<le> 2 ^ 53"


section \<open>What Redis documents\<close>

locale redis_zsets =
  fixes R :: "'db redis_api"
  assumes zscore_zadd:
      "zscore R (zadd R db k s m) k' m' = (if k' = k \<and> m' = m then Some s else zscore R db k' m')"
    and zscore_zrem:
      "zscore R (zrem R db k m) k' m' = (if k' = k \<and> m' = m then None else zscore R db k' m')"
    and zall_sorted: "sorted (zall R db k)"
    and zall_distinct: "distinct (map zmember (zall R db k))"
    and zall_zscore: "ZEntry s m \<in> set (zall R db k) \<longleftrightarrow> zscore R db k m = Some s"
    and zrange_slice:
      "0 \<le> i \<Longrightarrow> 0 \<le> j \<Longrightarrow>
       zrange R db k i j = take (nat (j - i + 1)) (drop (nat i) (zall R db k))"
    and zrangebyscore_filter:
      "zrangebyscore R db k lo hi lim =
         (case lim of None \<Rightarrow> filter (in_range lo hi) (zall R db k)
          | Some n \<Rightarrow> take n (filter (in_range lo hi) (zall R db k)))"
    and zcard_length: "zcard R db k = length (zall R db k)"
    and zcount_filter: "zcount R db k lo hi = length (filter (in_range lo hi) (zall R db k))"
    and score_text_exact: "safe_int n \<Longrightarrow> score_text R n = show_int n"

locale redis_hashes =
  fixes R :: "'db redis_api"
  assumes hget_hset:
      "hget R (hset R db k f v) k' f' = (if k' = k \<and> f' = f then Some v else hget R db k' f')"
    and hget_hdel:
      "hget R (hdel R db k f) k' f' = (if k' = k \<and> f' = f then None else hget R db k' f')"
    and hincrby_value:
      "(case hget R db k f of None \<Rightarrow> n = 0 | Some v \<Rightarrow> v = show_int n) \<Longrightarrow>
       snd (hincrby R db k f d) = n + d \<and>
       hget R (fst (hincrby R db k f d)) k f = Some (show_int (n + d))"
    and hincrby_other:
      "k' \<noteq> k \<or> f' \<noteq> f \<Longrightarrow> hget R (fst (hincrby R db k f d)) k' f' = hget R db k' f'"

locale redis_sets =
  fixes R :: "'db redis_api"
  assumes smembers_distinct: "distinct (smembers R db k)"
    and sis_sadd: "sis R (fst (sadd R db k m)) k' m' \<longleftrightarrow> (k' = k \<and> m' = m) \<or> sis R db k' m'"
    and sadd_reply: "snd (sadd R db k m) = (if sis R db k m then 0 else 1)"
    and sis_srem: "sis R (fst (srem R db k m)) k' m' \<longleftrightarrow> \<not> (k' = k \<and> m' = m) \<and> sis R db k' m'"
    and srem_reply: "snd (srem R db k m) = (if sis R db k m then 1 else 0)"

text \<open>A command on one type of value leaves the values of the other types alone.\<close>

locale redis_service = redis_zsets + redis_hashes + redis_sets +
  assumes zscore_hset: "zscore R (hset R db k f v) = zscore R db"
    and zscore_hdel: "zscore R (hdel R db k f) = zscore R db"
    and zscore_hincrby: "zscore R (fst (hincrby R db k f d)) = zscore R db"
    and zscore_sadd: "zscore R (fst (sadd R db k m)) = zscore R db"
    and zscore_srem: "zscore R (fst (srem R db k m)) = zscore R db"
    and hget_zadd: "hget R (zadd R db k s m) = hget R db"
    and hget_zrem: "hget R (zrem R db k m) = hget R db"
    and hget_sadd: "hget R (fst (sadd R db k m)) = hget R db"
    and hget_srem: "hget R (fst (srem R db k m)) = hget R db"
    and sis_zadd: "sis R (zadd R db k s m) = sis R db"
    and sis_zrem: "sis R (zrem R db k m) = sis R db"
    and sis_hset: "sis R (hset R db k f v) = sis R db"
    and sis_hdel: "sis R (hdel R db k f) = sis R db"
    and sis_hincrby: "sis R (fst (hincrby R db k f d)) = sis R db"
begin

lemmas zscore_laws [simp] =
  zscore_zadd zscore_zrem zscore_hset zscore_hdel zscore_hincrby zscore_sadd zscore_srem

lemmas hget_laws [simp] =
  hget_hset hget_hdel hget_zadd hget_zrem hget_sadd hget_srem

lemmas sis_laws [simp] =
  sis_sadd sis_srem sadd_reply srem_reply sis_zadd sis_zrem sis_hset sis_hdel sis_hincrby

lemma zall_set: "set (zall R db k) = {ZEntry s m | s m. zscore R db k m = Some s}"
proof (rule set_eqI)
  fix e
  show "e \<in> set (zall R db k) \<longleftrightarrow> e \<in> {ZEntry s m | s m. zscore R db k m = Some s}"
    by (cases e) (simp add: zall_zscore)
qed

lemma zall_distinct_entries: "distinct (zall R db k)"
  using zall_distinct distinct_map by blast

text \<open>The rank order is determined by the scores.\<close>

lemma zall_cong: "zscore R db k = zscore R db' k \<Longrightarrow> zall R db k = zall R db' k"
  by (rule sorted_distinct_set_unique)
     (auto simp: zall_sorted zall_distinct_entries zall_set)

lemma finite_zscore: "finite {m. zscore R db k m \<noteq> None}"
proof -
  have "{m. zscore R db k m \<noteq> None} = zmember ` set (zall R db k)"
    by (force simp: zall_set)
  then show ?thesis by simp
qed

text \<open>The first entry of a sorted set, if any, has the least score.\<close>

lemma zall_hd_least:
  assumes "zall R db k = e # es" "zscore R db k m = Some s"
  shows "zscore_of e \<le> s"
proof -
  have "ZEntry s m \<in> set (e # es)" using assms zall_zscore by metis
  then have "e \<le> ZEntry s m"
    using zall_sorted [of db k] assms(1) by auto
  then show ?thesis by (auto simp: less_eq_zentry_def)
qed

lemma zall_hd_zscore: "zall R db k = e # es \<Longrightarrow> zscore R db k (zmember e) = Some (zscore_of e)"
  using zall_zscore [of "zscore_of e" "zmember e" db k] by simp

end


section \<open>An in-memory Redis\<close>

record mem_db =
  mz :: "string \<Rightarrow> (string \<times> int) list"
  mh :: "string \<Rightarrow> string \<Rightarrow> string option"
  ms :: "string \<Rightarrow> string list"

definition empty_db :: mem_db where
  "empty_db = \<lparr>mz = (\<lambda>_. []), mh = (\<lambda>_ _. None), ms = (\<lambda>_. [])\<rparr>"

definition mem_zadd :: "mem_db \<Rightarrow> string \<Rightarrow> int \<Rightarrow> string \<Rightarrow> mem_db" where
  "mem_zadd db k s m = db\<lparr>mz := (mz db)(k := (m, s) # filter (\<lambda>p. fst p \<noteq> m) (mz db k))\<rparr>"

definition mem_zrem :: "mem_db \<Rightarrow> string \<Rightarrow> string \<Rightarrow> mem_db" where
  "mem_zrem db k m = db\<lparr>mz := (mz db)(k := filter (\<lambda>p. fst p \<noteq> m) (mz db k))\<rparr>"

definition mem_zscore :: "mem_db \<Rightarrow> string \<Rightarrow> string \<Rightarrow> int option" where
  "mem_zscore db k m = map_of (mz db k) m"

definition mem_zall :: "mem_db \<Rightarrow> string \<Rightarrow> zentry list" where
  "mem_zall db k =
     sort (map (\<lambda>m. ZEntry (the (map_of (mz db k) m)) m) (remdups (map fst (mz db k))))"

definition mem_zrange :: "mem_db \<Rightarrow> string \<Rightarrow> int \<Rightarrow> int \<Rightarrow> zentry list" where
  "mem_zrange db k i j =
     (let xs = mem_zall db k; j' = (if j < 0 then int (length xs) + j else j)
      in take (nat (j' - i + 1)) (drop (nat i) xs))"

definition mem_zrangebyscore ::
    "mem_db \<Rightarrow> string \<Rightarrow> score_bound \<Rightarrow> score_bound \<Rightarrow> nat option \<Rightarrow> zentry list" where
  "mem_zrangebyscore db k lo hi lim =
     (case lim of None \<Rightarrow> filter (in_range lo hi) (mem_zall db k)
      | Some n \<Rightarrow> take n (filter (in_range lo hi) (mem_zall db k)))"

definition mem_hset :: "mem_db \<Rightarrow> string \<Rightarrow> string \<Rightarrow> string \<Rightarrow> mem_db" where
  "mem_hset db k f v = db\<lparr>mh := (mh db)(k := (mh db k)(f := Some v))\<rparr>"

definition mem_hdel :: "mem_db \<Rightarrow> string \<Rightarrow> string \<Rightarrow> mem_db" where
  "mem_hdel db k f = db\<lparr>mh := (mh db)(k := (mh db k)(f := None))\<rparr>"

definition mem_hincrby :: "mem_db \<Rightarrow> string \<Rightarrow> string \<Rightarrow> int \<Rightarrow> mem_db \<times> int" where
  "mem_hincrby db k f d =
     (let n = (case mh db k f of
                 None \<Rightarrow> 0
               | Some v \<Rightarrow> (case read_int v of None \<Rightarrow> 0 | Some i \<Rightarrow> i))
      in (mem_hset db k f (show_int (n + d)), n + d))"

definition mem_sadd :: "mem_db \<Rightarrow> string \<Rightarrow> string \<Rightarrow> mem_db \<times> nat" where
  "mem_sadd db k m =
     (if m \<in> set (ms db k) then (db, 0) else (db\<lparr>ms := (ms db)(k := m # ms db k)\<rparr>, 1))"

definition mem_srem :: "mem_db \<Rightarrow> string \<Rightarrow> string \<Rightarrow> mem_db \<times> nat" where
  "mem_srem db k m =
     (if m \<in> set (ms db k) then (db\<lparr>ms := (ms db)(k := filter (\<lambda>x. x \<noteq> m) (ms db k))\<rparr>, 1)
      else (db, 0))"

definition mem_redis :: "mem_db redis_api" where
  "mem_redis =
     \<lparr>zadd = mem_zadd, zrem = mem_zrem, zscore = mem_zscore, zrange = mem_zrange,
      zrangebyscore = mem_zrangebyscore, zcard = (\<lambda>db k. length (mem_zall db k)),
      zcount = (\<lambda>db k lo hi. length (filter (in_range lo hi) (mem_zall db k))),
      hget = mh, hset = mem_hset, hdel = mem_hdel, hincrby = mem_hincrby,
      sadd = mem_sadd, srem = mem_srem, smembers = (\<lambda>db k. remdups (ms db k)),
      score_text = show_int,
      reply_type_error = \<lparr>is_timeout = False, is_connection_refusal = False,
                          is_connection_dropped = False\<rparr>\<rparr>"


lemma mem_redis_sel [simp]:
  "zadd mem_redis = mem_zadd" "zrem mem_redis = mem_zrem" "zscore mem_redis = mem_zscore"
  "zrange mem_redis = mem_zrange" "zrangebyscore mem_redis = mem_zrangebyscore"
  "zcard mem_redis db k = length (mem_zall db k)"
  "zcount mem_redis db k lo hi = length (filter (in_range lo hi) (mem_zall db k))"
  "hget mem_redis = mh" "hset mem_redis = mem_hset" "hdel mem_redis = mem_hdel"
  "hincrby mem_redis = mem_hincrby" "sadd mem_redis = mem_sadd" "srem mem_redis = mem_srem"
  "smembers mem_redis db k = remdups (ms db k)" "score_text mem_redis = show_int"
  by (simp_all add: mem_redis_def)

lemma zall_mem [simp]: "zall mem_redis db k = mem_zall db k"
  by (simp add: zall_def mem_zrange_def Let_def mem_zall_def)

lemma sis_mem [simp]: "sis mem_redis db k m \<longleftrightarrow> m \<in> set (ms db k)"
  by (simp add: sis_def)

lemma map_of_filter_neq:
  "map_of (filter (\<lambda>p. fst p \<noteq> m) xs) m' = (if m' = m then None else map_of xs m')"
  by (induction xs) auto

lemma set_mem_zall:
  "ZEntry s m \<in> set (mem_zall db k) \<longleftrightarrow> map_of (mz db k) m = Some s"
proof -
  have "m \<in> fst ` set (mz db k) \<longleftrightarrow> map_of (mz db k) m \<noteq> None"
    by (metis map_of_eq_None_iff)
  moreover have "ZEntry s m \<in> set (mem_zall db k) \<longleftrightarrow>
      m \<in> fst ` set (mz db k) \<and> s = the (map_of (mz db k) m)"
    unfolding mem_zall_def set_sort set_map set_remdups by blast
  ultimately show ?thesis by auto
qed

lemma mem_zall_distinct: "distinct (map zmember (mem_zall db k))"
proof -
  have "distinct (map zmember (map f (remdups xs)))"
    if "\<And>m. zmember (f m) = m" for f and xs :: "string list"
    using that by (simp add: comp_def)
  moreover have "distinct (map zmember (sort xs)) \<longleftrightarrow> distinct (map zmember xs)" for xs
    by (metis distinct_map distinct_sort set_sort)
  ultimately show ?thesis by (simp add: mem_zall_def)
qed

interpretation mem: redis_service mem_redis
proof (unfold_locales, goal_cases)
  case (1 db k s m k' m')
  then show ?case by (simp add: mem_zscore_def mem_zadd_def map_of_filter_neq)
next
  case (2 db k m k' m')
  then show ?case by (simp add: mem_zscore_def mem_zrem_def map_of_filter_neq)
next
  case (3 db k)
  then show ?case by (simp add: mem_zall_def)
next
  case (4 db k)
  then show ?case by (simp add: mem_zall_distinct)
next
  case (5 s m db k)
  then show ?case by (simp add: set_mem_zall mem_zscore_def)
next
  case (6 i j db k)
  then show ?case by (simp add: mem_zrange_def Let_def)
qed (auto simp: mem_zrangebyscore_def mem_hset_def mem_hdel_def mem_hincrby_def mem_sadd_def
    mem_srem_def mem_zadd_def mem_zrem_def mem_zscore_def fun_eq_iff sis_def Let_def
    split: option.splits if_splits)

end
