(* ===== verification/Lua.thy ===== *)
theory Lua
  imports Codec Redis_Service
begin

text \<open>
  The part of Lua 5.1 the embedded scripts use: numbers, their text, substrings, and the packed
  lease metadata that the scripts write and read.
  A Lua number is a double. Every number in the scripts is integral, so it is an integer here and
  \<^verbatim>\<open>dbl\<close> rounds the results that a double cannot hold (ties to even, as IEEE 754 does).
  \<^verbatim>\<open>tonumber\<close> is given decimal numerals only: the Rust side prints its integers with
  \<^verbatim>\<open>to_string\<close>, and Redis prints a score with all its digits, which reads back as the score.
\<close>


section \<open>Numbers\<close>

fun bit_length :: "nat \<Rightarrow> nat" where
  "bit_length n = (if n = 0 then 0 else Suc (bit_length (n div 2)))"

declare bit_length.simps [simp del]

text \<open>The multiple of \<open>u\<close> nearest to \<open>a\<close>, the even one of two equally near.\<close>

definition round_to :: "nat \<Rightarrow> nat \<Rightarrow> nat" where
  "round_to u a =
     (let q = a div u; r = a mod u
      in if 2 * r < u \<or> (2 * r = u \<and> even q) then q * u else (q + 1) * u)"

definition dbl :: "int \<Rightarrow> int" where
  "dbl n =
     (if safe_int n then n
      else sgn n * int (round_to (2 ^ (bit_length (nat \<bar>n\<bar>) - 53)) (nat \<bar>n\<bar>)))"

text \<open>\<^verbatim>\<open>tonumber\<close>, with \<^verbatim>\<open>or 0\<close> for a text that is no number.\<close>

definition lua_number :: "string \<Rightarrow> int" where
  "lua_number s = (case read_int s of None \<Rightarrow> 0 | Some n \<Rightarrow> dbl n)"

text \<open>\<^verbatim>\<open>string.format('%.0f', value)\<close>\<close>

definition int_string :: "int \<Rightarrow> string" where
  "int_string value = show_int value"

text \<open>
  A number that Lua itself turns into text, by \<^verbatim>\<open>tostring\<close> or by concatenation, is printed with
  fourteen significant digits (\<^verbatim>\<open>%.14g\<close>): \<^verbatim>\<open>g14\<close> is the value of that text.
\<close>

definition g14 :: "int \<Rightarrow> int" where
  "g14 n =
     (if \<bar>n\<bar> < 10 ^ 14 then n
      else sgn n * int (round_to (10 ^ (length (show_nat (nat \<bar>n\<bar>)) - 14)) (nat \<bar>n\<bar>)))"

definition sci_text :: "nat \<Rightarrow> string" where
  "sci_text a =
     (let ds = show_nat a;
          mant = rev (dropWhile (\<lambda>c. c = CHR ''0'') (rev ds));
          expo = show_nat (length ds - 1)
      in hd mant # (if tl mant = [] then [] else CHR ''.'' # tl mant) @ ''e+'' @
         (if length expo < 2 then CHR ''0'' # expo else expo))"

definition lua_tostring :: "int \<Rightarrow> string" where
  "lua_tostring n =
     (if \<bar>n\<bar> < 10 ^ 14 then show_int n
      else (if n < 0 then [CHR ''-''] else []) @ sci_text (nat \<bar>g14 n\<bar>))"


section \<open>Script replies\<close>

text \<open>A script returns a list of strings, or stops with a Lua error.\<close>

datatype reply = Reply "string list" | Script_error


section \<open>Packed lease metadata\<close>

text \<open>
  \<^verbatim>\<open>tostring(string.len(worker_id)) .. ':' .. worker_id .. token\<close>. A Redis string is at most
  512 MB long, so the length prints as a plain numeral.
\<close>

definition pack_meta :: "string \<Rightarrow> string \<Rightarrow> string" where
  "pack_meta worker token = show_nat (length worker) @ '':'' @ worker @ token"

definition worker_from_meta :: "string \<Rightarrow> string option" where
  "worker_from_meta meta =
     (case str_find (CHR '':'') meta of
        None \<Rightarrow> None
      | Some delimiter \<Rightarrow>
          (case read_nat (take delimiter meta) of
             None \<Rightarrow> None
           | Some len \<Rightarrow> Some (take len (drop (delimiter + 1) meta))))"


section \<open>Facts\<close>

lemma dbl_safe [simp]: "safe_int n \<Longrightarrow> dbl n = n"
  by (simp add: dbl_def)

lemma safe_int_simps [simp]: "safe_int 0" "safe_int 1"
  by (simp_all add: safe_int_def)

lemma lua_number_show_int [simp]: "lua_number (show_int n) = dbl n"
  by (simp add: lua_number_def)

lemma lua_number_show_nat [simp]: "lua_number (show_nat n) = dbl (int n)"
  by (simp add: lua_number_def)

lemma lua_number_0 [simp]: "lua_number ''0'' = 0"
  by (simp add: lua_number_def read_int_def read_nat_def is_digit_def digit_val_def)

lemma g14_small: "\<bar>n\<bar> < 10 ^ 14 \<Longrightarrow> g14 n = n"
  by (simp add: g14_def)

lemma round_to_error: "0 < u \<Longrightarrow> 2 * \<bar>int (round_to u a) - int a\<bar> \<le> int u"
proof -
  assume u: "0 < u"
  define q r where "q = a div u" and "r = a mod u"
  have a: "int a = int q * int u + int r"
    unfolding q_def r_def by (metis div_mult_mod_eq of_nat_add of_nat_mult)
  have "r < u" using u by (simp add: r_def)
  then show ?thesis
    using a by (auto simp: round_to_def Let_def simp flip: q_def r_def split: if_splits)
qed

lemma pack_meta_find: "str_find (CHR '':'') (pack_meta w t) = Some (length (show_nat (length w)))"
  by (simp add: pack_meta_def str_find_append)

lemma worker_from_pack_meta [simp]: "worker_from_meta (pack_meta w t) = Some w"
  by (simp add: worker_from_meta_def pack_meta_find) (simp add: pack_meta_def)

lemma pack_meta_inject [simp]: "pack_meta w t = pack_meta w' t' \<longleftrightarrow> w = w' \<and> t = t'"
proof
  assume eq: "pack_meta w t = pack_meta w' t'"
  then have "w = w'" using worker_from_pack_meta by (metis option.inject)
  with eq show "w = w' \<and> t = t'" by (simp add: pack_meta_def)
qed simp

lemma parse_pack_meta:
  assumes "length w < 2 ^ 64" "is_char_boundary (w @ t) (length w)"
  shows "parse_lease_meta (pack_meta w t) = Ok (w, t)"
  using assms
  by (simp add: parse_lease_meta_def pack_meta_find) (simp add: pack_meta_def Let_def)

end
