(* ===== verification/Keys.thy ===== *)
theory Keys
  imports Prelude
begin

text \<open>
  \<^verbatim>\<open>crates/redloop/src/redis_store/keys.rs\<close>: the Redis keys of a namespace. Every key carries the
  hex encoding of the namespace as a Redis Cluster hash tag.
\<close>

record namespace_keys =
  cfg :: string
  failures :: string
  ready :: string
  scheduled :: string
  leased :: string
  lease_meta :: string
  rerun :: string
  failed :: string
  workers_last_seen :: string
  workers_config :: string
  workers_leases :: string

definition namespaces_key :: "string \<Rightarrow> string" where
  "namespaces_key prefix = (if prefix = [] then ''namespaces'' else prefix @ '':namespaces'')"

text \<open>\<^verbatim>\<open>format!("{byte:02x}")\<close>\<close>

definition hex_digit :: "nat \<Rightarrow> char" where
  "hex_digit d = ''0123456789abcdef'' ! d"

definition hex_byte :: "char \<Rightarrow> string" where
  "hex_byte c = [hex_digit (of_char c div 16), hex_digit (of_char c mod 16)]"

definition hex_slot :: "string \<Rightarrow> string" where
  "hex_slot namespace = concat (map hex_byte namespace)"

definition scoped :: "string \<Rightarrow> string \<Rightarrow> string \<Rightarrow> string" where
  "scoped prefix slot suffix =
     (if prefix = [] then ''{'' @ slot @ ''}:'' @ suffix
      else prefix @ ''{'' @ slot @ ''}:'' @ suffix)"

definition namespace_keys :: "string \<Rightarrow> string \<Rightarrow> namespace_keys" where
  "namespace_keys prefix namespace =
     (let slot = hex_slot namespace; key = scoped prefix slot
      in \<lparr>cfg = key ''cfg'', failures = key ''failures'', ready = key ''ready'',
          scheduled = key ''scheduled'', leased = key ''leased'', lease_meta = key ''lease_meta'',
          rerun = key ''rerun'', failed = key ''failed'',
          workers_last_seen = key ''workers:last_seen'',
          workers_config = key ''workers:config'', workers_leases = key ''workers:leases''\<rparr>)"

text \<open>All keys of a namespace, in the order of the struct.\<close>

definition all_keys :: "namespace_keys \<Rightarrow> string list" where
  "all_keys ks =
     [cfg ks, failures ks, ready ks, scheduled ks, leased ks, lease_meta ks, rerun ks, failed ks,
      workers_last_seen ks, workers_config ks, workers_leases ks]"


section \<open>Key layout\<close>

lemma scoped_eq: "scoped prefix slot suffix = prefix @ ''{'' @ slot @ ''}:'' @ suffix"
  by (simp add: scoped_def)

lemma scoped_inject_suffix [simp]:
  "scoped prefix slot s = scoped prefix slot s' \<longleftrightarrow> s = s'"
  by (simp add: scoped_eq)

lemmas keys_sel = namespace_keys_def Let_def

lemma all_keys_namespace:
  "all_keys (namespace_keys prefix ns) =
     map (scoped prefix (hex_slot ns))
       [''cfg'', ''failures'', ''ready'', ''scheduled'', ''leased'', ''lease_meta'', ''rerun'',
        ''failed'', ''workers:last_seen'', ''workers:config'', ''workers:leases'']"
  by (simp add: all_keys_def keys_sel)

lemma distinct_all_keys: "distinct (all_keys (namespace_keys prefix ns))"
  by (simp add: all_keys_namespace)

text \<open>
  Inequalities the component proofs need, one key kind at a time: the sorted sets, the hashes and
  the sets.
\<close>

definition keys_ok :: "namespace_keys \<Rightarrow> bool" where
  "keys_ok ks \<longleftrightarrow> distinct (all_keys ks)"

lemma keys_ok_namespace [simp]: "keys_ok (namespace_keys prefix ns)"
  by (simp add: keys_ok_def distinct_all_keys)

lemma keys_okD [key_simps]:
  assumes "keys_ok ks"
  shows "ready ks \<noteq> scheduled ks" "ready ks \<noteq> leased ks" "ready ks \<noteq> failed ks"
    "scheduled ks \<noteq> ready ks" "leased ks \<noteq> ready ks" "failed ks \<noteq> ready ks"
    "scheduled ks \<noteq> leased ks" "scheduled ks \<noteq> failed ks" "leased ks \<noteq> scheduled ks"
    "failed ks \<noteq> scheduled ks" "leased ks \<noteq> failed ks" "failed ks \<noteq> leased ks"
    "workers_last_seen ks \<noteq> ready ks" "workers_last_seen ks \<noteq> scheduled ks"
    "workers_last_seen ks \<noteq> leased ks" "workers_last_seen ks \<noteq> failed ks"
    "ready ks \<noteq> workers_last_seen ks" "scheduled ks \<noteq> workers_last_seen ks"
    "leased ks \<noteq> workers_last_seen ks" "failed ks \<noteq> workers_last_seen ks"
    "failures ks \<noteq> lease_meta ks" "lease_meta ks \<noteq> failures ks"
    "failures ks \<noteq> workers_leases ks" "workers_leases ks \<noteq> failures ks"
    "lease_meta ks \<noteq> workers_leases ks" "workers_leases ks \<noteq> lease_meta ks"
    "cfg ks \<noteq> failures ks" "cfg ks \<noteq> lease_meta ks" "cfg ks \<noteq> workers_leases ks"
    "cfg ks \<noteq> workers_config ks" "failures ks \<noteq> cfg ks" "lease_meta ks \<noteq> cfg ks"
    "workers_leases ks \<noteq> cfg ks" "workers_config ks \<noteq> cfg ks"
    "workers_config ks \<noteq> failures ks" "workers_config ks \<noteq> lease_meta ks"
    "workers_config ks \<noteq> workers_leases ks" "failures ks \<noteq> workers_config ks"
    "lease_meta ks \<noteq> workers_config ks" "workers_leases ks \<noteq> workers_config ks"
  using assms by (auto simp: keys_ok_def all_keys_def)

section \<open>Injectivity\<close>

lemma hex_digit_inject: "i < 16 \<Longrightarrow> j < 16 \<Longrightarrow> hex_digit i = hex_digit j \<longleftrightarrow> i = j"
  unfolding hex_digit_def by (rule nth_eq_iff_index_eq) simp_all

lemma hex_digit_in: "i < 16 \<Longrightarrow> hex_digit i \<in> set ''0123456789abcdef''"
  unfolding hex_digit_def by (rule nth_mem) simp

lemma of_char_less: "(of_char c :: nat) < 256"
  by (metis char_of_char of_char_mod_256 mod_less_divisor zero_less_numeral)

lemma hex_byte_inject [simp]: "hex_byte c = hex_byte d \<longleftrightarrow> c = d"
proof
  assume eq: "hex_byte c = hex_byte d"
  have lt: "(of_char x :: nat) div 16 < 16" for x :: char
    using of_char_less [of x] by linarith
  from eq have "(of_char c :: nat) div 16 = of_char d div 16" "(of_char c :: nat) mod 16 = of_char d mod 16"
    using lt by (auto simp: hex_byte_def hex_digit_inject)
  then have "(of_char c :: nat) = of_char d"
    by (metis div_mult_mod_eq)
  then show "c = d" by simp
qed simp

lemma hex_slot_simps [simp]:
  "hex_slot [] = []" "hex_slot (c # cs) = hex_byte c @ hex_slot cs"
  by (simp_all add: hex_slot_def)

lemma hex_slot_inject [simp]: "hex_slot xs = hex_slot ys \<longleftrightarrow> xs = ys"
proof (induction xs arbitrary: ys)
  case Nil
  then show ?case by (cases ys) (auto simp: hex_byte_def)
next
  case (Cons x xs)
  have len: "length (hex_byte c) = 2" for c by (simp add: hex_byte_def)
  show ?case
  proof (cases ys)
    case Nil
    then show ?thesis by (simp add: hex_byte_def)
  next
    case (Cons y zs)
    then show ?thesis using Cons.IH len by (simp add: append_eq_append_conv)
  qed
qed

definition hex_chars :: "char set" where
  "hex_chars = set ''0123456789abcdef''"

lemma hex_byte_chars: "set (hex_byte c) \<subseteq> hex_chars"
proof -
  have "(of_char c :: nat) div 16 < 16" using of_char_less [of c] by linarith
  then have "hex_digit (of_char c div 16) \<in> hex_chars"
    unfolding hex_chars_def by (rule hex_digit_in)
  moreover have "hex_digit (of_char c mod 16) \<in> hex_chars"
    unfolding hex_chars_def by (rule hex_digit_in) simp
  ultimately show ?thesis by (simp add: hex_byte_def)
qed

lemma hex_slot_chars: "set (hex_slot ns) \<subseteq> hex_chars"
  using hex_byte_chars by (auto simp: hex_slot_def)

lemma hex_slot_no_brace [simp]:
  "CHR ''{'' \<notin> set (hex_slot ns)" "CHR ''}'' \<notin> set (hex_slot ns)" "CHR '':'' \<notin> set (hex_slot ns)"
  using hex_slot_chars [of ns] by (auto simp: hex_chars_def)

lemma last_brace_split:
  assumes "p @ CHR ''{'' # s = p' @ CHR ''{'' # s'" "CHR ''{'' \<notin> set s" "CHR ''{'' \<notin> set s'"
  shows "p = p' \<and> s = s'"
proof -
  from assms(1) have "rev s @ CHR ''{'' # rev p = rev s' @ CHR ''{'' # rev p'"
    by (metis append.assoc append_Cons append_Nil rev.simps(2) rev_append)
  then have "rev s = rev s' \<and> rev p = rev p'"
    using assms(2,3)
  proof (induction "rev s" arbitrary: s s')
    case Nil
    then show ?case by (cases "rev s'") auto
  next
    case (Cons x xs)
    from Cons.hyps(2) obtain t where t: "s = t @ [x]" "xs = rev t"
      by (metis rev.simps(2) rev_rev_ident)
    with Cons.prems obtain t' where t': "s' = t' @ [x]"
      by (cases s' rule: rev_cases) auto
    show ?case using Cons.hyps(1) [of t t'] Cons.prems t t' by auto
  qed
  then show ?thesis by simp
qed

lemma scoped_inject:
  assumes "CHR ''{'' \<notin> set u" "CHR ''{'' \<notin> set u'"
  shows "scoped p (hex_slot n) u = scoped p' (hex_slot n') u' \<longleftrightarrow> p = p' \<and> n = n' \<and> u = u'"
proof
  assume eq: "scoped p (hex_slot n) u = scoped p' (hex_slot n') u'"
  then have "p @ CHR ''{'' # (hex_slot n @ ''}:'' @ u) = p' @ CHR ''{'' # (hex_slot n' @ ''}:'' @ u')"
    by (simp add: scoped_eq)
  from last_brace_split [OF this] assms
  have p: "p = p'" and s: "hex_slot n @ CHR ''}'' # CHR '':'' # u = hex_slot n' @ CHR ''}'' # CHR '':'' # u'"
    by auto
  have "takeWhile (\<lambda>c. c \<noteq> CHR ''}'') (hex_slot n @ CHR ''}'' # v) = hex_slot n" for n v
    by (rule takeWhile_append_stop) (use hex_slot_no_brace in auto)
  with s have "hex_slot n = hex_slot n'" by metis
  with s p show "p = p' \<and> n = n' \<and> u = u'" by simp
qed simp

lemma all_keys_disjoint:
  assumes "p \<noteq> p' \<or> n \<noteq> n'"
  shows "set (all_keys (namespace_keys p n)) \<inter> set (all_keys (namespace_keys p' n')) = {}"
  using assms by (auto simp: all_keys_namespace scoped_inject)

lemma namespaces_key_notin: "namespaces_key p \<notin> set (all_keys (namespace_keys p' n))"
proof -
  have ends: "last (namespaces_key p) = CHR ''s''"
    "last (butlast (namespaces_key p)) = CHR ''e''"
    "take 11 (rev (namespaces_key p)) = (if p = [] then ''secapseman'' else ''secapseman:'')"
    by (simp_all add: namespaces_key_def butlast_append)
  show ?thesis
    using ends(3) by (auto simp: all_keys_namespace scoped_eq split: if_splits)
qed


section \<open>Redis Cluster hash tags\<close>

text \<open>
  Redis Cluster hashes the bytes between the first opening brace and the first closing brace
  after it, when there are any; otherwise the whole key. Keys with equal tags share a slot.
\<close>

definition hash_tag :: "string \<Rightarrow> string" where
  "hash_tag key =
     (case dropWhile (\<lambda>c. c \<noteq> CHR ''{'') key of
        [] \<Rightarrow> key
      | _ # rest \<Rightarrow>
          (let tag = takeWhile (\<lambda>c. c \<noteq> CHR ''}'') rest
           in if tag = [] \<or> tag = rest then key else tag))"

lemma hash_tag_scoped:
  assumes "CHR ''{'' \<notin> set prefix" "ns \<noteq> []"
  shows "hash_tag (scoped prefix (hex_slot ns) suffix) = hex_slot ns"
proof -
  have d: "dropWhile (\<lambda>c. c \<noteq> CHR ''{'') (scoped prefix (hex_slot ns) suffix) =
      CHR ''{'' # (hex_slot ns @ CHR ''}'' # CHR '':'' # suffix)"
    unfolding scoped_eq append.simps by (rule dropWhile_append_stop) (use assms(1) in auto)
  have t: "takeWhile (\<lambda>c. c \<noteq> CHR ''}'') (hex_slot ns @ CHR ''}'' # CHR '':'' # suffix) = hex_slot ns"
    by (rule takeWhile_append_stop) (use hex_slot_no_brace in auto)
  have "hex_slot ns \<noteq> []" using assms(2) by (cases ns) (auto simp: hex_byte_def)
  then show ?thesis by (simp add: hash_tag_def d t Let_def)
qed

end
