(* ===== verification/Shared.thy ===== *)
theory Shared
  imports Codec Lua Keys
begin

text \<open>
  \<^verbatim>\<open>crates/redloop/src/redis_store/shared.rs\<close> and the response parsers of \<^verbatim>\<open>enqueue.rs\<close>,
  \<^verbatim>\<open>leases.rs\<close>, \<^verbatim>\<open>failures.rs\<close> and \<^verbatim>\<open>workers.rs\<close>: what the Rust side makes of a script reply,
  and the argument lists it sends.
\<close>

section \<open>Instants\<close>

text \<open>
  The two chrono functions the store calls. \<^verbatim>\<open>DateTime::timestamp_micros\<close> is the number of
  whole microseconds since the epoch, rounded down; \<^verbatim>\<open>from_timestamp_micros\<close> is its inverse on
  the microseconds chrono can represent, among them every integer of at most 53 bits.
\<close>

record chrono_api =
  timestamp_micros :: "timestamp \<Rightarrow> int"
  from_timestamp_micros :: "int \<Rightarrow> timestamp option"

locale chrono_service =
  fixes C :: chrono_api
  assumes timestamp_micros_floor: "timestamp_micros C t = t div 1000"
    and from_timestamp_micros_inverse: "from_timestamp_micros C v = Some t \<Longrightarrow> t = v * 1000"
    and from_timestamp_micros_safe: "safe_int v \<Longrightarrow> from_timestamp_micros C v \<noteq> None"
begin

lemma from_safe: "safe_int v \<Longrightarrow> from_timestamp_micros C v = Some (v * 1000)"
  using from_timestamp_micros_inverse from_timestamp_micros_safe by fastforce

text \<open>A whole-microsecond instant survives the trip through Redis.\<close>

lemma micros_roundtrip:
  "safe_int (timestamp_micros C t) \<Longrightarrow>
   from_timestamp_micros C (timestamp_micros C t) = Some (t - t mod 1000)"
  by (simp add: from_safe timestamp_micros_floor minus_mod_eq_div_mult)

end

text \<open>The range of chrono 0.4: years -262143 to 262142.\<close>

definition chrono_range :: chrono_api where
  "chrono_range =
     \<lparr>timestamp_micros = (\<lambda>t. t div 1000),
      from_timestamp_micros = (\<lambda>v.
        if - 8334601228800000000 \<le> v \<and> v \<le> 8210266876799999999 then Some (v * 1000) else None)\<rparr>"

interpretation chrono_range: chrono_service chrono_range
  by unfold_locales (auto simp: chrono_range_def safe_int_def split: if_splits)

lemma chrono_range_micros [simp]: "timestamp_micros chrono_range t = t div 1000"
  by (simp add: chrono_range_def)

definition micros :: "chrono_api \<Rightarrow> timestamp \<Rightarrow> int" where
  "micros C t = timestamp_micros C t"

definition duration_micros :: "duration \<Rightarrow> int" where
  "duration_micros d = min (int (as_micros d)) i64_max"

definition from_micros :: "chrono_api \<Rightarrow> int \<Rightarrow> timestamp result" where
  "from_micros C v = ok_or (from_timestamp_micros C v) (InvalidTimestamp v)"

text \<open>\<^verbatim>\<open>schedule_at.map(micros).unwrap_or_default()\<close>\<close>

definition schedule_micros :: "chrono_api \<Rightarrow> timestamp option \<Rightarrow> int" where
  "schedule_micros C schedule_at =
     (case schedule_at of None \<Rightarrow> 0 | Some t \<Rightarrow> micros C t)"

definition parse_i64 :: "string \<Rightarrow> string \<Rightarrow> int result" where
  "parse_i64 field value = ok_or (parse_signed 64 value) (InvalidData field)"

definition parse_micros :: "chrono_api \<Rightarrow> string \<Rightarrow> string \<Rightarrow> timestamp result" where
  "parse_micros C field value = and_then (parse_i64 field value) (from_micros C)"


section \<open>Script errors\<close>

definition parse_script_error :: "string \<Rightarrow> string list \<Rightarrow> error" where
  "parse_script_error job response =
     (case get_at response 1 of
        None \<Rightarrow> InvalidData ''script.response''
      | Some kind \<Rightarrow>
          (if kind = ''not_found'' then NotFound job
           else if kind = ''invalid_state''
           then (case get_at response 2 of
                   None \<Rightarrow> InvalidState job Failed
                 | Some value \<Rightarrow>
                     (case job_state_from_str value of
                        None \<Rightarrow> InvalidState job Failed
                      | Some state \<Rightarrow> InvalidState job state))
           else if kind = ''lease_mismatch'' then LeaseMismatch job
           else if kind = ''invalid_config'' then InvalidConfig RetryPolicyMismatch
           else InvalidData ''script.response''))"

definition parse_lease_response :: "string \<Rightarrow> string list \<Rightarrow> unit result" where
  "parse_lease_response job response =
     (if get_at response 0 = Some ''ok'' then Ok () else Err (parse_script_error job response))"

definition parse_state :: "string \<Rightarrow> job_state result" where
  "parse_state value = ok_or (job_state_from_str value) (InvalidData ''job_state'')"

definition parse_enqueue_status :: "string \<Rightarrow> enqueue_status result" where
  "parse_enqueue_status value = ok_or (enqueue_status_from_str value) (InvalidData ''enqueue.status'')"

definition parse_enqueue_response :: "string \<Rightarrow> string list \<Rightarrow> enqueue_result result" where
  "parse_enqueue_response job response =
     (if get_at response 0 \<noteq> Some ''ok'' then Err (parse_script_error job response)
      else
        and_then (ok_or (get_at response 1) (InvalidData ''enqueue.status'')) (\<lambda>v1.
        and_then (parse_enqueue_status v1) (\<lambda>status.
        and_then (ok_or (get_at response 2) (InvalidData ''enqueue.state'')) (\<lambda>v2.
        and_then (parse_state v2) (\<lambda>state.
        Ok \<lparr>er_job_id = job, er_state = state, er_status = status\<rparr>)))))"

definition parse_reschedule_response ::
    "chrono_api \<Rightarrow> string \<Rightarrow> string list \<Rightarrow> reschedule_result result" where
  "parse_reschedule_response C job response =
     (if get_at response 0 \<noteq> Some ''ok'' then Err (parse_script_error job response)
      else
        and_then (ok_or (get_at response 2) (InvalidData ''reschedule.state'')) (\<lambda>v2.
        and_then (parse_state v2) (\<lambda>state.
        and_then
          (case get_at response 3 of
             None \<Rightarrow> Ok None
           | Some value \<Rightarrow>
               (if value = ''0'' then Ok None
                else map_ok Some (parse_micros C ''reschedule.schedule_at'' value))) (\<lambda>schedule_at.
        Ok \<lparr>rr_job_id = job, rr_state = state, rr_schedule_at = schedule_at\<rparr>))))"

definition parse_operator_response :: "string \<Rightarrow> string list \<Rightarrow> unit result" where
  "parse_operator_response job response =
     (if get_at response 0 = Some ''ok'' then Ok () else Err (parse_script_error job response))"

definition parse_failure_response :: "chrono_api \<Rightarrow> string \<Rightarrow> string list \<Rightarrow> nat result" where
  "parse_failure_response C job response =
     (if get_at response 0 \<noteq> Some ''ok'' then Err (parse_script_error job response)
      else
        and_then (ok_or (get_at response 1) (InvalidData ''fail_or_retry.failure_count'')) (\<lambda>v1.
        and_then (ok_or (parse_u32 v1) (InvalidData ''fail_or_retry.failure_count'')) (\<lambda>failure_count.
        and_then (ok_or (get_at response 2) (InvalidData ''fail_or_retry.state'')) (\<lambda>v2.
        and_then (parse_state v2) (\<lambda>state.
        and_then
          (case get_at response 3 of
             None \<Rightarrow> Ok ()
           | Some value \<Rightarrow>
               (if value = ''0'' then Ok ()
                else map_ok (\<lambda>_. ()) (parse_micros C ''fail_or_retry.schedule_at'' value))) (\<lambda>_.
        Ok failure_count))))))"

definition parse_reap_response :: "string \<Rightarrow> string list \<Rightarrow> nat result" where
  "parse_reap_response namespace response =
     (if get_at response 0 \<noteq> Some ''ok'' then Err (parse_script_error namespace response)
      else
        and_then (ok_or (get_at response 1) (InvalidData ''reap_expired.count'')) (\<lambda>v1.
        ok_or (parse_u64 v1) (InvalidData ''reap_expired.count'')))"

text \<open>The granted leases, three strings each.\<close>

fun parse_reserved :: "string list \<Rightarrow> reserved_job list result" where
  "parse_reserved [] = Ok []"
| "parse_reserved (job # token # deadline # rest) =
     and_then (parse_i64 ''leased_until'' deadline) (\<lambda>_.
     map_ok ((#) \<lparr>rj_job_id = job, rj_lease_token = token\<rparr>) (parse_reserved rest))"
| "parse_reserved _ = Err (InvalidData ''reserve.response'')"

definition parse_reserve_response ::
    "chrono_api \<Rightarrow> string \<Rightarrow> string list \<Rightarrow> reserve_batch result" where
  "parse_reserve_response C worker response =
     (if get_at response 0 \<noteq> Some ''ok'' then Err (parse_script_error worker response)
      else
        and_then
          (case get_at response 1 of
             None \<Rightarrow> Ok None
           | Some value \<Rightarrow>
               (if value = ''0'' then Ok None
                else map_ok Some (parse_micros C ''next_schedule_at'' value))) (\<lambda>next_schedule_at.
        if length response < 2 then Panic
        else
          map_ok (\<lambda>jobs. \<lparr>rb_jobs = jobs, rb_next_schedule_at = next_schedule_at\<rparr>)
            (parse_reserved (drop 2 response))))"


section \<open>Script arguments\<close>

fun replace_mode_arg :: "replace_mode \<Rightarrow> string" where
  "replace_mode_arg Always = ''replace''"
| "replace_mode_arg IfEarlier = ''earlier''"
| "replace_mode_arg IfLater = ''later''"

fun backoff_args :: "backoff \<Rightarrow> string list" where
  "backoff_args Backoff_none = [''none'', ''0'', ''0'', ''0'']"
| "backoff_args (Backoff_fixed delay_ms) = [''fixed'', show_nat delay_ms, ''0'', ''0'']"
| "backoff_args (Backoff_exponential initial_delay_ms multiplier max_delay_ms) =
     [''exponential'', show_nat initial_delay_ms, show_nat multiplier, show_nat max_delay_ms]"

fun policy_args :: "retry_policy \<Rightarrow> string list" where
  "policy_args Policy_never = [''never'', ''0'', ''none'', ''0'', ''0'', ''0'']"
| "policy_args (Policy_count max_retries backoff) =
     ''count'' # show_nat max_retries # backoff_args backoff"
| "policy_args (Policy_infinite backoff) = ''infinite'' # ''0'' # backoff_args backoff"

definition failure_args :: "chrono_api \<Rightarrow> failure_request \<Rightarrow> string list" where
  "failure_args C request =
     [fr_job_id request, fr_worker_id request, fr_lease_token request,
      show_int (micros C (fr_now request)),
      (case fr_action request of Action_retryable \<Rightarrow> ''retryable'' | Action_terminal \<Rightarrow> ''terminal'')]
     @ policy_args (fr_retry_policy request)"


section \<open>Facts\<close>

lemma parse_reserved_lease_reply:
  assumes "i64_min \<le> d" "d \<le> i64_max"
  shows "parse_reserved (concat (map (\<lambda>(j, t). [j, t, show_int d]) gs)) =
    Ok (map (\<lambda>(j, t). \<lparr>rj_job_id = j, rj_lease_token = t\<rparr>) gs)"
  using assms by (induction gs) (auto simp: parse_i64_def i64_min_def i64_max_def)

lemma parse_micros_safe:
  assumes "chrono_service C" "safe_int v"
  shows "parse_micros C field (show_int v) = Ok (v * 1000)"
proof -
  have "parse_signed 64 (show_int v) = Some v"
    using assms(2) by (intro parse_signed_show_int) (simp_all add: safe_int_def)
  then show ?thesis
    by (simp add: parse_micros_def parse_i64_def from_micros_def chrono_service.from_safe [OF assms])
qed

end
