(* ===== verification/Connection.thy ===== *)
theory Connection
  imports Shared
begin

text \<open>
  \<^verbatim>\<open>crates/redloop/src/redis_store/connection.rs\<close> and the store handle of \<^verbatim>\<open>store.rs\<close>: a
  command is sent, the server may or may not run it, and either timer may win the race against the
  reply.
\<close>

record 'db redis_store =
  redis :: "'db redis_api"
  chrono :: chrono_api
  store_config :: connect_config

definition store_keys :: "'db redis_store \<Rightarrow> string \<Rightarrow> namespace_keys" where
  "store_keys S namespace = namespace_keys (key_prefix (store_config S)) namespace"


section \<open>The fate of a command\<close>

text \<open>
  What happens to one command on its way: what other clients do before the server gets to it, and
  whether the reply arrives, an error of the connection arrives instead, or the timer of the driver
  fires first. In the last two cases the flag says whether the server ran the command all the same.
  The \<open>i\<close>-th command of an operation has the \<open>i\<close>-th link.
\<close>

datatype delivery = Answered | Errored bool redis_error | Timer_fired bool

record 'db link =
  others :: "'db \<Rightarrow> 'db"
  delivery :: delivery

type_synonym 'db links = "nat \<Rightarrow> 'db link"

definition quiet :: "'db links" where
  "quiet = (\<lambda>_. \<lparr>others = (\<lambda>db. db), delivery = Answered\<rparr>)"

lemma quiet_simps [simp]: "others (quiet i) = (\<lambda>db. db)" "delivery (quiet i) = Answered"
  by (simp_all add: quiet_def)

text \<open>An error of the redis crate or a value.\<close>

type_synonym 'a redis_result = "redis_error + 'a"

text \<open>The response of \<^verbatim>\<open>timeout(...).await\<close>: \<^const>\<open>None\<close> when the timer fired.\<close>

fun command_result :: "string \<Rightarrow> duration \<Rightarrow> 'a redis_result option \<Rightarrow> 'a result" where
  "command_result operation limit (Some (Inr value)) = Ok value"
| "command_result operation limit (Some (Inl source)) =
     (if \<not> is_timeout source then Err (Redis operation source)
      else Err (CommandTimedOut operation (min (as_millis limit) u64_max)))"
| "command_result operation limit None =
     Err (CommandTimedOut operation (min (as_millis limit) u64_max))"

definition query_cmd ::
    "'db redis_store \<Rightarrow> string \<Rightarrow> 'db link \<Rightarrow> ('db \<Rightarrow> 'db \<times> 'a redis_result) \<Rightarrow> 'db \<Rightarrow>
     'db \<times> 'a result" where
  "query_cmd S operation l run db =
     (let limit = command_timeout (store_config S);
          db0 = others l db;
          (db1, reply) = run db0
      in case delivery l of
           Answered \<Rightarrow> (db1, command_result operation limit (Some reply))
         | Errored executed source \<Rightarrow>
             (if executed then db1 else db0,
              command_result operation limit (Some (Inl source)))
         | Timer_fired executed \<Rightarrow>
             (if executed then db1 else db0, command_result operation limit None))"

text \<open>A pipeline is sent and awaited the same way.\<close>

definition query_pipe ::
    "'db redis_store \<Rightarrow> string \<Rightarrow> 'db link \<Rightarrow> ('db \<Rightarrow> 'db \<times> 'a redis_result) \<Rightarrow> 'db \<Rightarrow>
     'db \<times> 'a result" where
  "query_pipe S operation l run db = query_cmd S operation l run db"


section \<open>Operations in sequence\<close>

text \<open>An operation of the store reads and writes the database and returns a result.\<close>

type_synonym ('db, 'a) io = "'db \<Rightarrow> 'db \<times> 'a result"

definition io_return :: "'a result \<Rightarrow> ('db, 'a) io" where
  "io_return r = (\<lambda>db. (db, r))"

text \<open>\<^verbatim>\<open>.await?\<close>\<close>

definition io_bind :: "('db, 'a) io \<Rightarrow> ('a \<Rightarrow> ('db, 'b) io) \<Rightarrow> ('db, 'b) io" where
  "io_bind m f = (\<lambda>db.
     case m db of
       (db', Ok a) \<Rightarrow> f a db'
     | (db', Err e) \<Rightarrow> (db', Err e)
     | (db', Panic) \<Rightarrow> (db', Panic))"

lemma io_bind_simps [simp]:
  "m db = (db', Ok a) \<Longrightarrow> io_bind m f db = f a db'"
  "m db = (db', Err e) \<Longrightarrow> io_bind m f db = (db', Err e)"
  "m db = (db', Panic) \<Longrightarrow> io_bind m f db = (db', Panic)"
  by (simp_all add: io_bind_def)

lemma io_return_apply [simp]: "io_return r db = (db, r)"
  by (simp add: io_return_def)

section \<open>Running a script\<close>

definition run_script ::
    "'db redis_store \<Rightarrow> (string list \<Rightarrow> string list \<Rightarrow> 'db \<Rightarrow> 'db \<times> reply) \<Rightarrow>
     string list \<Rightarrow> string list \<Rightarrow> 'db \<Rightarrow> 'db \<times> string list redis_result" where
  "run_script S script keys args db =
     (case script keys args db of
        (db', Reply response) \<Rightarrow> (db', Inr response)
      | (db', Script_error) \<Rightarrow> (db', Inl (reply_type_error (redis S))))"

definition eval ::
    "'db redis_store \<Rightarrow> string \<Rightarrow> 'db link \<Rightarrow>
     (string list \<Rightarrow> string list \<Rightarrow> 'db \<Rightarrow> 'db \<times> reply) \<Rightarrow> string list \<Rightarrow> string list \<Rightarrow>
     ('db, string list) io" where
  "eval S operation l script keys args = query_cmd S operation l (run_script S script keys args)"

section \<open>Reading values out of replies\<close>

text \<open>
  A reply is converted to the type the code asks for: a missing value to \<^const>\<open>None\<close>, a bulk
  string to a number by its numeral. One value that does not convert fails the whole reply.
\<close>

fun convert_all :: "(string \<Rightarrow> 'a option) \<Rightarrow> string option list \<Rightarrow> 'a option list option" where
  "convert_all parse [] = Some []"
| "convert_all parse (None # vs) = map_option ((#) None) (convert_all parse vs)"
| "convert_all parse (Some v # vs) =
     (case parse v of
        None \<Rightarrow> None
      | Some a \<Rightarrow> map_option ((#) (Some a)) (convert_all parse vs))"

definition converted :: "'db redis_store \<Rightarrow> 'a option \<Rightarrow> 'a redis_result" where
  "converted S value =
     (case value of None \<Rightarrow> Inl (reply_type_error (redis S)) | Some a \<Rightarrow> Inr a)"

definition hmget ::
    "'db redis_store \<Rightarrow> (string \<Rightarrow> 'a option) \<Rightarrow> string \<Rightarrow> 'db link \<Rightarrow> string \<Rightarrow> string list \<Rightarrow>
     ('db, 'a option list) io" where
  "hmget S parse operation l key names =
     (if names = [] then io_return (Ok [])
      else query_cmd S operation l
             (\<lambda>db. (db, converted S (convert_all parse (map (hget (redis S) db key) names)))))"

text \<open>\<^verbatim>\<open>Vec<(String, i64)>\<close> out of members with scores.\<close>

fun scored_rows :: "'db redis_store \<Rightarrow> zentry list \<Rightarrow> (string \<times> int) list option" where
  "scored_rows S [] = Some []"
| "scored_rows S (e # es) =
     (case parse_signed 64 (score_text (redis S) (zscore_of e)) of
        None \<Rightarrow> None
      | Some v \<Rightarrow> map_option ((#) (zmember e, v)) (scored_rows S es))"


section \<open>Facts\<close>

text \<open>A store whose Redis and chrono keep their promises.\<close>

definition good_store :: "'db redis_store \<Rightarrow> bool" where
  "good_store S \<longleftrightarrow> redis_service (redis S) \<and> chrono_service (chrono S)"

lemma good_storeD: "good_store S \<Longrightarrow> redis_service (redis S)" "good_store S \<Longrightarrow> chrono_service (chrono S)"
  by (simp_all add: good_store_def)

lemma micros_floor: "good_store S \<Longrightarrow> micros (chrono S) t = t div 1000"
  by (simp add: micros_def chrono_service.timestamp_micros_floor good_storeD)

lemma keys_ok_store [simp]: "keys_ok (store_keys S ns)"
  by (simp add: store_keys_def)

lemma query_cmd_answered:
  "delivery l = Answered \<Longrightarrow> run (others l db) = (db', Inr a) \<Longrightarrow>
   query_cmd S operation l run db = (db', Ok a)"
  by (simp add: query_cmd_def Let_def)

lemma eval_answered:
  "delivery l = Answered \<Longrightarrow> script keys args (others l db) = (db', Reply rs) \<Longrightarrow>
   eval S operation l script keys args db = (db', Ok rs)"
  by (simp add: eval_def query_cmd_def run_script_def Let_def)

text \<open>Whatever the network does, the server has run the command once or not at all.\<close>

lemma query_cmd_db:
  "fst (query_cmd S operation l run db) \<in> {others l db, fst (run (others l db))}"
  by (auto simp: query_cmd_def Let_def split_def split: delivery.splits)

lemma query_cmd_Ok:
  "query_cmd S operation l run db = (db', Ok a) \<Longrightarrow>
   delivery l = Answered \<and> run (others l db) = (db', Inr a)"
  by (cases "run (others l db)"; cases "snd (run (others l db))")
     (auto simp: query_cmd_def Let_def split: delivery.splits if_splits)

text \<open>A command that ends in an error is never reported as anything but the two runtime errors.\<close>

lemma query_cmd_errors:
  "snd (query_cmd S operation l run db) = Err e \<Longrightarrow>
   (\<exists>source. e = Redis operation source \<and> \<not> is_timeout source) \<or>
   e = CommandTimedOut operation (min (as_millis (command_timeout (store_config S))) u64_max)"
  by (auto simp: query_cmd_def Let_def split_def split: delivery.splits if_splits sum.splits
      elim!: command_result.elims)

lemma query_cmd_not_Panic [simp]: "snd (query_cmd S operation l run db) \<noteq> Panic"
  by (auto simp: query_cmd_def Let_def split_def split: delivery.splits if_splits sum.splits
      elim!: command_result.elims)

lemma convert_all_None: "convert_all parse (map (\<lambda>_. None) fs) = Some (map (\<lambda>_. None) fs)"
  by (induction fs) simp_all

lemma convert_all_Some:
  assumes "\<forall>f \<in> set fs. case g f of None \<Rightarrow> h f = None | Some v \<Rightarrow> \<exists>a. parse v = Some a \<and> h f = Some a"
  shows "convert_all parse (map g fs) = Some (map h fs)"
  using assms
proof (induction fs)
  case (Cons f fs)
  then show ?case by (cases "g f") auto
qed simp

lemma scored_rows_exact:
  assumes "redis_service (redis S)" "\<forall>e \<in> set es. safe_int (zscore_of e)"
  shows "scored_rows S es = Some (map (\<lambda>e. (zmember e, zscore_of e)) es)"
  using assms(2)
proof (induction es)
  case (Cons e es)
  have "parse_signed 64 (show_int (zscore_of e)) = Some (zscore_of e)"
    using Cons.prems by (intro parse_signed_show_int) (simp_all add: safe_int_def)
  moreover have "score_text (redis S) (zscore_of e) = show_int (zscore_of e)"
    using Cons.prems assms(1) by (simp add: redis_zsets.score_text_exact redis_service.axioms(1))
  ultimately show ?case using Cons by simp
qed simp

end
