(* ===== verification/Script_Enqueue.thy ===== *)
theory Script_Enqueue
  imports Lua
begin

text \<open>
  \<^verbatim>\<open>redis_store/scripts/enqueue_or_reschedule.lua\<close>: placing, moving and reactivating a job.
\<close>

text \<open>The script's state names, with the score the state was read from.\<close>

definition current_state ::
    "'db redis_api \<Rightarrow> redis_key \<Rightarrow> redis_key \<Rightarrow> redis_key \<Rightarrow> redis_key \<Rightarrow> string \<Rightarrow> 'db \<Rightarrow> string \<times> int" where
  "current_state R ready scheduled leased failed job db =
     (case zscore R db ready job of Some s \<Rightarrow> (''ready'', s) | None \<Rightarrow>
      case zscore R db scheduled job of Some s \<Rightarrow> (''scheduled'', s) | None \<Rightarrow>
      case zscore R db leased job of Some s \<Rightarrow> (''leased'', s) | None \<Rightarrow>
      case zscore R db failed job of Some s \<Rightarrow> (''failed'', s) | None \<Rightarrow>
      (''none'', 0))"

text \<open>Target state, target score, and the schedule value of the reply.\<close>

definition normalize_target :: "int \<Rightarrow> int \<Rightarrow> string \<times> int \<times> int" where
  "normalize_target now_us requested_us =
     (if requested_us = 0 \<or> requested_us \<le> now_us then (''ready'', now_us, 0)
      else (''scheduled'', requested_us, requested_us))"

definition remove_waiting ::
    "'db redis_api \<Rightarrow> string \<Rightarrow> string \<Rightarrow> string \<Rightarrow> string \<Rightarrow> 'db \<Rightarrow> 'db" where
  "remove_waiting R ready scheduled job state db =
     (if state = ''ready'' then zrem R db ready job
      else if state = ''scheduled'' then zrem R db scheduled job
      else db)"

definition add_target ::
    "'db redis_api \<Rightarrow> string \<Rightarrow> string \<Rightarrow> string \<Rightarrow> string \<Rightarrow> int \<Rightarrow> 'db \<Rightarrow> 'db" where
  "add_target R ready scheduled job state score db =
     (if state = ''ready'' then zadd R db ready score job else zadd R db scheduled score job)"

definition should_replace :: "string \<Rightarrow> int \<Rightarrow> int \<Rightarrow> bool" where
  "should_replace replace_mode target_score existing_score =
     (if replace_mode = ''earlier'' then target_score < existing_score
      else if replace_mode = ''later'' then target_score > existing_score
      else True)"

definition existing_schedule :: "string \<Rightarrow> int \<Rightarrow> int" where
  "existing_schedule state score = (if state = ''scheduled'' then score else 0)"

text \<open>Lines 79 to 104: the reschedule operation.\<close>

definition reschedule_part ::
    "'db redis_api \<Rightarrow> string \<Rightarrow> string \<Rightarrow> string \<Rightarrow> string \<Rightarrow> int \<Rightarrow> int \<Rightarrow> string \<Rightarrow>
     string \<Rightarrow> int \<Rightarrow> 'db \<Rightarrow> 'db \<times> reply" where
  "reschedule_part R ready scheduled rerun job now_us requested_us replace_mode state score db =
     (if state = ''none'' then (db, Reply [''err'', ''not_found''])
      else if state = ''leased'' \<or> state = ''failed''
      then (db, Reply [''err'', ''invalid_state'', state])
      else
        (let (target_state, target_score, schedule_value) = normalize_target now_us requested_us
         in if \<not> should_replace replace_mode target_score score
            then (db, Reply [''ok'', ''unchanged'', state,
                             int_string (existing_schedule state score)])
            else if state = target_state \<and> score = target_score
            then (db, Reply [''ok'', ''unchanged'', state, int_string schedule_value])
            else
              (let db1 = remove_waiting R ready scheduled job state db;
                   db2 = fst (srem R db1 rerun job);
                   db3 = add_target R ready scheduled job target_state target_score db2
               in (db3, Reply [''ok'', ''updated'', target_state, int_string schedule_value]))))"

text \<open>Lines 114 to 139: immediate enqueue, after a failed job has been cleared.\<close>

definition immediate_part ::
    "'db redis_api \<Rightarrow> string \<Rightarrow> string \<Rightarrow> string \<Rightarrow> string \<Rightarrow> int \<Rightarrow> bool \<Rightarrow> string \<Rightarrow>
     'db \<Rightarrow> 'db \<times> reply" where
  "immediate_part R ready scheduled rerun job now_us was_failed state db =
     (if state = ''ready'' then (db, Reply [''ok'', ''unchanged'', state, ''0''])
      else if state = ''leased''
      then (let (db1, added) = sadd R db rerun job
            in if added = 1 then (db1, Reply [''ok'', ''updated'', state, ''0''])
               else (db1, Reply [''ok'', ''unchanged'', state, ''0'']))
      else if state = ''scheduled''
      then (let db1 = zrem R db scheduled job;
                db2 = fst (srem R db1 rerun job);
                db3 = zadd R db2 ready now_us job
            in (db3, Reply [''ok'', ''updated'', ''ready'', ''0'']))
      else
        (let db1 = zadd R db ready now_us job
         in if was_failed then (db1, Reply [''ok'', ''updated'', ''ready'', ''0''])
            else (db1, Reply [''ok'', ''created'', ''ready'', ''0''])))"

text \<open>Lines 141 to 170: scheduled enqueue, after a failed job has been cleared.\<close>

definition scheduled_part ::
    "'db redis_api \<Rightarrow> string \<Rightarrow> string \<Rightarrow> string \<Rightarrow> string \<Rightarrow> int \<Rightarrow> int \<Rightarrow> string \<Rightarrow> bool \<Rightarrow>
     string \<Rightarrow> int \<Rightarrow> 'db \<Rightarrow> 'db \<times> reply" where
  "scheduled_part R ready scheduled rerun job now_us requested_us replace_mode was_failed state
     score db =
     (if state = ''leased'' then (db, Reply [''err'', ''invalid_state'', ''leased''])
      else
        (let (target_state, target_score, schedule_value) = normalize_target now_us requested_us
         in if state = ''none''
            then (let db1 = fst (srem R db rerun job);
                      db2 = add_target R ready scheduled job target_state target_score db1
                  in if was_failed
                     then (db2, Reply [''ok'', ''updated'', target_state,
                                       lua_tostring schedule_value])
                     else (db2, Reply [''ok'', ''created'', target_state,
                                       int_string schedule_value]))
            else if state = target_state \<and> score = target_score
            then (db, Reply [''ok'', ''unchanged'', state, int_string schedule_value])
            else if \<not> should_replace replace_mode target_score score
            then (db, Reply [''ok'', ''unchanged'', state,
                             int_string (existing_schedule state score)])
            else
              (let db1 = remove_waiting R ready scheduled job state db;
                   db2 = fst (srem R db1 rerun job);
                   db3 = add_target R ready scheduled job target_state target_score db2
               in (db3, Reply [''ok'', ''updated'', target_state, int_string schedule_value]))))"

text \<open>Lines 106 to 112: a failed job loses its failed state and starts afresh.\<close>

definition clear_failed ::
    "'db redis_api \<Rightarrow> string \<Rightarrow> string \<Rightarrow> string \<Rightarrow> string \<Rightarrow> 'db \<Rightarrow> 'db" where
  "clear_failed R failed failures rerun job db =
     (let db1 = zrem R db failed job;
          db2 = hdel R db1 failures job
      in fst (srem R db2 rerun job))"

fun enqueue_or_reschedule_lua ::
    "'db redis_api \<Rightarrow> string list \<Rightarrow> string list \<Rightarrow> 'db \<Rightarrow> 'db \<times> reply" where
  "enqueue_or_reschedule_lua R [failures, ready, scheduled, leased, failed, rerun]
     [operation, job, now, requested, replace_mode] db =
     (let now_us = lua_number now;
          requested_us = lua_number requested;
          (state, score) = current_state R ready scheduled leased failed job db;
          was_failed = (state = ''failed'')
      in if operation = ''reschedule''
         then reschedule_part R ready scheduled rerun job now_us requested_us replace_mode state
                score db
         else
           (let db' = (if was_failed then clear_failed R failed failures rerun job db else db);
                state' = (if was_failed then ''none'' else state);
                score' = (if was_failed then 0 else score)
            in if operation = ''enqueue_immediate''
               then immediate_part R ready scheduled rerun job now_us was_failed state' db'
               else scheduled_part R ready scheduled rerun job now_us requested_us replace_mode
                      was_failed state' score' db'))"
| "enqueue_or_reschedule_lua R _ _ db = (db, Script_error)"

end
