(* ===== verification/Script_Lease.thy ===== *)
theory Script_Lease
  imports Lua
begin

text \<open>
  The scripts a worker runs on a lease it holds, \<^verbatim>\<open>redis_store/scripts/\<close>: \<^verbatim>\<open>heartbeat.lua\<close>,
  \<^verbatim>\<open>ack.lua\<close>, \<^verbatim>\<open>complete_and_reschedule.lua\<close> and \<^verbatim>\<open>fail_or_retry.lua\<close>.
  The lists are KEYS and ARGV. A script called with another number of them would index a nil key;
  the callers in theory Store never do.
\<close>

text \<open>The check every script here starts with: the caller holds the lease it names.\<close>

definition holds_lease ::
    "'db redis_api \<Rightarrow> string \<Rightarrow> string \<Rightarrow> 'db \<Rightarrow> string \<Rightarrow> string \<Rightarrow> string \<Rightarrow> bool" where
  "holds_lease R leased lease_meta db job worker token \<longleftrightarrow>
     hget R db lease_meta job = Some (pack_meta worker token) \<and> zscore R db leased job \<noteq> None"

definition decrement_worker :: "'db redis_api \<Rightarrow> string \<Rightarrow> string \<Rightarrow> 'db \<Rightarrow> 'db" where
  "decrement_worker R workers_leases worker db =
     (let (db1, count) = hincrby R db workers_leases worker (- 1)
      in if count \<le> 0 then hdel R db1 workers_leases worker else db1)"

fun heartbeat_lua ::
    "'db redis_api \<Rightarrow> string list \<Rightarrow> string list \<Rightarrow> 'db \<Rightarrow> 'db \<times> reply" where
  "heartbeat_lua R [leased, lease_meta, workers_last_seen] [job, worker, token, now, deadline] db =
     (let now_us = lua_number now; deadline_us = lua_number deadline
      in if \<not> holds_lease R leased lease_meta db job worker token
         then (db, Reply [''err'', ''lease_mismatch''])
         else (zadd R (zadd R db leased deadline_us job) workers_last_seen now_us worker,
               Reply [''ok'']))"
| "heartbeat_lua R _ _ db = (db, Script_error)"

fun ack_lua :: "'db redis_api \<Rightarrow> string list \<Rightarrow> string list \<Rightarrow> 'db \<Rightarrow> 'db \<times> reply" where
  "ack_lua R [leased, lease_meta, failures, workers_leases, ready, rerun]
     [job, worker, token, now] db =
     (let now_us = lua_number now
      in if \<not> holds_lease R leased lease_meta db job worker token
         then (db, Reply [''err'', ''lease_mismatch''])
         else
           (let db1 = zrem R db leased job;
                db2 = hdel R db1 lease_meta job;
                db3 = hdel R db2 failures job;
                db4 = decrement_worker R workers_leases worker db3;
                (db5, removed) = srem R db4 rerun job
            in (if removed = 1 then zadd R db5 ready now_us job else db5, Reply [''ok''])))"
| "ack_lua R _ _ db = (db, Script_error)"

fun complete_and_reschedule_lua ::
    "'db redis_api \<Rightarrow> string list \<Rightarrow> string list \<Rightarrow> 'db \<Rightarrow> 'db \<times> reply" where
  "complete_and_reschedule_lua R
     [leased, lease_meta, failures, workers_leases, ready, scheduled, rerun]
     [job, worker, token, now, schedule] db =
     (let now_us = lua_number now; schedule_us = lua_number schedule
      in if \<not> holds_lease R leased lease_meta db job worker token
         then (db, Reply [''err'', ''lease_mismatch''])
         else
           (let db1 = zrem R db leased job;
                db2 = hdel R db1 lease_meta job;
                db3 = hdel R db2 failures job;
                db4 = decrement_worker R workers_leases worker db3;
                (db5, removed) = srem R db4 rerun job
            in if removed = 1
               then (zadd R db5 ready now_us job, Reply [''ok'', ''ready'', ''0''])
               else if schedule_us = 0 \<or> schedule_us \<le> now_us
               then (zadd R db5 ready now_us job, Reply [''ok'', ''ready'', ''0''])
               else (zadd R db5 scheduled schedule_us job,
                     Reply [''ok'', ''scheduled'', int_string schedule_us])))"
| "complete_and_reschedule_lua R _ _ db = (db, Script_error)"

text \<open>
  The exponential backoff loop, \<^verbatim>\<open>for _ = 1, failure_count - 1\<close>: \<open>n\<close> rounds of multiplying
  and capping.
\<close>

primrec backoff_loop :: "nat \<Rightarrow> int \<Rightarrow> int \<Rightarrow> int \<Rightarrow> int" where
  "backoff_loop 0 delay_ms b c = delay_ms"
| "backoff_loop (Suc n) delay_ms b c = backoff_loop n (min (dbl (delay_ms * b)) c) b c"

definition should_retry :: "string \<Rightarrow> int \<Rightarrow> int \<Rightarrow> bool" where
  "should_retry policy_kind failure_count max_retries \<longleftrightarrow>
     \<not> (policy_kind = ''never'') \<and> \<not> (policy_kind = ''count'' \<and> failure_count > max_retries)"

text \<open>Where the failed run goes: the placement part of the script, after the bookkeeping.\<close>

definition place_failed ::
    "'db redis_api \<Rightarrow> redis_key \<Rightarrow> redis_key \<Rightarrow> redis_key \<Rightarrow> string \<Rightarrow> int \<Rightarrow> int \<Rightarrow> string \<Rightarrow>
     string \<Rightarrow> int \<Rightarrow> string \<Rightarrow> int \<Rightarrow> int \<Rightarrow> int \<Rightarrow> 'db \<Rightarrow> 'db \<times> reply" where
  "place_failed R ready scheduled failed job now_us failure_count action_kind policy_kind
     max_retries backoff_kind backoff_a backoff_b backoff_c db =
     (let to_ready = (zadd R db ready now_us job,
                      Reply [''ok'', lua_tostring failure_count, ''ready'', ''0'']);
          to_failed = (zadd R db failed now_us job,
                       Reply [''ok'', lua_tostring failure_count, ''failed'', ''0'']);
          to_scheduled = (\<lambda>retry_at. (zadd R db scheduled retry_at job,
                       Reply [''ok'', lua_tostring failure_count, ''scheduled'',
                              int_string retry_at]))
      in if action_kind = ''terminal'' then to_failed
         else if \<not> should_retry policy_kind failure_count max_retries then to_failed
         else if backoff_kind = ''none'' then to_ready
         else if backoff_kind = ''fixed''
         then (let retry_at = dbl (now_us + dbl (backoff_a * 1000))
               in if backoff_a = 0 then to_ready else to_scheduled retry_at)
         else
           (let delay_ms = backoff_loop (nat (failure_count - 1)) backoff_a backoff_b backoff_c
            in if delay_ms = 0 then to_ready
               else to_scheduled (dbl (now_us + dbl (delay_ms * 1000)))))"

fun fail_or_retry_lua ::
    "'db redis_api \<Rightarrow> string list \<Rightarrow> string list \<Rightarrow> 'db \<Rightarrow> 'db \<times> reply" where
  "fail_or_retry_lua R
     [leased, lease_meta, failures, ready, scheduled, failed, workers_leases, rerun]
     [job, worker, token, now, action_kind, policy_kind, max_retries, backoff_kind,
      backoff_a, backoff_b, backoff_c] db =
     (let now_us = lua_number now
      in if \<not> holds_lease R leased lease_meta db job worker token
         then (db, Reply [''err'', ''lease_mismatch''])
         else
           (let db1 = zrem R db leased job;
                db2 = hdel R db1 lease_meta job;
                db3 = fst (srem R db2 rerun job);
                db4 = decrement_worker R workers_leases worker db3;
                (db5, failure_count) = hincrby R db4 failures job 1
            in place_failed R ready scheduled failed job now_us failure_count action_kind
                 policy_kind (lua_number max_retries) backoff_kind (lua_number backoff_a)
                 (lua_number backoff_b) (lua_number backoff_c) db5))"
| "fail_or_retry_lua R _ _ db = (db, Script_error)"

end
