(* ===== verification/Script_Operator.thy ===== *)
theory Script_Operator
  imports Script_Lease
begin

text \<open>
  \<^verbatim>\<open>redis_store/scripts/operator_transition.lua\<close>: cancel, requeue, retry and the forced
  completion of a leased job.
\<close>

definition operator_state ::
    "'db redis_api \<Rightarrow> redis_key \<Rightarrow> redis_key \<Rightarrow> redis_key \<Rightarrow> redis_key \<Rightarrow> string \<Rightarrow> 'db \<Rightarrow> string" where
  "operator_state R ready scheduled leased failed job db =
     (if zscore R db ready job \<noteq> None then ''ready''
      else if zscore R db scheduled job \<noteq> None then ''scheduled''
      else if zscore R db leased job \<noteq> None then ''leased''
      else if zscore R db failed job \<noteq> None then ''failed''
      else ''none'')"

text \<open>Take the job out of a waiting or failed set, with its counter and its rerun request.\<close>

definition drop_job ::
    "'db redis_api \<Rightarrow> string \<Rightarrow> string \<Rightarrow> string \<Rightarrow> string \<Rightarrow> 'db \<Rightarrow> 'db" where
  "drop_job R source failures rerun job db =
     (let db1 = zrem R db source job;
          db2 = hdel R db1 failures job
      in fst (srem R db2 rerun job))"

text \<open>Lines 101 to 134: the operations on a leased job.\<close>

definition force_part ::
    "'db redis_api \<Rightarrow> redis_key \<Rightarrow> redis_key \<Rightarrow> redis_key \<Rightarrow> redis_key \<Rightarrow> redis_key \<Rightarrow> redis_key \<Rightarrow> redis_key \<Rightarrow>
     string \<Rightarrow> string \<Rightarrow> int \<Rightarrow> string \<Rightarrow> 'db \<Rightarrow> 'db \<times> reply" where
  "force_part R failures ready leased lease_meta failed workers_leases rerun operation job now_us
     state db =
     (if state \<noteq> ''leased'' then (db, Reply [''err'', ''invalid_state'', state])
      else
        (case hget R db lease_meta job of
           None \<Rightarrow> (db, Reply [''err'', ''not_found''])
         | Some meta \<Rightarrow>
             (case worker_from_meta meta of
                None \<Rightarrow> (db, Reply [''err'', ''not_found''])
              | Some worker \<Rightarrow>
                  (let db1 = zrem R db leased job;
                       db2 = hdel R db1 lease_meta job;
                       db3 = decrement_worker R workers_leases worker db2
                   in if operation = ''force_ack''
                      then (let db4 = hdel R db3 failures job;
                                (db5, removed) = srem R db4 rerun job
                            in (if removed = 1 then zadd R db5 ready now_us job else db5,
                                Reply [''ok'']))
                      else if operation = ''force_fail''
                      then (let db4 = fst (srem R db3 rerun job);
                                db5 = fst (hincrby R db4 failures job 1)
                            in (zadd R db5 failed now_us job, Reply [''ok'']))
                      else (db3, Reply [''err'', ''invalid_state'', state])))))"

fun operator_transition_lua ::
    "'db redis_api \<Rightarrow> string list \<Rightarrow> string list \<Rightarrow> 'db \<Rightarrow> 'db \<times> reply" where
  "operator_transition_lua R
     [failures, ready, scheduled, leased, lease_meta, failed, workers_leases, rerun]
     [operation, job, now] db =
     (let now_us = lua_number now;
          state = operator_state R ready scheduled leased failed job db
      in if state = ''none'' then (db, Reply [''err'', ''not_found''])
         else if operation = ''cancel''
         then (if state = ''scheduled''
               then (drop_job R scheduled failures rerun job db, Reply [''ok''])
               else if state = ''failed''
               then (drop_job R failed failures rerun job db, Reply [''ok''])
               else (db, Reply [''err'', ''invalid_state'', state]))
         else if operation = ''requeue'' \<or> operation = ''retry_now''
         then (if state = ''leased'' then (db, Reply [''err'', ''invalid_state'', state])
               else if state = ''ready'' then (db, Reply [''ok''])
               else if state = ''scheduled''
               then (let db1 = zrem R db scheduled job;
                         db2 = fst (srem R db1 rerun job)
                     in (zadd R db2 ready now_us job, Reply [''ok'']))
               else (zadd R (drop_job R failed failures rerun job db) ready now_us job,
                     Reply [''ok'']))
         else if operation = ''force_retry''
         then (if state \<noteq> ''failed'' then (db, Reply [''err'', ''invalid_state'', state])
               else (zadd R (drop_job R failed failures rerun job db) ready now_us job,
                     Reply [''ok'']))
         else force_part R failures ready leased lease_meta failed workers_leases rerun operation
                job now_us state db)"
| "operator_transition_lua R _ _ db = (db, Script_error)"

end
