(* ===== verification/Script_Reserve.thy ===== *)
theory Script_Reserve
  imports Script_Lease
begin

text \<open>
  \<^verbatim>\<open>redis_store/scripts/reserve.lua\<close> and \<^verbatim>\<open>reap_expired.lua\<close>: leasing the oldest runnable jobs
  and taking expired leases back.
\<close>

section \<open>Reserve\<close>

text \<open>The oldest due entry of the schedule, if any.\<close>

definition due_candidate :: "'db redis_api \<Rightarrow> string \<Rightarrow> int \<Rightarrow> 'db \<Rightarrow> zentry list" where
  "due_candidate R scheduled now_us db =
     zrangebyscore R db scheduled NegInf (Incl now_us) (Some 1)"

text \<open>
  Lines 42 to 52: drop due entries whose job is also ready or leased. Every round removes an
  entry, so the size of the schedule bounds the number of rounds and is the fuel.
\<close>

fun drop_duplicates ::
    "nat \<Rightarrow> 'db redis_api \<Rightarrow> string \<Rightarrow> string \<Rightarrow> string \<Rightarrow> int \<Rightarrow> 'db \<Rightarrow> zentry list \<Rightarrow>
     'db \<times> zentry list" where
  "drop_duplicates (Suc fuel) R ready scheduled leased now_us db (e # es) =
     (if zscore R db ready (zmember e) \<noteq> None \<or> zscore R db leased (zmember e) \<noteq> None
      then (let db1 = zrem R db scheduled (zmember e)
            in drop_duplicates fuel R ready scheduled leased now_us db1
                 (due_candidate R scheduled now_us db1))
      else (db, e # es))"
| "drop_duplicates fuel R ready scheduled leased now_us db candidate = (db, candidate)"

text \<open>Lines 58 to 70: the older of the two candidates wins, the ready one at equal scores.\<close>

definition choose_source ::
    "string \<Rightarrow> string \<Rightarrow> zentry list \<Rightarrow> zentry list \<Rightarrow> (string \<times> zentry) option" where
  "choose_source ready scheduled ready_candidate scheduled_candidate =
     (case (ready_candidate, scheduled_candidate) of
        ([], []) \<Rightarrow> None
      | (r # _, []) \<Rightarrow> Some (ready, r)
      | ([], s # _) \<Rightarrow> Some (scheduled, s)
      | (r # _, s # _) \<Rightarrow>
          (if zscore_of r \<le> zscore_of s then Some (ready, r) else Some (scheduled, s)))"

definition grant_lease ::
    "'db redis_api \<Rightarrow> redis_key \<Rightarrow> redis_key \<Rightarrow> redis_key \<Rightarrow> string \<Rightarrow> string \<Rightarrow> string \<Rightarrow> int \<Rightarrow> 'db \<Rightarrow> 'db" where
  "grant_lease R leased lease_meta workers_leases worker job token deadline db =
     (let db1 = zadd R db leased deadline job;
          db2 = hset R db1 lease_meta job (pack_meta worker token)
      in fst (hincrby R db2 workers_leases worker 1))"

text \<open>
  Lines 38 to 91, \<^verbatim>\<open>for index = 1, capacity\<close>. The first argument is the number of rounds left,
  \<open>tokens\<close> are the tokens not handed out yet. The candidate has left its set before the script
  looks for a token.
\<close>

fun reserve_loop ::
    "nat \<Rightarrow> 'db redis_api \<Rightarrow> redis_key \<Rightarrow> redis_key \<Rightarrow> redis_key \<Rightarrow> redis_key \<Rightarrow> redis_key \<Rightarrow> string \<Rightarrow>
     int \<Rightarrow> int \<Rightarrow> string list \<Rightarrow> 'db \<Rightarrow> 'db \<times> string list" where
  "reserve_loop 0 R ready scheduled leased lease_meta workers_leases worker now_us
     lease_duration_us tokens db = (db, [])"
| "reserve_loop (Suc n) R ready scheduled leased lease_meta workers_leases worker now_us
     lease_duration_us tokens db =
     (let ready_candidate = zrange R db ready 0 0;
          (db1, scheduled_candidate) =
            drop_duplicates (zcard R db scheduled) R ready scheduled leased now_us db
              (due_candidate R scheduled now_us db)
      in case choose_source ready scheduled ready_candidate scheduled_candidate of
           None \<Rightarrow> (db1, [])
         | Some (source, e) \<Rightarrow>
             (let job = zmember e;
                  db2 = zrem R db1 source job
              in case tokens of
                   [] \<Rightarrow> (db2, [])
                 | token # rest \<Rightarrow>
                     (let deadline = dbl (now_us + lease_duration_us);
                          db3 = grant_lease R leased lease_meta workers_leases worker job token
                                  deadline db2;
                          (db4, result) = reserve_loop n R ready scheduled leased lease_meta
                            workers_leases worker now_us lease_duration_us rest db3
                      in (db4, job # token # int_string deadline # result))))"

fun reserve_lua :: "'db redis_api \<Rightarrow> string list \<Rightarrow> string list \<Rightarrow> 'db \<Rightarrow> 'db \<times> reply" where
  "reserve_lua R
     [cfg, ready, scheduled, leased, lease_meta, workers_last_seen, workers_config, workers_leases]
     (worker # now # capacity # duration_us # policy_key # config_record # tokens) db =
     (let now_us = lua_number now;
          existing_policy = hget R db cfg ''retry_policy''
      in if existing_policy \<noteq> None \<and> existing_policy \<noteq> Some policy_key
         then (db, Reply [''err'', ''invalid_config'', ''retry_policy_mismatch''])
         else
           (let db1 = (if existing_policy = None
                       then hset R (hset R db cfg ''version'' ''1'') cfg ''retry_policy'' policy_key
                       else db);
                db2 = zadd R db1 workers_last_seen now_us worker;
                db3 = hset R db2 workers_config worker config_record;
                (db4, result) = reserve_loop (nat (lua_number capacity)) R ready scheduled leased
                  lease_meta workers_leases worker now_us (lua_number duration_us) tokens db3;
                next_future = zrangebyscore R db4 scheduled (Excl (g14 now_us)) PosInf (Some 1)
            in (db4, Reply (''ok'' #
                  (case next_future of [] \<Rightarrow> ''0'' | e # _ \<Rightarrow> score_text R (zscore_of e)) #
                  result))))"
| "reserve_lua R _ _ db = (db, Script_error)"


section \<open>Reap\<close>

text \<open>One round of the loop: the expired lease with the oldest deadline goes back to ready.\<close>

definition reap_one ::
    "'db redis_api \<Rightarrow> redis_key \<Rightarrow> redis_key \<Rightarrow> redis_key \<Rightarrow> redis_key \<Rightarrow> redis_key \<Rightarrow> int \<Rightarrow> string \<Rightarrow> 'db \<Rightarrow> 'db" where
  "reap_one R leased lease_meta ready workers_leases rerun now_us job db =
     (let meta = hget R db lease_meta job;
          db1 = zrem R db leased job;
          db2 = hdel R db1 lease_meta job;
          db3 = fst (srem R db2 rerun job);
          db4 = zadd R db3 ready now_us job
      in case meta of
           None \<Rightarrow> db4
         | Some m \<Rightarrow>
             (case worker_from_meta m of
                None \<Rightarrow> db4
              | Some worker \<Rightarrow> decrement_worker R workers_leases worker db4))"

fun reap_loop ::
    "nat \<Rightarrow> 'db redis_api \<Rightarrow> redis_key \<Rightarrow> redis_key \<Rightarrow> redis_key \<Rightarrow> redis_key \<Rightarrow> redis_key \<Rightarrow> int \<Rightarrow> 'db \<Rightarrow>
     'db \<times> nat" where
  "reap_loop 0 R leased lease_meta ready workers_leases rerun now_us db = (db, 0)"
| "reap_loop (Suc n) R leased lease_meta ready workers_leases rerun now_us db =
     (case zrangebyscore R db leased NegInf (Incl now_us) (Some 1) of
        [] \<Rightarrow> (db, 0)
      | e # _ \<Rightarrow>
          (let (db', reaped) = reap_loop n R leased lease_meta ready workers_leases rerun now_us
                 (reap_one R leased lease_meta ready workers_leases rerun now_us (zmember e) db)
           in (db', Suc reaped)))"

fun reap_expired_lua :: "'db redis_api \<Rightarrow> string list \<Rightarrow> string list \<Rightarrow> 'db \<Rightarrow> 'db \<times> reply" where
  "reap_expired_lua R [leased, lease_meta, ready, workers_leases, rerun] [now, limit] db =
     (let (db', reaped) = reap_loop (nat (lua_number limit)) R leased lease_meta ready
            workers_leases rerun (lua_number now) db
      in (db', Reply [''ok'', lua_tostring (int reaped)]))"
| "reap_expired_lua R _ _ db = (db, Script_error)"

end
