(* ===== verification/Store.thy ===== *)
theory Store
  imports Connection Script_Enqueue Script_Operator Script_Reserve
begin

text \<open>
  The Redis store: \<^verbatim>\<open>redis_store/enqueue.rs\<close>, \<^verbatim>\<open>leases.rs\<close>, \<^verbatim>\<open>failures.rs\<close>,
  \<^verbatim>\<open>counts.rs\<close>, \<^verbatim>\<open>workers.rs\<close> and \<^verbatim>\<open>namespaces.rs\<close>. Every function of the store is an
  operation on the database; the instant the function reads from the system clock is its argument
  \<open>now\<close>, and \<open>L i\<close> is the link of its \<open>i\<close>-th command.
\<close>

section \<open>Namespaces\<close>

definition remember_namespace ::
    "'db redis_store \<Rightarrow> 'db link \<Rightarrow> string \<Rightarrow> ('db, unit) io" where
  "remember_namespace S l namespace =
     io_bind (query_cmd S ''remember_namespace'' l
       (\<lambda>db. let (db', added) = sadd (redis S) db (namespaces_key (key_prefix (store_config S))) namespace
             in (db', Inr added)))
     (\<lambda>_. io_return (Ok ()))"

definition list_namespaces :: "'db redis_store \<Rightarrow> 'db link \<Rightarrow> ('db, string list) io" where
  "list_namespaces S l =
     io_bind (query_cmd S ''list_namespaces'' l
       (\<lambda>db. (db, Inr (smembers (redis S) db (namespaces_key (key_prefix (store_config S)))))))
     (\<lambda>namespaces. io_return (Ok (sort namespaces)))"


section \<open>Enqueue, reschedule, lookup\<close>

definition enqueue ::
    "'db redis_store \<Rightarrow> 'db links \<Rightarrow> timestamp \<Rightarrow> string \<Rightarrow> enqueue_request \<Rightarrow>
     ('db, enqueue_result) io" where
  "enqueue S L now namespace request =
     (let ks = store_keys S namespace
      in io_bind (eval S ''enqueue_or_schedule'' (L 0) (enqueue_or_reschedule_lua (redis S))
           [failures ks, ready ks, scheduled ks, leased ks, failed ks, rerun ks]
           [(if eq_allow_existing_current_run request then ''enqueue_immediate''
             else ''enqueue_scheduled''),
            eq_job_id request,
            show_int (micros (chrono S) now),
            show_int (schedule_micros (chrono S) (eq_schedule_at request)),
            replace_mode_arg (eq_replace_mode request)])
         (\<lambda>response. io_return (parse_enqueue_response (eq_job_id request) response)))"

definition reschedule ::
    "'db redis_store \<Rightarrow> 'db links \<Rightarrow> timestamp \<Rightarrow> string \<Rightarrow> string \<Rightarrow> timestamp option \<Rightarrow>
     ('db, reschedule_result) io" where
  "reschedule S L now namespace job schedule_at =
     (let ks = store_keys S namespace
      in io_bind (eval S ''reschedule'' (L 0) (enqueue_or_reschedule_lua (redis S))
           [failures ks, ready ks, scheduled ks, leased ks, failed ks, rerun ks]
           [''reschedule'', job, show_int (micros (chrono S) now),
            show_int (schedule_micros (chrono S) schedule_at), ''replace''])
         (\<lambda>response. io_return (parse_reschedule_response (chrono S) job response)))"

record job_lookup_fields =
  jl_ready_at :: "string option"
  jl_leased_until :: "string option"
  jl_failed_at :: "string option"
  jl_schedule_at :: "string option"
  jl_failure_count :: "nat option"
  jl_lease_meta :: "string option"

text \<open>
  The pipeline of six reads is not a transaction: other clients may get between two of them.
\<close>

definition lookup_fields ::
    "'db redis_store \<Rightarrow> 'db links \<Rightarrow> namespace_keys \<Rightarrow> string \<Rightarrow> 'db \<Rightarrow>
     'db \<times> job_lookup_fields redis_result" where
  "lookup_fields S L ks job db =
     (let R = redis S;
          text = map_option (score_text R);
          ready_at = text (zscore R db (ready ks) job);
          db1 = others (L 1) db;
          leased_until = text (zscore R db1 (leased ks) job);
          db2 = others (L 2) db1;
          failed_at = text (zscore R db2 (failed ks) job);
          db3 = others (L 3) db2;
          schedule_at = text (zscore R db3 (scheduled ks) job);
          db4 = others (L 4) db3;
          failure_count = hget R db4 (failures ks) job;
          db5 = others (L 5) db4;
          lease_meta = hget R db5 (lease_meta ks) job
      in (db5, converted S
            (map_option
               (\<lambda>counts. \<lparr>jl_ready_at = ready_at, jl_leased_until = leased_until,
                  jl_failed_at = failed_at, jl_schedule_at = schedule_at,
                  jl_failure_count = hd counts, jl_lease_meta = lease_meta\<rparr>)
               (convert_all parse_u32 [failure_count]))))"

text \<open>What the code builds out of the six answers.\<close>

definition job_of_fields :: "chrono_api \<Rightarrow> string \<Rightarrow> job_lookup_fields \<Rightarrow> job_record option result" where
  "job_of_fields C job answers =
     (let failure_count = (case jl_failure_count answers of None \<Rightarrow> 0 | Some n \<Rightarrow> n);
          record = \<lparr>jr_job_id = job, jr_state = Ready, jr_ready_at = None, jr_schedule_at = None,
                    jr_failure_count = failure_count, jr_leased_by = None, jr_failed_at = None\<rparr>
      in case jl_ready_at answers of
           Some ready_at \<Rightarrow>
             map_ok (\<lambda>t. Some (record\<lparr>jr_ready_at := Some t\<rparr>)) (parse_micros C ''ready_at'' ready_at)
         | None \<Rightarrow>
         case jl_leased_until answers of
           Some leased_until \<Rightarrow>
             and_then (ok_or (jl_lease_meta answers) (InvalidData ''lease_meta'')) (\<lambda>meta.
             and_then (parse_lease_meta meta) (\<lambda>(worker, token).
             map_ok (\<lambda>t. Some (record\<lparr>jr_state := Leased,
                 jr_leased_by := Some \<lparr>lh_worker_id = worker, lh_lease_token = token,
                                       lh_leased_until = t\<rparr>\<rparr>))
               (parse_micros C ''leased_until'' leased_until)))
         | None \<Rightarrow>
         case jl_failed_at answers of
           Some failed_at \<Rightarrow>
             map_ok (\<lambda>t. Some (record\<lparr>jr_state := Failed, jr_failed_at := Some t\<rparr>))
               (parse_micros C ''failed_at'' failed_at)
         | None \<Rightarrow>
         case jl_schedule_at answers of
           Some schedule_at \<Rightarrow>
             map_ok (\<lambda>t. Some (record\<lparr>jr_state := Scheduled, jr_schedule_at := Some t\<rparr>))
               (parse_micros C ''schedule_at'' schedule_at)
         | None \<Rightarrow> Ok None)"

definition get_job ::
    "'db redis_store \<Rightarrow> 'db links \<Rightarrow> string \<Rightarrow> string \<Rightarrow> ('db, job_record option) io" where
  "get_job S L namespace job =
     io_bind (query_pipe S ''get_job'' (L 0) (lookup_fields S L (store_keys S namespace) job))
       (\<lambda>answers. io_return (job_of_fields (chrono S) job answers))"


section \<open>Leases\<close>

definition heartbeat ::
    "'db redis_store \<Rightarrow> 'db links \<Rightarrow> string \<Rightarrow> string \<Rightarrow> string \<Rightarrow> string \<Rightarrow> timestamp \<Rightarrow> duration \<Rightarrow>
     ('db, unit) io" where
  "heartbeat S L namespace worker job token now duration =
     (let ks = store_keys S namespace
      in io_bind (eval S ''heartbeat'' (L 0) (heartbeat_lua (redis S))
           [leased ks, lease_meta ks, workers_last_seen ks]
           [job, worker, token, show_int (micros (chrono S) now),
            show_int (clamp_i64 (micros (chrono S) now + duration_micros duration))])
         (\<lambda>response. io_return (parse_lease_response job response)))"

definition ack ::
    "'db redis_store \<Rightarrow> 'db links \<Rightarrow> timestamp \<Rightarrow> string \<Rightarrow> string \<Rightarrow> string \<Rightarrow> string \<Rightarrow> ('db, unit) io" where
  "ack S L now namespace worker job token =
     (let ks = store_keys S namespace
      in io_bind (eval S ''ack'' (L 0) (ack_lua (redis S))
           [leased ks, lease_meta ks, failures ks, workers_leases ks, ready ks, rerun ks]
           [job, worker, token, show_int (micros (chrono S) now)])
         (\<lambda>response. io_return (parse_lease_response job response)))"

definition complete_and_reschedule ::
    "'db redis_store \<Rightarrow> 'db links \<Rightarrow> string \<Rightarrow> string \<Rightarrow> string \<Rightarrow> string \<Rightarrow> timestamp option \<Rightarrow>
     timestamp \<Rightarrow> ('db, unit) io" where
  "complete_and_reschedule S L namespace worker job token schedule_at now =
     (let ks = store_keys S namespace
      in io_bind (eval S ''complete_and_reschedule'' (L 0) (complete_and_reschedule_lua (redis S))
           [leased ks, lease_meta ks, failures ks, workers_leases ks, ready ks, scheduled ks, rerun ks]
           [job, worker, token, show_int (micros (chrono S) now),
            show_int (schedule_micros (chrono S) schedule_at)])
         (\<lambda>response. io_return (parse_lease_response job response)))"

definition fail_or_retry ::
    "'db redis_store \<Rightarrow> 'db links \<Rightarrow> string \<Rightarrow> failure_request \<Rightarrow> ('db, nat) io" where
  "fail_or_retry S L namespace request =
     (let ks = store_keys S namespace
      in io_bind (eval S ''fail_or_retry'' (L 0) (fail_or_retry_lua (redis S))
           [leased ks, lease_meta ks, failures ks, ready ks, scheduled ks, failed ks,
            workers_leases ks, rerun ks]
           (failure_args (chrono S) request))
         (\<lambda>response. io_return (parse_failure_response (chrono S) (fr_job_id request) response)))"

definition reap_expired ::
    "'db redis_store \<Rightarrow> 'db links \<Rightarrow> string \<Rightarrow> timestamp \<Rightarrow> nat \<Rightarrow> ('db, nat) io" where
  "reap_expired S L namespace now limit =
     (if limit = 0 then io_return (Ok 0)
      else
        (let ks = store_keys S namespace
         in io_bind (eval S ''reap_expired'' (L 0) (reap_expired_lua (redis S))
              [leased ks, lease_meta ks, ready ks, workers_leases ks, rerun ks]
              [show_int (micros (chrono S) now), show_nat limit])
            (\<lambda>response. io_return (parse_reap_response namespace response))))"


section \<open>Operator commands\<close>

definition operator_transition_at ::
    "'db redis_store \<Rightarrow> 'db links \<Rightarrow> string \<Rightarrow> string \<Rightarrow> string \<Rightarrow> timestamp \<Rightarrow> ('db, unit) io" where
  "operator_transition_at S L namespace operation job now =
     (let ks = store_keys S namespace
      in io_bind (eval S ''operator_transition'' (L 0) (operator_transition_lua (redis S))
           [failures ks, ready ks, scheduled ks, leased ks, lease_meta ks, failed ks,
            workers_leases ks, rerun ks]
           [operation, job, show_int (micros (chrono S) now)])
         (\<lambda>response. io_return (parse_operator_response job response)))"

definition cancel ::
    "'db redis_store \<Rightarrow> 'db links \<Rightarrow> timestamp \<Rightarrow> string \<Rightarrow> string \<Rightarrow> ('db, unit) io" where
  "cancel S L system_now namespace job =
     operator_transition_at S L namespace ''cancel'' job system_now"

definition force_ack ::
    "'db redis_store \<Rightarrow> 'db links \<Rightarrow> timestamp \<Rightarrow> string \<Rightarrow> string \<Rightarrow> ('db, unit) io" where
  "force_ack S L system_now namespace job =
     operator_transition_at S L namespace ''force_ack'' job system_now"

definition force_fail ::
    "'db redis_store \<Rightarrow> 'db links \<Rightarrow> string \<Rightarrow> force_fail_request \<Rightarrow> timestamp \<Rightarrow> ('db, unit) io" where
  "force_fail S L namespace request now =
     operator_transition_at S L namespace ''force_fail'' (ff_job_id request) now"

definition requeue ::
    "'db redis_store \<Rightarrow> 'db links \<Rightarrow> string \<Rightarrow> string \<Rightarrow> timestamp \<Rightarrow> ('db, unit) io" where
  "requeue S L namespace job now = operator_transition_at S L namespace ''requeue'' job now"

definition retry_now ::
    "'db redis_store \<Rightarrow> 'db links \<Rightarrow> string \<Rightarrow> string \<Rightarrow> timestamp \<Rightarrow> ('db, unit) io" where
  "retry_now S L namespace job now = operator_transition_at S L namespace ''retry_now'' job now"

definition force_retry ::
    "'db redis_store \<Rightarrow> 'db links \<Rightarrow> string \<Rightarrow> string \<Rightarrow> timestamp \<Rightarrow> ('db, unit) io" where
  "force_retry S L namespace job now = operator_transition_at S L namespace ''force_retry'' job now"

end
