(* ===== verification/Store_Admin.thy ===== *)
theory Store_Admin
  imports Store
begin

text \<open>
  \<^verbatim>\<open>redis_store/counts.rs\<close> and \<^verbatim>\<open>redis_store/workers.rs\<close>: the operations of several
  commands. Between two commands of one operation other clients may act (the links say how).
\<close>

section \<open>Counts\<close>

definition counts_fields ::
    "'db redis_store \<Rightarrow> 'db links \<Rightarrow> namespace_keys \<Rightarrow> int \<Rightarrow> 'db \<Rightarrow> 'db \<times> queue_counts redis_result" where
  "counts_fields S L ks now_us db =
     (let R = redis S;
          ready_count = zcard R db (ready ks);
          db1 = others (L 1) db;
          due = zcount R db1 (scheduled ks) NegInf (Incl (dbl now_us));
          db2 = others (L 2) db1;
          future = zcount R db2 (scheduled ks) (Excl (dbl now_us)) PosInf;
          db3 = others (L 3) db2;
          leased_count = zcard R db3 (leased ks);
          db4 = others (L 4) db3;
          failed_count = zcard R db4 (failed ks)
      in (db4, Inr \<lparr>ready_count = ready_count, scheduled_due_count = due,
                    scheduled_future_count = future, leased_count = leased_count,
                    failed_count = failed_count\<rparr>))"

definition store_counts ::
    "'db redis_store \<Rightarrow> 'db links \<Rightarrow> string \<Rightarrow> timestamp \<Rightarrow> ('db, queue_counts) io" where
  "store_counts S L namespace now =
     query_pipe S ''counts'' (L 0)
       (counts_fields S L (store_keys S namespace) (micros (chrono S) now))"


section \<open>Failed jobs\<close>

definition parse_cursor :: "string \<Rightarrow> nat result" where
  "parse_cursor cursor = ok_or (parse_usize cursor) (InvalidCursor cursor)"

text \<open>\<^verbatim>\<open>usize\<close> addition: it panics when overflow checks are compiled in.\<close>

definition add_usize :: "nat \<Rightarrow> nat \<Rightarrow> nat result" where
  "add_usize a b = (if a + b < 2 ^ 64 then Ok (a + b) else Panic)"

text \<open>
  \<^verbatim>\<open>ZRANGE key start stop WITHSCORES\<close> read as \<^verbatim>\<open>Vec<(String, i64)>\<close>. Redis reads the two
  indexes as signed 64 bit integers and answers with an error when one does not fit.
\<close>

definition zrange_scores ::
    "'db redis_store \<Rightarrow> string \<Rightarrow> nat \<Rightarrow> nat \<Rightarrow> 'db \<Rightarrow> 'db \<times> (string \<times> int) list redis_result" where
  "zrange_scores S key start stop db =
     (if int start \<le> i64_max \<and> int stop \<le> i64_max
      then (db, converted S (scored_rows S (zrange (redis S) db key (int start) (int stop))))
      else (db, Inl (reply_type_error (redis S))))"

definition failed_record :: "chrono_api \<Rightarrow> (string \<times> int) \<times> nat option \<Rightarrow> job_record" where
  "failed_record C row =
     (let ((job, failed_at), failure_count) = row
      in \<lparr>jr_job_id = job, jr_state = Failed, jr_ready_at = None, jr_schedule_at = None,
          jr_failure_count = (case failure_count of None \<Rightarrow> 0 | Some n \<Rightarrow> n),
          jr_leased_by = None,
          jr_failed_at = Some (case from_micros C failed_at of Ok t \<Rightarrow> t | _ \<Rightarrow> 0)\<rparr>)"

definition list_failed ::
    "'db redis_store \<Rightarrow> 'db links \<Rightarrow> string \<Rightarrow> failed_jobs_query \<Rightarrow> ('db, failed_jobs_page) io" where
  "list_failed S L namespace query =
     io_bind (io_return (case fq_cursor query of None \<Rightarrow> Ok 0 | Some cursor \<Rightarrow> parse_cursor cursor))
     (\<lambda>offset.
     if fq_limit query = 0 then io_return (Ok \<lparr>fp_jobs = [], fp_next_cursor = None\<rparr>)
     else
       (let ks = store_keys S namespace
        in io_bind (io_return (add_usize offset (fq_limit query))) (\<lambda>stop.
           io_bind (query_cmd S ''list_failed'' (L 0) (zrange_scores S (failed ks) offset stop))
           (\<lambda>failed_rows.
           let more = length failed_rows > fq_limit query;
               rows = (if more then take (fq_limit query) failed_rows else failed_rows);
               next_cursor = (if more then Some (show_nat stop) else None)
           in io_bind (hmget S parse_u32 ''failed_hmget'' (L 1) (failures ks) (map fst rows))
              (\<lambda>failure_counts.
              io_return (Ok \<lparr>fp_jobs = map (failed_record (chrono S)) (zip rows failure_counts),
                             fp_next_cursor = next_cursor\<rparr>))))))"

text \<open>The jobs a selector names, in the first round trip.\<close>

definition select_failed ::
    "'db redis_store \<Rightarrow> namespace_keys \<Rightarrow> failed_selector \<Rightarrow> 'db \<Rightarrow> string list" where
  "select_failed S ks selector db =
     (case selector of
        Sel_JobId job \<Rightarrow> (case zscore (redis S) db (failed ks) job of None \<Rightarrow> [] | Some s \<Rightarrow> [job])
      | Sel_OlderThan timestamp \<Rightarrow>
          map zmember (zrangebyscore (redis S) db (failed ks) NegInf
            (Excl (dbl (micros (chrono S) timestamp))) None)
      | Sel_All \<Rightarrow> map zmember (zrange (redis S) db (failed ks) 0 (- 1)))"

fun select_operation :: "failed_selector \<Rightarrow> string" where
  "select_operation (Sel_JobId job) = ''purge_failed_check''"
| "select_operation (Sel_OlderThan timestamp) = ''purge_failed_range''"
| "select_operation Sel_All = ''purge_failed_all''"

text \<open>\<^verbatim>\<open>MULTI\<close>, \<^verbatim>\<open>ZREM failed ids\<close>, \<^verbatim>\<open>HDEL failures ids\<close>, \<^verbatim>\<open>EXEC\<close>.\<close>

definition purge_jobs :: "'db redis_api \<Rightarrow> namespace_keys \<Rightarrow> string list \<Rightarrow> 'db \<Rightarrow> 'db" where
  "purge_jobs R ks jobs db =
     fold (\<lambda>job db. hdel R db (failures ks) job) jobs
       (fold (\<lambda>job db. zrem R db (failed ks) job) jobs db)"

definition purge_failed ::
    "'db redis_store \<Rightarrow> 'db links \<Rightarrow> string \<Rightarrow> failed_selector \<Rightarrow> ('db, nat) io" where
  "purge_failed S L namespace selector =
     (let ks = store_keys S namespace
      in io_bind (query_cmd S (select_operation selector) (L 0)
           (\<lambda>db. (db, Inr (select_failed S ks selector db)))) (\<lambda>jobs.
         if jobs = [] then io_return (Ok 0)
         else io_bind (query_pipe S ''purge_failed'' (L 1)
                (\<lambda>db. (purge_jobs (redis S) ks jobs db, Inr ()))) (\<lambda>_.
              io_return (Ok (length jobs)))))"


section \<open>Workers\<close>

definition stale_after_us :: "stored_worker_config \<Rightarrow> int" where
  "stale_after_us parsed =
     max (clamp_i64 (clamp_i64 (u64_as_i64 (sw_lease_duration_ms parsed) * 10) * 1000)) 86400000000"

fun stale_workers :: "int \<Rightarrow> ((string \<times> int) \<times> string option) list \<Rightarrow> string list result" where
  "stale_workers now_us [] = Ok []"
| "stale_workers now_us (((worker, last_seen_us), None) # rest) =
     map_ok ((#) worker) (stale_workers now_us rest)"
| "stale_workers now_us (((worker, last_seen_us), Some record) # rest) =
     and_then (parse_worker_config_record record) (\<lambda>parsed.
     if clamp_i64 (now_us - last_seen_us) > stale_after_us parsed
     then map_ok ((#) worker) (stale_workers now_us rest)
     else stale_workers now_us rest)"

definition forget_worker :: "'db redis_api \<Rightarrow> namespace_keys \<Rightarrow> string \<Rightarrow> 'db \<Rightarrow> 'db" where
  "forget_worker R ks worker db =
     hdel R (hdel R (zrem R db (workers_last_seen ks) worker) (workers_config ks) worker)
       (workers_leases ks) worker"

text \<open>\<^verbatim>\<open>ZRANGE key 0 -1 WITHSCORES\<close> read as \<^verbatim>\<open>Vec<(String, i64)>\<close>.\<close>

definition all_scores ::
    "'db redis_store \<Rightarrow> string \<Rightarrow> 'db \<Rightarrow> 'db \<times> (string \<times> int) list redis_result" where
  "all_scores S key db = (db, converted S (scored_rows S (zrange (redis S) db key 0 (- 1))))"

definition prune_stale_workers ::
    "'db redis_store \<Rightarrow> 'db links \<Rightarrow> string \<Rightarrow> timestamp \<Rightarrow> ('db, unit) io" where
  "prune_stale_workers S L namespace now =
     (let ks = store_keys S namespace
      in io_bind (query_cmd S ''workers_zrange'' (L 0) (all_scores S (workers_last_seen ks)))
         (\<lambda>workers.
         if workers = [] then io_return (Ok ())
         else
           io_bind (hmget S Some ''workers_config_hmget'' (L 1) (workers_config ks) (map fst workers))
           (\<lambda>configs.
           io_bind (io_return (stale_workers (micros (chrono S) now) (zip workers configs)))
           (\<lambda>stale.
           if stale = [] then io_return (Ok ())
           else query_pipe S ''workers_cleanup'' (L 2)
                  (\<lambda>db. (fold (forget_worker (redis S) ks) stale db, Inr ()))))))"

fun worker_infos ::
    "chrono_api \<Rightarrow> (((string \<times> int) \<times> string option) \<times> nat option) list \<Rightarrow> worker_info list result" where
  "worker_infos C [] = Ok []"
| "worker_infos C (((row, None), held) # rest) = worker_infos C rest"
| "worker_infos C ((((worker, last_seen_us), Some record), held) # rest) =
     and_then (parse_worker_config_record record) (\<lambda>parsed.
     and_then (from_micros C last_seen_us) (\<lambda>seen.
     map_ok ((#) \<lparr>wi_worker_id = worker, wi_concurrency = sw_concurrency parsed,
                  wi_leased_count = (case held of None \<Rightarrow> 0 | Some n \<Rightarrow> n),
                  wi_last_heartbeat_at = seen\<rparr>) (worker_infos C rest)))"

definition list_workers ::
    "'db redis_store \<Rightarrow> 'db links \<Rightarrow> string \<Rightarrow> timestamp \<Rightarrow> ('db, worker_info list) io" where
  "list_workers S L namespace now =
     io_bind (prune_stale_workers S L namespace now) (\<lambda>_.
     let ks = store_keys S namespace
     in io_bind (query_cmd S ''list_workers'' (L 3) (all_scores S (workers_last_seen ks)))
        (\<lambda>workers.
        if workers = [] then io_return (Ok [])
        else
          io_bind (hmget S Some ''workers_config_hmget'' (L 4) (workers_config ks) (map fst workers))
          (\<lambda>configs.
          io_bind (hmget S parse_u64 ''workers_leases_hmget'' (L 5) (workers_leases ks)
            (map fst workers)) (\<lambda>lease_counts.
          io_return (worker_infos (chrono S) (zip (zip workers configs) lease_counts))))))"

definition reserve ::
    "'db redis_store \<Rightarrow> 'db links \<Rightarrow> string \<Rightarrow> worker_config \<Rightarrow> nat \<Rightarrow> timestamp \<Rightarrow> string list \<Rightarrow>
     ('db, reserve_batch) io" where
  "reserve S L namespace config available_capacity now lease_tokens =
     (if available_capacity = 0 then io_return (Ok \<lparr>rb_jobs = [], rb_next_schedule_at = None\<rparr>)
      else
        (let ks = store_keys S namespace
         in io_bind (eval S ''reserve'' (L 0) (reserve_lua (redis S))
              [cfg ks, ready ks, scheduled ks, leased ks, lease_meta ks, workers_last_seen ks,
               workers_config ks, workers_leases ks]
              ([worker_id config, show_int (micros (chrono S) now), show_nat available_capacity,
                show_int (duration_micros (lease_duration config)), retry_policy_key config,
                pack_worker_config_record config] @ lease_tokens))
            (\<lambda>response.
            io_bind (io_return (parse_reserve_response (chrono S) (worker_id config) response))
            (\<lambda>batch db. (fst (remember_namespace S (L 1) namespace db), Ok batch)))))"

end
