(* ===== verification/Queue.thy ===== *)
theory Queue
  imports Keys Script_Lease
begin

text \<open>
  The abstract queue. Every job id of a namespace has a \<^verbatim>\<open>job\<close>: where it is placed, how
  often it has failed, and whether an immediate enqueue asked for another run while it was leased.
  The protocol document states the queue in these terms (one placement per job, counters that
  default to zero, rerun requests of leased jobs only); the relation \<^verbatim>\<open>represents\<close> says that the
  sorted sets, hashes and sets of one namespace store exactly that.
\<close>

section \<open>Jobs\<close>

datatype placement =
    Absent
  | At_ready int
  | At_scheduled int
  | At_leased int string string \<comment> \<open>deadline, worker, lease token\<close>
  | At_failed int

record job =
  place :: placement
  fails :: nat
  again :: bool

definition fresh :: "placement \<Rightarrow> job" where
  "fresh p = \<lparr>place = p, fails = 0, again = False\<rparr>"

lemma fresh_sel [simp]: "place (fresh p) = p" "fails (fresh p) = 0" "again (fresh p) = False"
  by (simp_all add: fresh_def)

fun ready_at :: "placement \<Rightarrow> int option" where
  "ready_at (At_ready s) = Some s"
| "ready_at _ = None"

fun scheduled_at :: "placement \<Rightarrow> int option" where
  "scheduled_at (At_scheduled s) = Some s"
| "scheduled_at _ = None"

fun leased_until :: "placement \<Rightarrow> int option" where
  "leased_until (At_leased d w t) = Some d"
| "leased_until _ = None"

fun failed_at :: "placement \<Rightarrow> int option" where
  "failed_at (At_failed s) = Some s"
| "failed_at _ = None"

fun meta_of :: "placement \<Rightarrow> string option" where
  "meta_of (At_leased d w t) = Some (pack_meta w t)"
| "meta_of _ = None"

fun leased_to :: "placement \<Rightarrow> string \<Rightarrow> string \<Rightarrow> bool" where
  "leased_to (At_leased d w t) w' t' = (w = w' \<and> t = t')"
| "leased_to _ w' t' = False"

fun is_leased :: "placement \<Rightarrow> bool" where
  "is_leased (At_leased d w t) = True"
| "is_leased _ = False"

fun leased_by :: "placement \<Rightarrow> string \<Rightarrow> bool" where
  "leased_by (At_leased d w t) w' = (w = w')"
| "leased_by _ w' = False"

text \<open>The state name the scripts report for a placement.\<close>

fun state_name :: "placement \<Rightarrow> string" where
  "state_name Absent = ''none''"
| "state_name (At_ready s) = ''ready''"
| "state_name (At_scheduled s) = ''scheduled''"
| "state_name (At_leased d w t) = ''leased''"
| "state_name (At_failed s) = ''failed''"

text \<open>A counter that is zero has no field in its hash.\<close>

definition count_text :: "nat \<Rightarrow> string option" where
  "count_text n = (if n = 0 then None else Some (show_nat n))"

lemma count_text_0 [simp]: "count_text 0 = None"
  by (simp add: count_text_def)

lemma count_text_Suc [simp]: "count_text (Suc n) = Some (show_nat (Suc n))"
  by (simp add: count_text_def)


section \<open>A namespace in Redis represents an abstract queue\<close>

definition represents :: "'db redis_api \<Rightarrow> namespace_keys \<Rightarrow> 'db \<Rightarrow> (string \<Rightarrow> job) \<Rightarrow> bool" where
  "represents R ks db J \<longleftrightarrow>
     (\<forall>j. zscore R db (ready ks) j = ready_at (place (J j))) \<and>
     (\<forall>j. zscore R db (scheduled ks) j = scheduled_at (place (J j))) \<and>
     (\<forall>j. zscore R db (leased ks) j = leased_until (place (J j))) \<and>
     (\<forall>j. zscore R db (failed ks) j = failed_at (place (J j))) \<and>
     (\<forall>j. hget R db (lease_meta ks) j = meta_of (place (J j))) \<and>
     (\<forall>j. hget R db (failures ks) j = count_text (fails (J j))) \<and>
     (\<forall>j. sis R db (rerun ks) j = again (J j)) \<and>
     (\<forall>j. again (J j) \<longrightarrow> is_leased (place (J j)))"

text \<open>The number of jobs a worker holds, and the counter hash that stores it.\<close>

definition held :: "(string \<Rightarrow> job) \<Rightarrow> string \<Rightarrow> nat" where
  "held J w = card {j. leased_by (place (J j)) w}"

definition counts_leases :: "'db redis_api \<Rightarrow> namespace_keys \<Rightarrow> 'db \<Rightarrow> (string \<Rightarrow> job) \<Rightarrow> bool" where
  "counts_leases R ks db J \<longleftrightarrow> (\<forall>w. hget R db (workers_leases ks) w = count_text (held J w))"

text \<open>
  A script run \<open>r\<close> refines an abstract operation on job \<open>j\<close>: it changes that job to the new value
  and nothing else, gives the abstract reply, and keeps the lease counters exact if they were.
\<close>

definition refines_job ::
    "'db redis_api \<Rightarrow> namespace_keys \<Rightarrow> 'db \<Rightarrow> (string \<Rightarrow> job) \<Rightarrow> string \<Rightarrow> 'db \<times> reply \<Rightarrow>
     job \<times> string list \<Rightarrow> bool" where
  "refines_job R ks db J j r s \<longleftrightarrow>
     represents R ks (fst r) (J(j := fst s)) \<and> snd r = Reply (snd s) \<and>
     (counts_leases R ks db J \<longrightarrow> counts_leases R ks (fst r) (J(j := fst s)))"

lemma refines_jobI:
  assumes "r = (db', Reply rs)" "s = (x, rs)" "represents R ks db' (J(j := x))"
    and "counts_leases R ks db J \<Longrightarrow> counts_leases R ks db' (J(j := x))"
  shows "refines_job R ks db J j r s"
  using assms by (simp add: refines_job_def)

text \<open>An operation that refuses leaves the store and the job as they are.\<close>

lemma refines_job_unchanged:
  assumes "represents R ks db J" "r = (db, Reply rs)" "s = (J j, rs)"
  shows "refines_job R ks db J j r s"
  using assms by (simp add: refines_job_def)

lemma representsD:
  assumes "represents R ks db J"
  shows "zscore R db (ready ks) j = ready_at (place (J j))"
    "zscore R db (scheduled ks) j = scheduled_at (place (J j))"
    "zscore R db (leased ks) j = leased_until (place (J j))"
    "zscore R db (failed ks) j = failed_at (place (J j))"
    "hget R db (lease_meta ks) j = meta_of (place (J j))"
    "hget R db (failures ks) j = count_text (fails (J j))"
    "sis R db (rerun ks) j = again (J j)"
    "again (J j) \<Longrightarrow> is_leased (place (J j))"
  using assms by (auto simp: represents_def)

lemma represents_unique:
  assumes "represents R ks db J" "represents R ks db J'"
  shows "J = J'"
proof
  fix j
  have "place (J j) = place (J' j)"
    using representsD(1-5) [OF assms(1), of j] representsD(1-5) [OF assms(2), of j]
    by (cases "place (J j)"; cases "place (J' j)") auto
  moreover have "fails (J j) = fails (J' j)"
    using representsD(6) [OF assms(1), of j] representsD(6) [OF assms(2), of j]
    by (auto simp: count_text_def split: if_splits)
  moreover have "again (J j) = again (J' j)"
    using representsD(7) [OF assms(1), of j] representsD(7) [OF assms(2), of j] by simp
  ultimately show "J j = J' j" by (cases "J j"; cases "J' j") simp
qed

text \<open>A mutation of one job: everything else reads as before, the job reads as its new value.\<close>

lemma represents_update:
  assumes "represents R ks db J"
    and "\<And>i. i \<noteq> j \<Longrightarrow> zscore R db' (ready ks) i = zscore R db (ready ks) i"
    and "\<And>i. i \<noteq> j \<Longrightarrow> zscore R db' (scheduled ks) i = zscore R db (scheduled ks) i"
    and "\<And>i. i \<noteq> j \<Longrightarrow> zscore R db' (leased ks) i = zscore R db (leased ks) i"
    and "\<And>i. i \<noteq> j \<Longrightarrow> zscore R db' (failed ks) i = zscore R db (failed ks) i"
    and "\<And>i. i \<noteq> j \<Longrightarrow> hget R db' (lease_meta ks) i = hget R db (lease_meta ks) i"
    and "\<And>i. i \<noteq> j \<Longrightarrow> hget R db' (failures ks) i = hget R db (failures ks) i"
    and "\<And>i. i \<noteq> j \<Longrightarrow> sis R db' (rerun ks) i = sis R db (rerun ks) i"
    and "zscore R db' (ready ks) j = ready_at (place x)"
    and "zscore R db' (scheduled ks) j = scheduled_at (place x)"
    and "zscore R db' (leased ks) j = leased_until (place x)"
    and "zscore R db' (failed ks) j = failed_at (place x)"
    and "hget R db' (lease_meta ks) j = meta_of (place x)"
    and "hget R db' (failures ks) j = count_text (fails x)"
    and "sis R db' (rerun ks) j = again x"
    and "again x \<Longrightarrow> is_leased (place x)"
  shows "represents R ks db' (J(j := x))"
  using assms by (simp add: represents_def)

text \<open>The documented single-membership invariant.\<close>

lemma represents_single:
  assumes "represents R ks db J"
  shows "length (filter (\<lambda>k. zscore R db k j \<noteq> None) [ready ks, scheduled ks, leased ks, failed ks]) \<le> 1"
  by (cases "place (J j)") (simp_all add: representsD [OF assms])

context redis_service begin

lemma decrement_worker_frame [simp]:
  "zscore R (decrement_worker R k w db) = zscore R db"
  "sis R (decrement_worker R k w db) = sis R db"
  "k' \<noteq> k \<Longrightarrow> hget R (decrement_worker R k w db) k' f = hget R db k' f"
  "w' \<noteq> w \<Longrightarrow> hget R (decrement_worker R k w db) k w' = hget R db k w'"
  by (simp_all add: decrement_worker_def Let_def split_def hincrby_other)

lemma hincrby_fields [simp]:
  "k' \<noteq> k \<Longrightarrow> hget R (fst (hincrby R db k f d)) k' f' = hget R db k' f'"
  "f' \<noteq> f \<Longrightarrow> hget R (fst (hincrby R db k f d)) k f' = hget R db k f'"
  by (simp_all add: hincrby_other)

lemma hincrby_count:
  assumes "hget R db k f = count_text n" "- int n \<le> d"
  shows "snd (hincrby R db k f d) = int n + d"
    "hget R (fst (hincrby R db k f d)) k f = Some (show_int (int n + d))"
proof -
  have "case hget R db k f of None \<Rightarrow> int n = 0 | Some v \<Rightarrow> v = show_int (int n)"
    using assms(1) by (cases n) (auto simp: show_int_def)
  from hincrby_value [OF this, of d]
  show "snd (hincrby R db k f d) = int n + d"
    "hget R (fst (hincrby R db k f d)) k f = Some (show_int (int n + d))" by auto
qed

lemma hincrby_Suc [simp]:
  assumes "hget R db k f = count_text n"
  shows "snd (hincrby R db k f 1) = int (Suc n)"
    "hget R (fst (hincrby R db k f 1)) k f = Some (show_nat (Suc n))"
  using hincrby_count [OF assms, of 1] show_int_of_nat [of "Suc n"] by (simp_all add: add.commute)

lemma decrement_worker_count:
  assumes "hget R db k w = count_text (Suc n)"
  shows "hget R (decrement_worker R k w db) k w = count_text n"
proof -
  have "snd (hincrby R db k w (- 1)) = int n"
    "hget R (fst (hincrby R db k w (- 1))) k w = Some (show_int (int n))"
    using hincrby_count [OF assms, of "- 1"] by (simp_all del: show_int_of_nat)
  then show ?thesis
    by (cases n) (simp_all add: decrement_worker_def Let_def split_def del: of_nat_Suc)
qed

lemma finite_leased:
  assumes "represents R ks db J"
  shows "finite {j. is_leased (place (J j))}"
proof -
  have "{j. is_leased (place (J j))} \<subseteq> {j. zscore R db (leased ks) j \<noteq> None}"
  proof
    fix j
    assume "j \<in> {j. is_leased (place (J j))}"
    then show "j \<in> {j. zscore R db (leased ks) j \<noteq> None}"
      by (cases "place (J j)") (simp_all add: representsD [OF assms])
  qed
  then show ?thesis using finite_zscore finite_subset by blast
qed

end

lemma leased_by_is_leased: "leased_by p w \<Longrightarrow> is_leased p"
  by (cases p) auto

lemma meta_of_not_leased: "\<not> is_leased p \<Longrightarrow> meta_of p = None"
  by (cases p) auto

lemma leased_to_by: "leased_to p w t \<Longrightarrow> leased_by p w"
  by (cases p) auto

text \<open>How the number of held leases changes when one job changes.\<close>

lemma held_update:
  assumes "finite {j. is_leased (place (J j))}"
  shows "held (J(j := x)) w + (if leased_by (place (J j)) w then 1 else 0) =
    held J w + (if leased_by (place x) w then 1 else 0)"
proof -
  let ?A = "{i. leased_by (place (J i)) w}" and ?B = "{i. leased_by (place ((J(j := x)) i)) w}"
  have fin: "finite ?A"
    by (rule finite_subset [OF _ assms]) (auto dest: leased_by_is_leased)
  have A: "?A - {j} = ?B - {j}" by auto
  have "finite ?B" using fin A by (metis finite_Diff2 finite.emptyI finite_insert)
  from card_split_member [OF this, of j] card_split_member [OF fin, of j] A
  show ?thesis by (simp add: held_def)
qed

end
