(* ===== verification/Sim_Lease.thy ===== *)
theory Sim_Lease
  imports Queue
begin

text \<open>
  The lease scripts refine operations on one job of the abstract queue: only the named job
  changes, the reply is the one of the abstract operation, and the lease counters stay exact.
\<close>

section \<open>Abstract operations\<close>

definition lease_mismatch :: "string list" where
  "lease_mismatch = [''err'', ''lease_mismatch'']"

definition heartbeat_spec :: "string \<Rightarrow> string \<Rightarrow> int \<Rightarrow> job \<Rightarrow> job \<times> string list" where
  "heartbeat_spec w t deadline x =
     (if leased_to (place x) w t then (x\<lparr>place := At_leased deadline w t\<rparr>, [''ok''])
      else (x, lease_mismatch))"

definition ack_spec :: "string \<Rightarrow> string \<Rightarrow> int \<Rightarrow> job \<Rightarrow> job \<times> string list" where
  "ack_spec w t now x =
     (if leased_to (place x) w t
      then (fresh (if again x then At_ready now else Absent), [''ok''])
      else (x, lease_mismatch))"

definition complete_spec :: "string \<Rightarrow> string \<Rightarrow> int \<Rightarrow> int \<Rightarrow> job \<Rightarrow> job \<times> string list" where
  "complete_spec w t now schedule x =
     (if leased_to (place x) w t
      then (if again x \<or> schedule = 0 \<or> schedule \<le> now
            then (fresh (At_ready now), [''ok'', ''ready'', ''0''])
            else (fresh (At_scheduled schedule), [''ok'', ''scheduled'', show_int schedule]))
      else (x, lease_mismatch))"

text \<open>
  Where a run that has now failed \<open>n\<close> times goes. The arguments are the decoded ones of the
  script.
\<close>

definition failed_placement ::
    "int \<Rightarrow> nat \<Rightarrow> string \<Rightarrow> string \<Rightarrow> int \<Rightarrow> string \<Rightarrow> int \<Rightarrow> int \<Rightarrow> int \<Rightarrow> placement" where
  "failed_placement now n action_kind policy_kind max_retries backoff_kind a b c =
     (if action_kind = ''terminal'' \<or> \<not> should_retry policy_kind (int n) max_retries
      then At_failed now
      else if backoff_kind = ''none'' then At_ready now
      else
        (let delay_ms = (if backoff_kind = ''fixed'' then a else backoff_loop (n - 1) a b c)
         in if delay_ms = 0 then At_ready now
            else At_scheduled (dbl (now + dbl (delay_ms * 1000)))))"

text \<open>The schedule value a reply carries for a placement.\<close>

fun schedule_text :: "placement \<Rightarrow> string" where
  "schedule_text (At_scheduled s) = show_int s"
| "schedule_text _ = ''0''"

definition fail_spec ::
    "string \<Rightarrow> string \<Rightarrow> int \<Rightarrow> string \<Rightarrow> string \<Rightarrow> int \<Rightarrow> string \<Rightarrow> int \<Rightarrow> int \<Rightarrow> int \<Rightarrow> job \<Rightarrow>
     job \<times> string list" where
  "fail_spec w t now action_kind policy_kind max_retries backoff_kind a b c x =
     (if leased_to (place x) w t
      then (let n = Suc (fails x);
                p = failed_placement now n action_kind policy_kind max_retries backoff_kind a b c
            in (\<lparr>place = p, fails = n, again = False\<rparr>,
                [''ok'', lua_tostring (int n), state_name p, schedule_text p]))
      else (x, lease_mismatch))"

text \<open>Storing a job that is not leased: one member of one sorted set.\<close>

fun put_placement :: "'db redis_api \<Rightarrow> namespace_keys \<Rightarrow> string \<Rightarrow> placement \<Rightarrow> 'db \<Rightarrow> 'db" where
  "put_placement R ks j (At_ready s) db = zadd R db (ready ks) s j"
| "put_placement R ks j (At_scheduled s) db = zadd R db (scheduled ks) s j"
| "put_placement R ks j (At_failed s) db = zadd R db (failed ks) s j"
| "put_placement R ks j _ db = db"

lemma failed_placement_not_leased:
  "\<not> is_leased (failed_placement now n ak pk mr bk a b c)"
  "failed_placement now n ak pk mr bk a b c \<noteq> Absent"
  by (auto simp: failed_placement_def Let_def)


section \<open>Simulation\<close>

context redis_service begin

lemma holds_lease_iff:
  assumes "represents R ks db J"
  shows "holds_lease R (leased ks) (lease_meta ks) db j w t \<longleftrightarrow> leased_to (place (J j)) w t"
  by (cases "place (J j)") (auto simp: holds_lease_def representsD [OF assms])

lemma counts_unchanged:
  assumes "counts_leases R ks db J" "represents R ks db J"
    and "\<And>v. hget R db' (workers_leases ks) v = hget R db (workers_leases ks) v"
    and "\<And>w. leased_by (place x) w \<longleftrightarrow> leased_by (place (J j)) w"
  shows "counts_leases R ks db' (J(j := x))"
  using assms held_update [OF finite_leased [OF assms(2)], of j x]
  by (simp add: counts_leases_def)

lemma counts_release:
  assumes "counts_leases R ks db J" "represents R ks db J"
    and "leased_to (place (J j)) w t" "\<not> is_leased (place x)"
    and "\<And>v. hget R db0 (workers_leases ks) v = hget R db (workers_leases ks) v"
    and "\<And>v. hget R db' (workers_leases ks) v =
      hget R (decrement_worker R (workers_leases ks) w db0) (workers_leases ks) v"
  shows "counts_leases R ks db' (J(j := x))"
  unfolding counts_leases_def
proof
  fix v
  have held: "held (J(j := x)) v + (if leased_by (place (J j)) v then 1 else 0) = held J v"
    using held_update [OF finite_leased [OF assms(2)], of j x v] assms(4)
    by (auto dest: leased_by_is_leased)
  have count: "hget R db0 (workers_leases ks) v = count_text (held J v)"
    using assms(1,5) by (simp add: counts_leases_def)
  have leased_by: "leased_by (place (J j)) v \<longleftrightarrow> v = w"
    using assms(3) by (cases "place (J j)") auto
  show "hget R db' (workers_leases ks) v = count_text (held (J(j := x)) v)"
  proof (cases "v = w")
    case True
    with held leased_by have "held J w = Suc (held (J(j := x)) w)" by simp
    with count True assms(6) show ?thesis
      by (simp add: decrement_worker_count del: count_text_Suc)
  next
    case False
    with held leased_by count assms(6) show ?thesis by simp
  qed
qed

lemma heartbeat_refines:
  assumes ks: "keys_ok ks" and rep: "represents R ks db J"
  shows "refines_job R ks db J j
    (heartbeat_lua R [leased ks, lease_meta ks, workers_last_seen ks] [j, w, t, n, d] db)
    (heartbeat_spec w t (lua_number d) (J j))"
proof (cases "leased_to (place (J j)) w t")
  case False
  then show ?thesis
    by (intro refines_job_unchanged [OF rep])
       (simp_all add: holds_lease_iff [OF rep] heartbeat_spec_def lease_mismatch_def)
next
  case True
  then obtain e where e: "place (J j) = At_leased e w t" by (cases "place (J j)") auto
  show ?thesis
  proof (rule refines_jobI)
    show "heartbeat_lua R [leased ks, lease_meta ks, workers_last_seen ks] [j, w, t, n, d] db =
      (zadd R (zadd R db (leased ks) (lua_number d) j) (workers_last_seen ks) (lua_number n) w,
       Reply [''ok''])"
      using True by (simp add: holds_lease_iff [OF rep])
    show "heartbeat_spec w t (lua_number d) (J j) =
      ((J j)\<lparr>place := At_leased (lua_number d) w t\<rparr>, [''ok''])"
      using True by (simp add: heartbeat_spec_def)
  qed (rule represents_update [OF rep] counts_unchanged [OF _ rep],
    simp_all add: keys_okD [OF ks] representsD [OF rep] e)+
qed

lemma put_placement_frame [simp]:
  "hget R (put_placement R ks j p db) = hget R db"
  "sis R (put_placement R ks j p db) = sis R db"
  "i \<noteq> j \<Longrightarrow> zscore R (put_placement R ks j p db) k i = zscore R db k i"
  by (cases p; simp)+

text \<open>Storing a job that is in no sorted set yet puts it in the one of its placement.\<close>

lemma put_placement_scores:
  assumes "keys_ok ks" "\<not> is_leased p"
    and "\<forall>k \<in> {ready ks, scheduled ks, leased ks, failed ks}. zscore R db k j = None"
  shows "zscore R (put_placement R ks j p db) (ready ks) j = ready_at p"
    "zscore R (put_placement R ks j p db) (scheduled ks) j = scheduled_at p"
    "zscore R (put_placement R ks j p db) (leased ks) j = leased_until p"
    "zscore R (put_placement R ks j p db) (failed ks) j = failed_at p"
  using assms(2,3) by (cases p; simp add: keys_okD [OF assms(1)])+

text \<open>
  The common end of a lease: the job leaves the lease set and its metadata, the worker's counter
  drops, the rerun request is consumed, and the job is stored at a new placement.
\<close>

lemma release_put:
  assumes ks: "keys_ok ks" and rep: "represents R ks db J" and held: "leased_to (place (J j)) w t"
    and p: "\<not> is_leased p"
    and z: "\<And>k i. zscore R db' k i = (if k = leased ks \<and> i = j then None else zscore R db k i)"
    and m: "\<And>i. hget R db' (lease_meta ks) i = (if i = j then None else hget R db (lease_meta ks) i)"
    and f: "\<And>i. hget R db' (failures ks) i =
      (if i = j then count_text n else hget R db (failures ks) i)"
    and s: "\<And>i. sis R db' (rerun ks) i = (i \<noteq> j \<and> sis R db (rerun ks) i)"
    and c0: "\<And>v. hget R db0 (workers_leases ks) v = hget R db (workers_leases ks) v"
    and c: "\<And>v. hget R db' (workers_leases ks) v =
      hget R (decrement_worker R (workers_leases ks) w db0) (workers_leases ks) v"
  shows "represents R ks (put_placement R ks j p db')
      (J(j := \<lparr>place = p, fails = n, again = False\<rparr>))"
    and "counts_leases R ks db J \<Longrightarrow>
      counts_leases R ks (put_placement R ks j p db') (J(j := \<lparr>place = p, fails = n, again = False\<rparr>))"
proof -
  obtain e where e: "place (J j) = At_leased e w t" using held by (cases "place (J j)") auto
  have "\<forall>k \<in> {ready ks, scheduled ks, leased ks, failed ks}. zscore R db' k j = None"
    by (simp add: z representsD [OF rep] e keys_okD [OF ks])
  note put = put_placement_scores [OF ks p this]
  show "represents R ks (put_placement R ks j p db')
      (J(j := \<lparr>place = p, fails = n, again = False\<rparr>))"
    by (rule represents_update [OF rep])
       (use p in \<open>simp_all add: put z m f s meta_of_not_leased\<close>)
  assume cl: "counts_leases R ks db J"
  show "counts_leases R ks (put_placement R ks j p db')
      (J(j := \<lparr>place = p, fails = n, again = False\<rparr>))"
    by (rule counts_release [OF cl rep held _ c0]) (use p in \<open>simp_all add: c\<close>)
qed

lemma ack_refines:
  assumes ks: "keys_ok ks" and rep: "represents R ks db J"
  shows "refines_job R ks db J j
    (ack_lua R [leased ks, lease_meta ks, failures ks, workers_leases ks, ready ks, rerun ks]
       [j, w, t, n] db)
    (ack_spec w t (lua_number n) (J j))"
proof (cases "leased_to (place (J j)) w t")
  case False
  then show ?thesis
    by (intro refines_job_unchanged [OF rep])
       (simp_all add: holds_lease_iff [OF rep] ack_spec_def lease_mismatch_def)
next
  case True
  define db3 where
    "db3 = hdel R (hdel R (zrem R db (leased ks) j) (lease_meta ks) j) (failures ks) j"
  define db5 where "db5 = fst (srem R (decrement_worker R (workers_leases ks) w db3) (rerun ks) j)"
  define p where "p = (if again (J j) then At_ready (lua_number n) else Absent)"
  have reads: "sis R db3 = sis R db" by (simp add: db3_def)
  have p_unleased: "\<not> is_leased p" by (simp add: p_def)
  note rel = release_put [OF ks rep True p_unleased, of db5 0 db3]
  show ?thesis
  proof (rule refines_jobI)
    show "ack_lua R [leased ks, lease_meta ks, failures ks, workers_leases ks, ready ks, rerun ks]
       [j, w, t, n] db = (put_placement R ks j p db5, Reply [''ok''])"
      using True
      by (simp add: holds_lease_iff [OF rep] Let_def split_def reads representsD [OF rep] p_def
          flip: db3_def db5_def)
    show "ack_spec w t (lua_number n) (J j) =
      (\<lparr>place = p, fails = 0, again = False\<rparr>, [''ok''])"
      using True by (simp add: ack_spec_def p_def fresh_def)
  qed (rule rel; simp add: db5_def db3_def keys_okD [OF ks])+
qed

lemma complete_refines:
  assumes ks: "keys_ok ks" and rep: "represents R ks db J"
  shows "refines_job R ks db J j
    (complete_and_reschedule_lua R
       [leased ks, lease_meta ks, failures ks, workers_leases ks, ready ks, scheduled ks, rerun ks]
       [j, w, t, n, s] db)
    (complete_spec w t (lua_number n) (lua_number s) (J j))"
proof (cases "leased_to (place (J j)) w t")
  case False
  then show ?thesis
    by (intro refines_job_unchanged [OF rep])
       (simp_all add: holds_lease_iff [OF rep] complete_spec_def lease_mismatch_def)
next
  case True
  define db3 where
    "db3 = hdel R (hdel R (zrem R db (leased ks) j) (lease_meta ks) j) (failures ks) j"
  define db5 where "db5 = fst (srem R (decrement_worker R (workers_leases ks) w db3) (rerun ks) j)"
  define p where "p = (if again (J j) \<or> lua_number s = 0 \<or> lua_number s \<le> lua_number n
    then At_ready (lua_number n) else At_scheduled (lua_number s))"
  have reads: "sis R db3 = sis R db" by (simp add: db3_def)
  have p_unleased: "\<not> is_leased p" by (simp add: p_def)
  note rel = release_put [OF ks rep True p_unleased, of db5 0 db3]
  show ?thesis
  proof (rule refines_jobI)
    show "complete_and_reschedule_lua R
       [leased ks, lease_meta ks, failures ks, workers_leases ks, ready ks, scheduled ks, rerun ks]
       [j, w, t, n, s] db =
      (put_placement R ks j p db5, Reply [''ok'', state_name p, schedule_text p])"
      using True
      by (simp add: holds_lease_iff [OF rep] Let_def split_def reads representsD [OF rep] p_def
          int_string_def flip: db3_def db5_def)
    show "complete_spec w t (lua_number n) (lua_number s) (J j) =
      (\<lparr>place = p, fails = 0, again = False\<rparr>, [''ok'', state_name p, schedule_text p])"
      using True by (simp add: complete_spec_def p_def fresh_def)
  qed (rule rel; simp add: db5_def db3_def keys_okD [OF ks])+
qed

lemma place_failed_eq:
  "p = failed_placement now n ak pk mr bk a b c \<Longrightarrow>
   place_failed R (ready ks) (scheduled ks) (failed ks) j now (int n) ak pk mr bk a b c db =
    (put_placement R ks j p db,
     Reply [''ok'', lua_tostring (int n), state_name p, schedule_text p])"
proof -
  have "nat (int n - 1) = n - 1" by linarith
  moreover assume "p = failed_placement now n ak pk mr bk a b c"
  ultimately show ?thesis
    by (simp add: place_failed_def failed_placement_def Let_def int_string_def)
qed

lemma fail_refines:
  assumes ks: "keys_ok ks" and rep: "represents R ks db J"
  shows "refines_job R ks db J j
    (fail_or_retry_lua R
       [leased ks, lease_meta ks, failures ks, ready ks, scheduled ks, failed ks,
        workers_leases ks, rerun ks]
       [j, w, t, n, ak, pk, mr, bk, a, b, c] db)
    (fail_spec w t (lua_number n) ak pk (lua_number mr) bk (lua_number a) (lua_number b)
       (lua_number c) (J j))"
proof (cases "leased_to (place (J j)) w t")
  case False
  then show ?thesis
    by (intro refines_job_unchanged [OF rep])
       (simp_all add: holds_lease_iff [OF rep] fail_spec_def lease_mismatch_def)
next
  case True
  define db3 where
    "db3 = fst (srem R (hdel R (zrem R db (leased ks) j) (lease_meta ks) j) (rerun ks) j)"
  define db4 where "db4 = decrement_worker R (workers_leases ks) w db3"
  define db5 where "db5 = fst (hincrby R db4 (failures ks) j 1)"
  define p where "p = failed_placement (lua_number n) (Suc (fails (J j))) ak pk (lua_number mr) bk
    (lua_number a) (lua_number b) (lua_number c)"
  have "hget R db4 (failures ks) j = count_text (fails (J j))"
    by (simp add: db4_def db3_def keys_okD [OF ks] representsD [OF rep])
  note incr = hincrby_Suc [OF this]
  have p_unleased: "\<not> is_leased p" by (simp add: p_def failed_placement_not_leased)
  note rel = release_put [OF ks rep True p_unleased, of db5 "Suc (fails (J j))" db3]
  show ?thesis
  proof (rule refines_jobI)
    show "fail_or_retry_lua R
       [leased ks, lease_meta ks, failures ks, ready ks, scheduled ks, failed ks,
        workers_leases ks, rerun ks]
       [j, w, t, n, ak, pk, mr, bk, a, b, c] db =
      (put_placement R ks j p db5,
       Reply [''ok'', lua_tostring (int (Suc (fails (J j)))), state_name p, schedule_text p])"
      using True
      by (simp add: holds_lease_iff [OF rep] Let_def split_def incr place_failed_eq [OF p_def]
          del: of_nat_Suc flip: db3_def db4_def db5_def)
    show "fail_spec w t (lua_number n) ak pk (lua_number mr) bk (lua_number a) (lua_number b)
       (lua_number c) (J j) =
      (\<lparr>place = p, fails = Suc (fails (J j)), again = False\<rparr>,
       [''ok'', lua_tostring (int (Suc (fails (J j)))), state_name p, schedule_text p])"
      using True by (simp add: fail_spec_def p_def Let_def)
  next
    have other: "hget R db5 (failures ks) i = hget R db (failures ks) i" if "i \<noteq> j" for i
      using that by (simp add: db5_def db4_def db3_def keys_okD [OF ks])
    have own: "hget R db5 (failures ks) j = count_text (Suc (fails (J j)))"
      using incr(2) by (simp add: db5_def)
    show "represents R ks (put_placement R ks j p db5)
        (J(j := \<lparr>place = p, fails = Suc (fails (J j)), again = False\<rparr>))"
      by (rule rel; (simp add: own other; fail)?; simp add: db5_def db4_def db3_def keys_okD [OF ks])
    show "counts_leases R ks db J \<Longrightarrow> counts_leases R ks (put_placement R ks j p db5)
        (J(j := \<lparr>place = p, fails = Suc (fails (J j)), again = False\<rparr>))"
      by (rule rel(2); (simp add: own other; fail)?; simp add: db5_def db4_def db3_def keys_okD [OF ks])
  qed
qed

end

end
