(* ===== verification/Sim_Enqueue.thy ===== *)
theory Sim_Enqueue
  imports Sim_Lease Script_Enqueue Script_Operator
begin

text \<open>
  The enqueue and reschedule operations of the enqueue script refine operations on one job of the
  abstract queue. The abstract operations follow the enqueue policy of the protocol document.
\<close>

section \<open>Abstract operations\<close>

fun score_of :: "placement \<Rightarrow> int" where
  "score_of Absent = 0"
| "score_of (At_ready s) = s"
| "score_of (At_scheduled s) = s"
| "score_of (At_leased d w t) = d"
| "score_of (At_failed s) = s"

text \<open>A schedule in the past means now.\<close>

definition target :: "int \<Rightarrow> int \<Rightarrow> placement" where
  "target now requested =
     (if requested = 0 \<or> requested \<le> now then At_ready now else At_scheduled requested)"

definition enqueue_now_spec :: "int \<Rightarrow> job \<Rightarrow> job \<times> string list" where
  "enqueue_now_spec now x =
     (case place x of
        Absent \<Rightarrow> (x\<lparr>place := At_ready now\<rparr>, [''ok'', ''created'', ''ready'', ''0''])
      | At_ready s \<Rightarrow> (x, [''ok'', ''unchanged'', ''ready'', ''0''])
      | At_scheduled s \<Rightarrow>
          (x\<lparr>place := At_ready now, again := False\<rparr>, [''ok'', ''updated'', ''ready'', ''0''])
      | At_leased d w t \<Rightarrow>
          (x\<lparr>again := True\<rparr>,
           [''ok'', if again x then ''unchanged'' else ''updated'', ''leased'', ''0''])
      | At_failed s \<Rightarrow> (fresh (At_ready now), [''ok'', ''updated'', ''ready'', ''0'']))"

text \<open>Moving a waiting job, under the replacement policy.\<close>

definition move_spec :: "placement \<Rightarrow> job \<Rightarrow> job \<times> string list" where
  "move_spec p x =
     (x\<lparr>place := p, again := False\<rparr>, [''ok'', ''updated'', state_name p, schedule_text p])"

definition keep_spec :: "job \<Rightarrow> job \<times> string list" where
  "keep_spec x = (x, [''ok'', ''unchanged'', state_name (place x), schedule_text (place x)])"

definition schedule_spec :: "string \<Rightarrow> int \<Rightarrow> int \<Rightarrow> job \<Rightarrow> job \<times> string list" where
  "schedule_spec replace_mode now requested x =
     (let p = target now requested
      in case place x of
           Absent \<Rightarrow> (x\<lparr>place := p, again := False\<rparr>,
                      [''ok'', ''created'', state_name p, schedule_text p])
         | At_leased d w t \<Rightarrow> (x, [''err'', ''invalid_state'', ''leased''])
         | At_failed s \<Rightarrow>
             (fresh p, [''ok'', ''updated'', state_name p,
                        lua_tostring (case p of At_scheduled s \<Rightarrow> s | _ \<Rightarrow> 0)])
         | q \<Rightarrow>
             (if q = p then keep_spec x
              else if \<not> should_replace replace_mode (score_of p) (score_of q) then keep_spec x
              else move_spec p x))"

definition reschedule_spec :: "string \<Rightarrow> int \<Rightarrow> int \<Rightarrow> job \<Rightarrow> job \<times> string list" where
  "reschedule_spec replace_mode now requested x =
     (let p = target now requested
      in case place x of
           Absent \<Rightarrow> (x, [''err'', ''not_found''])
         | At_leased d w t \<Rightarrow> (x, [''err'', ''invalid_state'', ''leased''])
         | At_failed s \<Rightarrow> (x, [''err'', ''invalid_state'', ''failed''])
         | q \<Rightarrow>
             (if \<not> should_replace replace_mode (score_of p) (score_of q) then keep_spec x
              else if q = p then keep_spec x
              else move_spec p x))"

fun waiting :: "placement \<Rightarrow> bool" where
  "waiting (At_ready s) = True"
| "waiting (At_scheduled s) = True"
| "waiting _ = False"

lemma waiting_target [simp]: "waiting (target now r)"
  by (simp add: target_def)

lemma waiting_not_leased: "waiting p \<Longrightarrow> \<not> is_leased p"
  by (cases p) auto

lemma waiting_name:
  "waiting p \<Longrightarrow> state_name p \<noteq> ''none''" "waiting p \<Longrightarrow> state_name p \<noteq> ''leased''"
  "waiting p \<Longrightarrow> state_name p \<noteq> ''failed''"
  by (cases p; simp)+

lemma waiting_same:
  "waiting p \<Longrightarrow> waiting q \<Longrightarrow>
   (state_name p = state_name q \<and> score_of p = score_of q) = (p = q)"
  by (cases p; cases q) auto

lemma waiting_existing:
  "waiting p \<Longrightarrow> show_int (existing_schedule (state_name p) (score_of p)) = schedule_text p"
  by (cases p) (simp_all add: existing_schedule_def show_int_0_iff)

text \<open>The decision both operations make about a waiting job.\<close>

lemma reschedule_spec_waiting:
  "waiting (place x) \<Longrightarrow> reschedule_spec m now q x =
    (if \<not> should_replace m (score_of (target now q)) (score_of (place x)) then keep_spec x
     else if place x = target now q then keep_spec x
     else move_spec (target now q) x)"
  by (cases "place x") (simp_all add: reschedule_spec_def Let_def)

lemma schedule_spec_waiting:
  "waiting (place x) \<Longrightarrow> schedule_spec m now q x =
    (if place x = target now q then keep_spec x
     else if \<not> should_replace m (score_of (target now q)) (score_of (place x)) then keep_spec x
     else move_spec (target now q) x)"
  by (cases "place x") (simp_all add: schedule_spec_def Let_def)

lemma target_not_leased [simp]: "\<not> is_leased (target now r)" "target now r \<noteq> Absent"
  by (simp_all add: target_def)

lemma normalize_target_eq:
  "normalize_target now r =
     (state_name (target now r), score_of (target now r),
      case target now r of At_scheduled s \<Rightarrow> s | _ \<Rightarrow> 0)"
  by (simp add: normalize_target_def target_def)

lemma show_int_zero [simp]: "show_int 0 = ''0''"
  by (simp add: show_int_0_iff)

lemma schedule_text_target:
  "show_int (case target now r of At_scheduled s \<Rightarrow> s | _ \<Rightarrow> 0) = schedule_text (target now r)"
  by (simp add: target_def)


section \<open>Simulation\<close>

context redis_service begin

text \<open>Storing a job whose entries have been removed from all sorted sets.\<close>

lemma move_put:
  assumes ks: "keys_ok ks" and rep: "represents R ks db J" and old: "\<not> is_leased (place (J j))"
    and p: "\<not> is_leased p"
    and none: "\<forall>k \<in> {ready ks, scheduled ks, leased ks, failed ks}. zscore R db' k j = None"
    and z: "\<And>k i. i \<noteq> j \<Longrightarrow> zscore R db' k i = zscore R db k i"
    and m: "\<And>i. hget R db' (lease_meta ks) i = hget R db (lease_meta ks) i"
    and f: "\<And>i. hget R db' (failures ks) i =
      (if i = j then count_text n else hget R db (failures ks) i)"
    and s: "\<And>i. sis R db' (rerun ks) i = (i \<noteq> j \<and> sis R db (rerun ks) i)"
    and c: "\<And>v. hget R db' (workers_leases ks) v = hget R db (workers_leases ks) v"
  shows "represents R ks (put_placement R ks j p db')
      (J(j := \<lparr>place = p, fails = n, again = False\<rparr>))"
    and "counts_leases R ks db J \<Longrightarrow>
      counts_leases R ks (put_placement R ks j p db') (J(j := \<lparr>place = p, fails = n, again = False\<rparr>))"
proof -
  note put = put_placement_scores [OF ks p none]
  show "represents R ks (put_placement R ks j p db')
      (J(j := \<lparr>place = p, fails = n, again = False\<rparr>))"
    by (rule represents_update [OF rep])
       (use p old in \<open>simp_all add: put z m f s meta_of_not_leased representsD [OF rep]\<close>)
  assume cl: "counts_leases R ks db J"
  show "counts_leases R ks (put_placement R ks j p db')
      (J(j := \<lparr>place = p, fails = n, again = False\<rparr>))"
    by (rule counts_unchanged [OF cl rep]) (use p old in \<open>auto simp: c dest: leased_by_is_leased\<close>)
qed

lemma current_state_eq:
  assumes "represents R ks db J"
  shows "current_state R (ready ks) (scheduled ks) (leased ks) (failed ks) j db =
    (state_name (place (J j)), score_of (place (J j)))"
  by (cases "place (J j)") (simp_all add: current_state_def representsD [OF assms])

lemma unleased_no_rerun: "represents R ks db J \<Longrightarrow> \<not> is_leased (place (J j)) \<Longrightarrow> \<not> again (J j)"
  using representsD(8) [of R ks db J j] by auto

lemma add_target_eq:
  "\<not> is_leased p \<Longrightarrow> p \<noteq> Absent \<Longrightarrow> failed_at p = None \<Longrightarrow>
   add_target R (ready ks) (scheduled ks) j (state_name p) (score_of p) db = put_placement R ks j p db"
  by (cases p) (simp_all add: add_target_def)

lemma target_not_failed [simp]: "failed_at (target now r) = None"
  by (simp add: target_def)

lemmas add_target_target = add_target_eq [OF target_not_leased target_not_failed]

text \<open>Moving a waiting job: out of its sorted set, rerun request cleared, into the other.\<close>

lemma move_refines:
  assumes ks: "keys_ok ks" and rep: "represents R ks db J" and "\<not> is_leased p"
    and wait: "waiting (place (J j))"
  defines "db' \<equiv> put_placement R ks j p (fst (srem R
      (remove_waiting R (ready ks) (scheduled ks) j (state_name (place (J j))) db) (rerun ks) j))"
  shows "represents R ks db' (J(j := (J j)\<lparr>place := p, again := False\<rparr>))"
    and "counts_leases R ks db J \<Longrightarrow>
      counts_leases R ks db' (J(j := (J j)\<lparr>place := p, again := False\<rparr>))"
proof -
  have waiting: "(\<exists>s. place (J j) = At_ready s) \<or> (\<exists>s. place (J j) = At_scheduled s)"
    using wait by (cases "place (J j)") auto
  let ?db0 = "fst (srem R (remove_waiting R (ready ks) (scheduled ks) j
    (state_name (place (J j))) db) (rerun ks) j)"
  have old: "\<not> is_leased (place (J j))" using waiting by auto
  have eq: "(J j)\<lparr>place := p, again := False\<rparr> = \<lparr>place = p, fails = fails (J j), again = False\<rparr>"
    by simp
  have none: "\<forall>k \<in> {ready ks, scheduled ks, leased ks, failed ks}. zscore R ?db0 k j = None"
    using waiting by (auto simp: remove_waiting_def keys_okD [OF ks] representsD [OF rep])
  note mv = move_put [OF ks rep old assms(3) none, of "fails (J j)"]
  show "represents R ks db' (J(j := (J j)\<lparr>place := p, again := False\<rparr>))"
    unfolding eq db'_def
    by (rule mv) (use waiting in \<open>auto simp: remove_waiting_def keys_okD [OF ks] representsD [OF rep]\<close>)
  show "counts_leases R ks db J \<Longrightarrow>
      counts_leases R ks db' (J(j := (J j)\<lparr>place := p, again := False\<rparr>))"
    unfolding eq db'_def
    by (rule mv) (use waiting in \<open>auto simp: remove_waiting_def keys_okD [OF ks] representsD [OF rep]\<close>)
qed

text \<open>Dropping a job that is not leased, with its counter.\<close>

lemma drop_refines:
  assumes ks: "keys_ok ks" and rep: "represents R ks db J"
    and p: "\<not> is_leased p"
    and at: "place (J j) = At_scheduled s \<and> source = scheduled ks \<or>
      place (J j) = At_failed s \<and> source = failed ks"
  defines "db' \<equiv> put_placement R ks j p (drop_job R source (failures ks) (rerun ks) j db)"
  shows "represents R ks db' (J(j := fresh p))"
    and "counts_leases R ks db J \<Longrightarrow> counts_leases R ks db' (J(j := fresh p))"
proof -
  have old: "\<not> is_leased (place (J j))" using at by auto
  have none: "\<forall>k \<in> {ready ks, scheduled ks, leased ks, failed ks}.
      zscore R (drop_job R source (failures ks) (rerun ks) j db) k j = None"
    using at by (auto simp: drop_job_def Let_def keys_okD [OF ks] representsD [OF rep])
  note mv = move_put [OF ks rep old p none, of 0]
  show "represents R ks db' (J(j := fresh p))"
    unfolding fresh_def db'_def
    by (rule mv) (simp_all add: drop_job_def Let_def keys_okD [OF ks])
  show "counts_leases R ks db J \<Longrightarrow> counts_leases R ks db' (J(j := fresh p))"
    unfolding fresh_def db'_def
    by (rule mv) (simp_all add: drop_job_def Let_def keys_okD [OF ks])
qed

lemma clear_failed_drop:
  "clear_failed R (failed ks) (failures ks) (rerun ks) j db =
   drop_job R (failed ks) (failures ks) (rerun ks) j db"
  by (simp add: clear_failed_def drop_job_def)

text \<open>A new job: the id is in no sorted set.\<close>

lemma create_refines:
  assumes ks: "keys_ok ks" and rep: "represents R ks db J"
    and p: "\<not> is_leased p" and at: "place (J j) = Absent"
    and same: "zscore R db0 = zscore R db" "hget R db0 = hget R db"
      "\<And>i. sis R db0 (rerun ks) i = (i \<noteq> j \<and> sis R db (rerun ks) i)"
  defines "db' \<equiv> put_placement R ks j p db0"
  shows "represents R ks db' (J(j := (J j)\<lparr>place := p, again := False\<rparr>))"
    and "counts_leases R ks db J \<Longrightarrow>
      counts_leases R ks db' (J(j := (J j)\<lparr>place := p, again := False\<rparr>))"
proof -
  have eq: "(J j)\<lparr>place := p, again := False\<rparr> = \<lparr>place = p, fails = fails (J j), again = False\<rparr>"
    by simp
  have old: "\<not> is_leased (place (J j))" using at by auto
  have none: "\<forall>k \<in> {ready ks, scheduled ks, leased ks, failed ks}. zscore R db0 k j = None"
    using at by (simp add: same representsD [OF rep])
  note mv = move_put [OF ks rep old p none, of "fails (J j)"]
  show "represents R ks db' (J(j := (J j)\<lparr>place := p, again := False\<rparr>))"
    unfolding eq db'_def by (rule mv) (simp_all add: same representsD [OF rep])
  show "counts_leases R ks db J \<Longrightarrow>
      counts_leases R ks db' (J(j := (J j)\<lparr>place := p, again := False\<rparr>))"
    unfolding eq db'_def by (rule mv) (simp_all add: same representsD [OF rep])
qed

text \<open>The part the reschedule and the scheduled enqueue operation share.\<close>

lemma moved:
  assumes ks: "keys_ok ks" and rep: "represents R ks db J" and wait: "waiting (place (J j))"
    and run: "r = (add_target R (ready ks) (scheduled ks) j (state_name (target now q))
      (score_of (target now q)) (fst (srem R (remove_waiting R (ready ks) (scheduled ks) j
        (state_name (place (J j))) db) (rerun ks) j)),
      Reply [''ok'', ''updated'', state_name (target now q), schedule_text (target now q)])"
  shows "refines_job R ks db J j r (move_spec (target now q) (J j))"
  by (rule refines_jobI [OF _ _ move_refines [OF ks rep target_not_leased(1) wait]])
     (simp_all add: run move_spec_def add_target_target)

lemma kept:
  assumes "represents R ks db J"
    and "r = (db, Reply [''ok'', ''unchanged'', state_name (place (J j)), schedule_text (place (J j))])"
  shows "refines_job R ks db J j r (keep_spec (J j))"
  using assms by (simp add: refines_job_def keep_spec_def)

lemmas enqueue_simps = int_string_def schedule_text_target waiting_same waiting_existing waiting_name

lemma reschedule_part_refines:
  assumes ks: "keys_ok ks" and rep: "represents R ks db J" and wait: "waiting (place (J j))"
  shows "refines_job R ks db J j
    (reschedule_part R (ready ks) (scheduled ks) (rerun ks) j now q m (state_name (place (J j)))
       (score_of (place (J j))) db)
    (if \<not> should_replace m (score_of (target now q)) (score_of (place (J j))) then keep_spec (J j)
     else if place (J j) = target now q then keep_spec (J j)
     else move_spec (target now q) (J j))"
proof -
  note same = waiting_same [OF wait waiting_target [of now q]]
  consider (no) "\<not> should_replace m (score_of (target now q)) (score_of (place (J j)))"
    | (eq) "should_replace m (score_of (target now q)) (score_of (place (J j)))"
        "place (J j) = target now q"
    | (move) "should_replace m (score_of (target now q)) (score_of (place (J j)))"
        "place (J j) \<noteq> target now q"
    by blast
  then show ?thesis
  proof cases
    case no
    then show ?thesis
      using kept [OF rep] wait
      by (simp add: reschedule_part_def normalize_target_eq waiting_name [OF wait]
          waiting_existing [OF wait] int_string_def)
  next
    case eq
    then show ?thesis
      using kept [OF rep refl, of j]
      by (simp add: reschedule_part_def normalize_target_eq waiting_name
          schedule_text_target int_string_def)
  next
    case move
    then show ?thesis
      using moved [OF ks rep wait]
      by (simp add: reschedule_part_def normalize_target_eq waiting_name [OF wait] same
          schedule_text_target int_string_def Let_def)
  qed
qed

lemma reschedule_refines:
  assumes ks: "keys_ok ks" and rep: "represents R ks db J"
  shows "refines_job R ks db J j
    (enqueue_or_reschedule_lua R
       [failures ks, ready ks, scheduled ks, leased ks, failed ks, rerun ks]
       [''reschedule'', j, n, q, m] db)
    (reschedule_spec m (lua_number n) (lua_number q) (J j))"
proof (cases "waiting (place (J j))")
  case False
  then show ?thesis
    by (cases "place (J j)")
       (simp_all add: refines_job_def rep current_state_eq [OF rep] reschedule_part_def
          reschedule_spec_def)
next
  case True
  show ?thesis
    using reschedule_part_refines [OF ks rep True, of "lua_number n" "lua_number q" m]
    by (simp add: current_state_eq [OF rep] reschedule_spec_waiting [OF True])
qed

text \<open>Immediate enqueue.\<close>

lemma drop_failed:
  assumes "keys_ok ks" "represents R ks db J" "place (J j) = At_failed s" "\<not> is_leased p"
    and "r = (put_placement R ks j p (drop_job R (failed ks) (failures ks) (rerun ks) j db), Reply rs)"
  shows "refines_job R ks db J j r (fresh p, rs)"
  by (rule refines_jobI [OF assms(5) refl drop_refines [OF assms(1,2,4)]]) (use assms(3) in auto)

lemma reactivate_failed:
  assumes ks: "keys_ok ks" and rep: "represents R ks db J" and at: "place (J j) = At_failed s"
    and p: "\<not> is_leased p"
    and run: "r = (put_placement R ks j p (fst (srem R
      (drop_job R (failed ks) (failures ks) (rerun ks) j db) (rerun ks) j)), Reply rs)"
  shows "refines_job R ks db J j r (fresh p, rs)"
proof -
  let ?db0 = "fst (srem R (drop_job R (failed ks) (failures ks) (rerun ks) j db) (rerun ks) j)"
  have old: "\<not> is_leased (place (J j))" by (simp add: at)
  have none: "\<forall>k \<in> {ready ks, scheduled ks, leased ks, failed ks}. zscore R ?db0 k j = None"
    by (simp add: at drop_job_def Let_def keys_okD [OF ks] representsD [OF rep])
  note mv = move_put [OF ks rep old p none, of 0]
  show ?thesis
    by (rule refines_jobI [OF run refl]; unfold fresh_def; rule mv)
       (simp_all add: drop_job_def Let_def keys_okD [OF ks])
qed

lemma rerun_refines:
  assumes ks: "keys_ok ks" and rep: "represents R ks db J" and l: "is_leased (place (J j))"
    and run: "r = (fst (sadd R db (rerun ks) j), Reply rs)"
  shows "refines_job R ks db J j r ((J j)\<lparr>again := True\<rparr>, rs)"
proof (rule refines_jobI [OF run refl])
  show "represents R ks (fst (sadd R db (rerun ks) j)) (J(j := (J j)\<lparr>again := True\<rparr>))"
    by (rule represents_update [OF rep]) (simp_all add: representsD [OF rep] l)
  assume c: "counts_leases R ks db J"
  show "counts_leases R ks (fst (sadd R db (rerun ks) j)) (J(j := (J j)\<lparr>again := True\<rparr>))"
    by (rule counts_unchanged [OF c rep]) simp_all
qed

lemma enqueue_now_refines:
  assumes ks: "keys_ok ks" and rep: "represents R ks db J"
  shows "refines_job R ks db J j
    (enqueue_or_reschedule_lua R
       [failures ks, ready ks, scheduled ks, leased ks, failed ks, rerun ks]
       [''enqueue_immediate'', j, n, q, m] db)
    (enqueue_now_spec (lua_number n) (J j))"
proof (cases "place (J j)")
  case Absent
  then have nr: "\<not> again (J j)" using unleased_no_rerun [OF rep, of j] by simp
  have eq: "(J j)\<lparr>place := p\<rparr> = (J j)\<lparr>place := p, again := False\<rparr>" for p
    using nr by (cases "J j") simp
  have rr: "sis R db (rerun ks) i = (i \<noteq> j \<and> sis R db (rerun ks) i)" for i
    using nr representsD(7) [OF rep, of j] by auto
  show ?thesis
    by (rule refines_jobI [OF _ _ create_refines
          [OF ks rep _ Absent refl refl rr, of "At_ready (lua_number n)"]])
       (simp_all add: Absent current_state_eq [OF rep] immediate_part_def enqueue_now_spec_def
          flip: eq)
next
  case (At_ready s)
  then show ?thesis
    by (simp add: refines_job_def rep current_state_eq [OF rep] immediate_part_def
        enqueue_now_spec_def)
next
  case (At_scheduled s)
  then have w: "waiting (place (J j))" by simp
  show ?thesis
    by (rule refines_jobI [OF _ _ move_refines [OF ks rep _ w, of "At_ready (lua_number n)"]])
       (simp_all add: At_scheduled current_state_eq [OF rep] immediate_part_def Let_def
          enqueue_now_spec_def remove_waiting_def)
next
  case (At_leased d w t)
  then show ?thesis
    using rerun_refines [OF ks rep, of j]
    by (simp add: current_state_eq [OF rep] immediate_part_def enqueue_now_spec_def Let_def
        split_def representsD [OF rep])
next
  case (At_failed s)
  show ?thesis
    unfolding enqueue_now_spec_def At_failed placement.case
    by (rule drop_failed [OF ks rep At_failed])
       (simp_all add: At_failed current_state_eq [OF rep] immediate_part_def clear_failed_drop)
qed

text \<open>Scheduled enqueue.\<close>

lemma scheduled_part_refines:
  assumes ks: "keys_ok ks" and rep: "represents R ks db J" and wait: "waiting (place (J j))"
  shows "refines_job R ks db J j
    (scheduled_part R (ready ks) (scheduled ks) (rerun ks) j now q m False
       (state_name (place (J j))) (score_of (place (J j))) db)
    (schedule_spec m now q (J j))"
proof -
  note same = waiting_same [OF wait waiting_target [of now q]]
  consider (eq) "place (J j) = target now q"
    | (no) "place (J j) \<noteq> target now q"
        "\<not> should_replace m (score_of (target now q)) (score_of (place (J j)))"
    | (move) "place (J j) \<noteq> target now q"
        "should_replace m (score_of (target now q)) (score_of (place (J j)))"
    by blast
  then show ?thesis
  proof cases
    case eq
    then show ?thesis
      using kept [OF rep refl, of j]
      by (simp add: schedule_spec_waiting [OF wait] scheduled_part_def normalize_target_eq
          waiting_name schedule_text_target int_string_def)
  next
    case no
    then show ?thesis
      using kept [OF rep refl, of j]
      by (simp add: schedule_spec_waiting [OF wait] scheduled_part_def normalize_target_eq
          waiting_name [OF wait] waiting_existing [OF wait] same int_string_def)
  next
    case move
    then show ?thesis
      using moved [OF ks rep wait]
      by (simp add: schedule_spec_waiting [OF wait] scheduled_part_def normalize_target_eq
          waiting_name [OF wait] same schedule_text_target int_string_def Let_def)
  qed
qed

lemma schedule_refines:
  assumes ks: "keys_ok ks" and rep: "represents R ks db J"
  shows "refines_job R ks db J j
    (enqueue_or_reschedule_lua R
       [failures ks, ready ks, scheduled ks, leased ks, failed ks, rerun ks]
       [''enqueue_scheduled'', j, n, q, m] db)
    (schedule_spec m (lua_number n) (lua_number q) (J j))"
proof (cases "place (J j)")
  case Absent
  let ?p = "target (lua_number n) (lua_number q)"
  show ?thesis
    by (rule refines_jobI [OF _ _ create_refines
          [OF ks rep target_not_leased(1) Absent, of "fst (srem R db (rerun ks) j)"]])
       (simp_all add: Absent current_state_eq [OF rep] scheduled_part_def normalize_target_eq
          schedule_spec_def schedule_text_target int_string_def add_target_target Let_def)
next
  case (At_leased d w t)
  then show ?thesis
    by (simp add: refines_job_def rep current_state_eq [OF rep] scheduled_part_def
        schedule_spec_def)
next
  case (At_failed s)
  show ?thesis
    unfolding schedule_spec_def At_failed placement.case Let_def
    by (rule reactivate_failed [OF ks rep At_failed target_not_leased(1)])
       (simp add: At_failed current_state_eq [OF rep] scheduled_part_def normalize_target_eq
          clear_failed_drop add_target_target Let_def)
qed (use scheduled_part_refines [OF ks rep, of j] current_state_eq [OF rep, of j] in simp_all)

end

end
