(* ===== verification/Sim_Operator.thy ===== *)
theory Sim_Operator
  imports Sim_Enqueue
begin

text \<open>
  The operator script refines operations on one job of the abstract queue: cancel, requeue and
  retry_now, force_retry, and the forced acknowledgement and failure of a leased job.
\<close>

section \<open>Abstract operations\<close>

definition invalid_state :: "placement \<Rightarrow> string list" where
  "invalid_state p = [''err'', ''invalid_state'', state_name p]"

definition cancel_spec :: "job \<Rightarrow> job \<times> string list" where
  "cancel_spec x =
     (case place x of
        Absent \<Rightarrow> (x, [''err'', ''not_found''])
      | At_scheduled s \<Rightarrow> (fresh Absent, [''ok''])
      | At_failed s \<Rightarrow> (fresh Absent, [''ok''])
      | p \<Rightarrow> (x, invalid_state p))"

definition requeue_spec :: "int \<Rightarrow> job \<Rightarrow> job \<times> string list" where
  "requeue_spec now x =
     (case place x of
        Absent \<Rightarrow> (x, [''err'', ''not_found''])
      | At_ready s \<Rightarrow> (x, [''ok''])
      | At_scheduled s \<Rightarrow> (x\<lparr>place := At_ready now, again := False\<rparr>, [''ok''])
      | At_leased d w t \<Rightarrow> (x, invalid_state (place x))
      | At_failed s \<Rightarrow> (fresh (At_ready now), [''ok'']))"

definition force_retry_spec :: "int \<Rightarrow> job \<Rightarrow> job \<times> string list" where
  "force_retry_spec now x =
     (case place x of
        Absent \<Rightarrow> (x, [''err'', ''not_found''])
      | At_failed s \<Rightarrow> (fresh (At_ready now), [''ok''])
      | p \<Rightarrow> (x, invalid_state p))"

definition force_ack_spec :: "int \<Rightarrow> job \<Rightarrow> job \<times> string list" where
  "force_ack_spec now x =
     (case place x of
        Absent \<Rightarrow> (x, [''err'', ''not_found''])
      | At_leased d w t \<Rightarrow> (fresh (if again x then At_ready now else Absent), [''ok''])
      | p \<Rightarrow> (x, invalid_state p))"

definition force_fail_spec :: "int \<Rightarrow> job \<Rightarrow> job \<times> string list" where
  "force_fail_spec now x =
     (case place x of
        Absent \<Rightarrow> (x, [''err'', ''not_found''])
      | At_leased d w t \<Rightarrow>
          (\<lparr>place = At_failed now, fails = Suc (fails x), again = False\<rparr>, [''ok''])
      | p \<Rightarrow> (x, invalid_state p))"


section \<open>Simulation\<close>

context redis_service begin

lemma operator_state_eq:
  assumes "represents R ks db J"
  shows "operator_state R (ready ks) (scheduled ks) (leased ks) (failed ks) j db =
    state_name (place (J j))"
  by (cases "place (J j)") (simp_all add: operator_state_def representsD [OF assms])

text \<open>A job in a waiting or failed set is dropped and stored again (or not at all).\<close>

lemma dropped:
  assumes ks: "keys_ok ks" and rep: "represents R ks db J" and p: "\<not> is_leased p"
    and at: "place (J j) = At_scheduled s \<and> source = scheduled ks \<or>
      place (J j) = At_failed s \<and> source = failed ks"
    and run: "r = (put_placement R ks j p (drop_job R source (failures ks) (rerun ks) j db), Reply rs)"
  shows "refines_job R ks db J j r (fresh p, rs)"
  by (rule refines_jobI [OF run refl]; rule drop_refines [OF ks rep p at])

lemma cancel_refines:
  assumes ks: "keys_ok ks" and rep: "represents R ks db J"
  shows "refines_job R ks db J j
    (operator_transition_lua R
       [failures ks, ready ks, scheduled ks, leased ks, lease_meta ks, failed ks,
        workers_leases ks, rerun ks]
       [''cancel'', j, n] db)
    (cancel_spec (J j))"
proof (cases "place (J j)")
  case (At_scheduled s)
  then show ?thesis
    using dropped [OF ks rep, of Absent j s "scheduled ks"]
    by (simp add: operator_state_eq [OF rep] cancel_spec_def)
next
  case (At_failed s)
  then show ?thesis
    using dropped [OF ks rep, of Absent j s "failed ks"]
    by (simp add: operator_state_eq [OF rep] cancel_spec_def)
qed (simp_all add: refines_job_def rep operator_state_eq [OF rep] cancel_spec_def invalid_state_def)

lemma requeue_refines:
  assumes ks: "keys_ok ks" and rep: "represents R ks db J"
    and oper: "operation \<in> {''requeue'', ''retry_now''}"
  shows "refines_job R ks db J j
    (operator_transition_lua R
       [failures ks, ready ks, scheduled ks, leased ks, lease_meta ks, failed ks,
        workers_leases ks, rerun ks]
       [operation, j, n] db)
    (requeue_spec (lua_number n) (J j))"
proof -
  have op: "operation \<noteq> ''cancel''" "operation = ''requeue'' \<or> operation = ''retry_now''"
    using oper by auto
  show ?thesis
  proof (cases "place (J j)")
    case (At_scheduled s)
    then have w: "waiting (place (J j))" by simp
    show ?thesis
      by (rule refines_jobI [OF _ _ move_refines [OF ks rep _ w, of "At_ready (lua_number n)"]])
         (simp_all add: op At_scheduled operator_state_eq [OF rep] Let_def
            requeue_spec_def remove_waiting_def)
  next
    case (At_failed s)
    then show ?thesis
      using dropped [OF ks rep, of "At_ready (lua_number n)" j s "failed ks"]
      by (simp add: op operator_state_eq [OF rep] requeue_spec_def)
  qed (simp_all add: op refines_job_def rep operator_state_eq [OF rep] requeue_spec_def
        invalid_state_def)
qed

lemma force_retry_refines:
  assumes ks: "keys_ok ks" and rep: "represents R ks db J"
  shows "refines_job R ks db J j
    (operator_transition_lua R
       [failures ks, ready ks, scheduled ks, leased ks, lease_meta ks, failed ks,
        workers_leases ks, rerun ks]
       [''force_retry'', j, n] db)
    (force_retry_spec (lua_number n) (J j))"
proof (cases "place (J j)")
  case (At_failed s)
  then show ?thesis
    using dropped [OF ks rep, of "At_ready (lua_number n)" j s "failed ks"]
    by (simp add: operator_state_eq [OF rep] force_retry_spec_def)
qed (simp_all add: refines_job_def rep operator_state_eq [OF rep] force_retry_spec_def
      invalid_state_def)

text \<open>The worker is recovered from the stored metadata.\<close>

lemma force_ack_refines:
  assumes ks: "keys_ok ks" and rep: "represents R ks db J"
  shows "refines_job R ks db J j
    (operator_transition_lua R
       [failures ks, ready ks, scheduled ks, leased ks, lease_meta ks, failed ks,
        workers_leases ks, rerun ks]
       [''force_ack'', j, n] db)
    (force_ack_spec (lua_number n) (J j))"
proof (cases "place (J j)")
  case (At_leased e w t)
  then have held: "leased_to (place (J j)) w t" by simp
  define db2 where "db2 = hdel R (zrem R db (leased ks) j) (lease_meta ks) j"
  define db5 where "db5 =
    fst (srem R (hdel R (decrement_worker R (workers_leases ks) w db2) (failures ks) j) (rerun ks) j)"
  define p where "p = (if again (J j) then At_ready (lua_number n) else Absent)"
  have reads: "sis R db2 = sis R db" by (simp add: db2_def)
  have p_unleased: "\<not> is_leased p" by (simp add: p_def)
  note rel = release_put [OF ks rep held p_unleased, of db5 0 db2]
  show ?thesis
  proof (rule refines_jobI)
    show "operator_transition_lua R
       [failures ks, ready ks, scheduled ks, leased ks, lease_meta ks, failed ks,
        workers_leases ks, rerun ks]
       [''force_ack'', j, n] db = (put_placement R ks j p db5, Reply [''ok''])"
      by (simp add: At_leased operator_state_eq [OF rep] force_part_def representsD [OF rep]
          Let_def split_def reads p_def flip: db2_def db5_def)
    show "force_ack_spec (lua_number n) (J j) = (\<lparr>place = p, fails = 0, again = False\<rparr>, [''ok''])"
      by (simp add: At_leased force_ack_spec_def p_def fresh_def)
  qed (rule rel; simp add: db5_def db2_def keys_okD [OF ks])+
qed (simp_all add: refines_job_def rep operator_state_eq [OF rep] force_ack_spec_def
      invalid_state_def force_part_def)

lemma force_fail_refines:
  assumes ks: "keys_ok ks" and rep: "represents R ks db J"
  shows "refines_job R ks db J j
    (operator_transition_lua R
       [failures ks, ready ks, scheduled ks, leased ks, lease_meta ks, failed ks,
        workers_leases ks, rerun ks]
       [''force_fail'', j, n] db)
    (force_fail_spec (lua_number n) (J j))"
proof (cases "place (J j)")
  case (At_leased e w t)
  then have held: "leased_to (place (J j)) w t" by simp
  define db2 where "db2 = hdel R (zrem R db (leased ks) j) (lease_meta ks) j"
  define db4 where "db4 = fst (srem R (decrement_worker R (workers_leases ks) w db2) (rerun ks) j)"
  define db5 where "db5 = fst (hincrby R db4 (failures ks) j 1)"
  define p where "p = At_failed (lua_number n)"
  have "hget R db4 (failures ks) j = count_text (fails (J j))"
    by (simp add: db4_def db2_def keys_okD [OF ks] representsD [OF rep])
  note incr = hincrby_Suc [OF this]
  have p_unleased: "\<not> is_leased p" by (simp add: p_def)
  note rel = release_put [OF ks rep held p_unleased, of db5 "Suc (fails (J j))" db2]
  have other: "hget R db5 (failures ks) i = hget R db (failures ks) i" if "i \<noteq> j" for i
    using that by (simp add: db5_def db4_def db2_def keys_okD [OF ks])
  have own: "hget R db5 (failures ks) j = count_text (Suc (fails (J j)))"
    using incr(2) by (simp add: db5_def)
  show ?thesis
  proof (rule refines_jobI)
    show "operator_transition_lua R
       [failures ks, ready ks, scheduled ks, leased ks, lease_meta ks, failed ks,
        workers_leases ks, rerun ks]
       [''force_fail'', j, n] db = (put_placement R ks j p db5, Reply [''ok''])"
      by (simp add: At_leased operator_state_eq [OF rep] force_part_def representsD [OF rep]
          Let_def split_def p_def flip: db2_def db4_def db5_def)
    show "force_fail_spec (lua_number n) (J j) =
      (\<lparr>place = p, fails = Suc (fails (J j)), again = False\<rparr>, [''ok''])"
      by (simp add: At_leased force_fail_spec_def p_def)
  qed (rule rel; (simp add: own other; fail)?; simp add: db5_def db4_def db2_def keys_okD [OF ks])+
qed (simp_all add: refines_job_def rep operator_state_eq [OF rep] force_fail_spec_def
      invalid_state_def force_part_def)

end

end
