(* ===== verification/Sim_Reserve.thy ===== *)
theory Sim_Reserve
  imports Sim_Lease Script_Reserve "HOL-Library.Product_Lexorder"
begin

text \<open>
  Reserve hands out the runnable jobs in activation order, and reap takes back the expired leases
  in deadline order. Both are stated with the sorted list of what may be taken, computed from the
  abstract queue alone; the scripts are shown to walk exactly that list.
\<close>

section \<open>Abstract operations\<close>

text \<open>
  The turn of a job that may run now: its activation score, whether it is still in the schedule
  (a ready job goes first at equal scores), and its id.
\<close>

type_synonym turn = "int \<times> bool \<times> string"

fun turn_of :: "int \<Rightarrow> string \<Rightarrow> placement \<Rightarrow> turn option" where
  "turn_of now j (At_ready s) = Some (s, False, j)"
| "turn_of now j (At_scheduled s) = (if s \<le> now then Some (s, True, j) else None)"
| "turn_of now j _ = None"

definition turns :: "int \<Rightarrow> (string \<Rightarrow> job) \<Rightarrow> turn set" where
  "turns now J = {t. \<exists>j. turn_of now j (place (J j)) = Some t}"

definition turn_order :: "int \<Rightarrow> (string \<Rightarrow> job) \<Rightarrow> turn list" where
  "turn_order now J = sorted_list_of_set (turns now J)"

abbreviation turn_job :: "turn \<Rightarrow> string" where
  "turn_job t \<equiv> snd (snd t)"

definition lease_job :: "string \<Rightarrow> int \<Rightarrow> string \<times> string \<Rightarrow> (string \<Rightarrow> job) \<Rightarrow> string \<Rightarrow> job" where
  "lease_job w deadline g J =
     J(fst g := (J (fst g))\<lparr>place := At_leased deadline w (snd g)\<rparr>)"

text \<open>Leasing a batch of (job, token) pairs.\<close>

definition lease_all ::
    "string \<Rightarrow> int \<Rightarrow> (string \<times> string) list \<Rightarrow> (string \<Rightarrow> job) \<Rightarrow> string \<Rightarrow> job" where
  "lease_all w deadline gs J = fold (lease_job w deadline) gs J"

text \<open>The part of the reply that lists the granted leases.\<close>

definition lease_reply :: "int \<Rightarrow> (string \<times> string) list \<Rightarrow> string list" where
  "lease_reply deadline gs = concat (map (\<lambda>(j, t). [j, t, show_int deadline]) gs)"

lemma lease_all_Nil [simp]: "lease_all w d [] J = J"
  by (simp add: lease_all_def)

lemma lease_all_Cons [simp]: "lease_all w d (g # gs) J = lease_all w d gs (lease_job w d g J)"
  by (simp add: lease_all_def)

lemma lease_reply_simps [simp]:
  "lease_reply d [] = []" "lease_reply d ((j, t) # gs) = j # t # show_int d # lease_reply d gs"
  by (simp_all add: lease_reply_def)

lemma turn_of_job: "turn_of now j p = Some t \<Longrightarrow> turn_job t = j"
  by (cases p) (auto split: if_splits)

lemma turn_of_not_leased: "turn_of now j p = Some t \<Longrightarrow> \<not> is_leased p"
  by (cases p) auto

lemma turns_iff: "t \<in> turns now J \<longleftrightarrow> turn_of now (turn_job t) (place (J (turn_job t))) = Some t"
proof
  assume "t \<in> turns now J"
  then obtain j where j: "turn_of now j (place (J j)) = Some t" by (auto simp: turns_def)
  with turn_of_job [OF j] show "turn_of now (turn_job t) (place (J (turn_job t))) = Some t" by simp
qed (auto simp: turns_def)

lemma turns_update:
  assumes "turn_of now j (place (J j)) = Some t" "turn_of now j (place x) = None"
  shows "turns now (J(j := x)) = turns now J - {t}"
proof (rule set_eqI)
  fix u
  show "u \<in> turns now (J(j := x)) \<longleftrightarrow> u \<in> turns now J - {t}"
    using assms turn_of_job [OF assms(1)] by (cases "turn_job u = j") (auto simp: turns_iff simp del: split_paired_All)
qed

text \<open>A job that is not in the batch keeps its value; one that is keeps its failure counter.\<close>

lemma lease_all_other: "j \<notin> set (map fst gs) \<Longrightarrow> lease_all w d gs J j = J j"
  by (induction gs arbitrary: J) (auto simp: lease_job_def)

lemma lease_all_member:
  "(j, t) \<in> set gs \<Longrightarrow> distinct (map fst gs) \<Longrightarrow>
   lease_all w d gs J j = (J j)\<lparr>place := At_leased d w t\<rparr>"
proof (induction gs arbitrary: J)
  case (Cons g gs)
  show ?case
  proof (cases "g = (j, t)")
    case True
    with Cons.prems show ?thesis by (simp add: lease_all_other lease_job_def)
  next
    case False
    with Cons.prems have "(j, t) \<in> set gs" by auto
    moreover from this have "j \<in> fst ` set gs" by (metis fst_conv image_eqI)
    with Cons.prems(2) have "fst g \<noteq> j" by auto
    ultimately show ?thesis using Cons by (simp add: lease_job_def)
  qed
qed simp

text \<open>The sorted set entry of a turn.\<close>

definition turn_entry :: "namespace_keys \<Rightarrow> turn \<Rightarrow> string \<times> zentry" where
  "turn_entry ks t =
     (if fst (snd t) then scheduled ks else ready ks, ZEntry (fst t) (turn_job t))"

lemma turn_ofE:
  assumes "turn_of now j p = Some t"
  obtains s where "p = At_ready s" "t = (s, False, j)"
    | s where "p = At_scheduled s" "s \<le> now" "t = (s, True, j)"
  using assms by (cases p) (auto split: if_splits)

lemma turnsE:
  assumes "t \<in> turns now J"
  obtains j s where "place (J j) = At_ready s" "t = (s, False, j)"
    | j s where "place (J j) = At_scheduled s" "s \<le> now" "t = (s, True, j)"
  using assms by (auto simp: turns_def elim!: turn_ofE)

lemma lease_all_scheduled:
  "place (lease_all w d gs J j) = At_scheduled s \<Longrightarrow> place (J j) = At_scheduled s"
proof (induction gs arbitrary: J)
  case (Cons g gs)
  from Cons.IH [of "lease_job w d g J"] Cons.prems
  have "place (lease_job w d g J j) = At_scheduled s" by simp
  then show ?case by (auto simp: lease_job_def split: if_splits)
qed simp


section \<open>The reserve loop\<close>

context redis_service begin

lemma finite_placed:
  assumes "represents R ks db J"
  shows "finite {j. place (J j) \<noteq> Absent}"
proof -
  have "{j. place (J j) \<noteq> Absent} \<subseteq>
      (\<Union>k \<in> {ready ks, scheduled ks, leased ks, failed ks}. {j. zscore R db k j \<noteq> None})"
  proof
    fix j
    assume "j \<in> {j. place (J j) \<noteq> Absent}"
    then show "j \<in> (\<Union>k \<in> {ready ks, scheduled ks, leased ks, failed ks}. {j. zscore R db k j \<noteq> None})"
      by (cases "place (J j)") (simp_all add: representsD [OF assms])
  qed
  then show ?thesis by (rule finite_subset) (simp add: finite_zscore del: not_None_eq)
qed

lemma finite_turns:
  assumes "represents R ks db J"
  shows "finite (turns now J)"
proof (rule finite_subset)
  show "turns now J \<subseteq> (\<lambda>j. the (turn_of now j (place (J j)))) ` {j. place (J j) \<noteq> Absent}"
  proof
    fix t
    assume "t \<in> turns now J"
    then obtain j where j: "turn_of now j (place (J j)) = Some t" by (auto simp: turns_def)
    then have "place (J j) \<noteq> Absent" by auto
    with j show "t \<in> (\<lambda>j. the (turn_of now j (place (J j)))) ` {j. place (J j) \<noteq> Absent}"
      by (metis (mono_tags, lifting) image_eqI mem_Collect_eq option.sel)
  qed
qed (simp add: finite_placed [OF assms])

text \<open>No due entry of the schedule is also ready or leased.\<close>

lemma zrangebyscore_mem:
  "e \<in> set (zrangebyscore R db k lo hi lim) \<Longrightarrow>
   zscore R db k (zmember e) = Some (zscore_of e) \<and> in_range lo hi e"
  using zall_zscore [of "zscore_of e" "zmember e" db k]
  by (auto simp: zrangebyscore_filter split: option.splits dest: in_set_takeD)

lemma drop_duplicates_idle:
  assumes "represents R ks db J"
  shows "drop_duplicates n R (ready ks) (scheduled ks) (leased ks) now db
      (due_candidate R (scheduled ks) now db) =
    (db, due_candidate R (scheduled ks) now db)"
proof (cases "due_candidate R (scheduled ks) now db")
  case Nil
  then show ?thesis by (cases n) simp_all
next
  case (Cons e es)
  then have "zscore R db (scheduled ks) (zmember e) = Some (zscore_of e)"
    using zrangebyscore_mem unfolding due_candidate_def by (metis list.set_intros(1))
  then have "place (J (zmember e)) = At_scheduled (zscore_of e)"
    by (cases "place (J (zmember e))") (simp_all add: representsD [OF assms])
  with Cons show ?thesis by (cases n) (simp_all add: representsD [OF assms])
qed

text \<open>The two candidates are the least entries of their sets.\<close>

lemma filter_take_least:
  assumes "sorted xs"
  shows "case take (Suc 0) (filter P xs) of
      [] \<Rightarrow> \<forall>x \<in> set xs. \<not> P x
    | e # es \<Rightarrow> es = [] \<and> e \<in> set xs \<and> P e \<and> (\<forall>x \<in> set xs. P x \<longrightarrow> e \<le> x)"
  using assms
proof (induction xs)
  case (Cons x xs)
  then show ?case by (cases "P x"; cases "filter P xs") auto
qed simp

lemma least_candidate:
  assumes Q: "\<And>j s. zscore R db k j = Some s \<longleftrightarrow> Q j s"
  shows "case take (Suc 0) (filter P (zall R db k)) of
      [] \<Rightarrow> \<forall>j s. Q j s \<longrightarrow> \<not> P (ZEntry s j)
    | e # es \<Rightarrow> es = [] \<and> Q (zmember e) (zscore_of e) \<and> P e \<and>
        (\<forall>j s. Q j s \<longrightarrow> P (ZEntry s j) \<longrightarrow> e \<le> ZEntry s j)"
proof -
  have mem: "ZEntry s j \<in> set (zall R db k) \<longleftrightarrow> Q j s" for j s
    by (simp add: zall_zscore Q)
  have hd: "e \<in> set (zall R db k) \<Longrightarrow> Q (zmember e) (zscore_of e)" for e
    using mem [of "zscore_of e" "zmember e"] by simp
  note least = filter_take_least [OF zall_sorted, of db k P]
  show ?thesis
  proof (cases "take (Suc 0) (filter P (zall R db k))")
    case Nil
    with least mem show ?thesis unfolding Nil list.case by blast
  next
    case (Cons e es)
    with least have "es = []" "e \<in> set (zall R db k)" "P e"
      "\<forall>x \<in> set (zall R db k). P x \<longrightarrow> e \<le> x" unfolding Cons list.case by blast+
    with hd mem show ?thesis unfolding Cons list.case by blast
  qed
qed

lemma ready_candidate:
  assumes "represents R ks db J"
  shows "case zrange R db (ready ks) 0 0 of
      [] \<Rightarrow> \<forall>j s. place (J j) \<noteq> At_ready s
    | e # es \<Rightarrow> es = [] \<and> place (J (zmember e)) = At_ready (zscore_of e) \<and>
        (\<forall>j s. place (J j) = At_ready s \<longrightarrow> e \<le> ZEntry s j)"
proof -
  have "zscore R db (ready ks) j = Some s \<longleftrightarrow> place (J j) = At_ready s" for j s
    by (cases "place (J j)") (simp_all add: representsD [OF assms])
  from least_candidate [OF this, where P = "\<lambda>_. True"] show ?thesis
    by (simp add: zrange_slice cong: list.case_cong)
qed

lemma scheduled_candidate:
  assumes "represents R ks db J"
  shows "case due_candidate R (scheduled ks) now db of
      [] \<Rightarrow> \<forall>j s. place (J j) = At_scheduled s \<longrightarrow> \<not> s \<le> now
    | e # es \<Rightarrow> es = [] \<and> place (J (zmember e)) = At_scheduled (zscore_of e) \<and> zscore_of e \<le> now \<and>
        (\<forall>j s. place (J j) = At_scheduled s \<longrightarrow> s \<le> now \<longrightarrow> e \<le> ZEntry s j)"
proof -
  have "zscore R db (scheduled ks) j = Some s \<longleftrightarrow> place (J j) = At_scheduled s" for j s
    by (cases "place (J j)") (simp_all add: representsD [OF assms])
  from least_candidate [OF this, where P = "in_range NegInf (Incl now)"] show ?thesis
    by (simp add: due_candidate_def zrangebyscore_filter in_range_def cong: list.case_cong)
qed

text \<open>The script chooses the least turn.\<close>

lemma choose_turn:
  assumes rep: "represents R ks db J"
  shows "choose_source (ready ks) (scheduled ks) (zrange R db (ready ks) 0 0)
      (due_candidate R (scheduled ks) now db) =
    (case turn_order now J of [] \<Rightarrow> None | t # ts \<Rightarrow> Some (turn_entry ks t))"
proof -
  let ?r = "zrange R db (ready ks) 0 0" and ?s = "due_candidate R (scheduled ks) now db"
  note cand = ready_candidate [OF rep] scheduled_candidate [OF rep, of now]
  have pick: ?thesis
    if "t \<in> turns now J" "\<forall>u \<in> turns now J. t \<le> u"
      and "choose_source (ready ks) (scheduled ks) ?r ?s = Some (turn_entry ks t)" for t
  proof -
    have "Min (turns now J) = t"
      using that by (intro Min_eqI) (auto simp: finite_turns [OF rep])
    moreover have "turns now J \<noteq> {}" using that(1) by blast
    ultimately have "turn_order now J = t # sorted_list_of_set (turns now J - {t})"
      using sorted_list_of_set_nonempty [OF finite_turns [OF rep]] by (simp add: turn_order_def)
    then show ?thesis using that(3) by simp
  qed
  show ?thesis
  proof (cases ?r)
    case r: Nil
    show ?thesis
    proof (cases ?s)
      case Nil
      with r cand have "turns now J = {}" by (auto elim!: turnsE)
      with r Nil show ?thesis by (simp add: turn_order_def choose_source_def)
    next
      case (Cons e es)
      show ?thesis
        by (rule pick [of "(zscore_of e, True, zmember e)"])
           (use r Cons cand in \<open>fastforce simp: turns_iff choose_source_def turn_entry_def
              less_eq_zentry_def elim!: turnsE\<close>)+
    qed
  next
    case r: (Cons e es)
    show ?thesis
    proof (cases ?s)
      case Nil
      show ?thesis
        by (rule pick [of "(zscore_of e, False, zmember e)"])
           (use r Nil cand in \<open>fastforce simp: turns_iff choose_source_def turn_entry_def
              less_eq_zentry_def elim!: turnsE\<close>)+
    next
      case (Cons f fs)
      show ?thesis
      proof (cases "zscore_of e \<le> zscore_of f")
        case True
        show ?thesis
          by (rule pick [of "(zscore_of e, False, zmember e)"])
             (use True r Cons cand in \<open>fastforce simp: turns_iff choose_source_def turn_entry_def
                less_eq_zentry_def elim!: turnsE\<close>)+
      next
        case False
        show ?thesis
          by (rule pick [of "(zscore_of f, True, zmember f)"])
             (use False r Cons cand in \<open>fastforce simp: turns_iff choose_source_def turn_entry_def
                less_eq_zentry_def elim!: turnsE\<close>)+
      qed
    qed
  qed
qed

text \<open>One granted lease: out of its set, into the lease set, counted for the worker.\<close>

lemma grant_refines:
  fixes w tok :: string and d :: int
  assumes ks: "keys_ok ks" and rep: "represents R ks db J" and t: "t \<in> turns now J"
  defines "j \<equiv> turn_job t"
  defines "db' \<equiv> grant_lease R (leased ks) (lease_meta ks) (workers_leases ks) w j tok d
    (zrem R db (fst (turn_entry ks t)) j)"
  shows "represents R ks db' (lease_job w d (j, tok) J)"
    and "counts_leases R ks db J \<Longrightarrow> counts_leases R ks db' (lease_job w d (j, tok) J)"
proof -
  let ?x = "(J j)\<lparr>place := At_leased d w tok\<rparr>"
  have "turn_of now j (place (J j)) = Some t" using t by (simp add: turns_iff j_def)
  then have old: "place (J j) = At_ready s \<and> fst (turn_entry ks t) = ready ks \<or>
      place (J j) = At_scheduled s \<and> fst (turn_entry ks t) = scheduled ks" if "s = fst t" for s
    using that by (auto simp: turn_entry_def elim!: turn_ofE)
  have nolease: "\<not> is_leased (place (J j))" using old by auto
  have eq: "lease_job w d (j, tok) J = J(j := ?x)" by (simp add: lease_job_def)
  show "represents R ks db' (lease_job w d (j, tok) J)"
    unfolding eq db'_def grant_lease_def Let_def
    by (rule represents_update [OF rep])
       (use old in \<open>auto simp: keys_okD [OF ks] representsD [OF rep]\<close>)
  assume c: "counts_leases R ks db J"
  have count: "hget R (hset R (zadd R (zrem R db (fst (turn_entry ks t)) j) (leased ks) d j)
      (lease_meta ks) j (pack_meta w tok)) (workers_leases ks) w = count_text (held J w)"
    using c by (simp add: counts_leases_def keys_okD [OF ks])
  have held: "held (J(j := ?x)) v = held J v + (if v = w then 1 else 0)" for v
  proof -
    have "\<not> leased_by (place (J j)) v" using nolease leased_by_is_leased by blast
    then show ?thesis using held_update [OF finite_leased [OF rep], of j ?x v] by simp
  qed
  show "counts_leases R ks db' (lease_job w d (j, tok) J)"
    unfolding eq counts_leases_def
  proof
    fix v
    show "hget R db' (workers_leases ks) v = count_text (held (J(j := ?x)) v)"
      using c hincrby_Suc(2) [OF count]
      by (cases "v = w") (simp_all add: db'_def grant_lease_def Let_def held counts_leases_def
          keys_okD [OF ks] del: count_text_Suc add: count_text_def)
  qed
qed

lemma turn_order_lease:
  assumes rep: "represents R ks db J" and order: "turn_order now J = t # ts"
  shows "t \<in> turns now J" "turn_order now (lease_job w d (turn_job t, tok) J) = ts"
proof -
  have fin: "finite (turns now J)" by (rule finite_turns [OF rep])
  have set: "set (turn_order now J) = turns now J" by (simp add: turn_order_def fin)
  then show t: "t \<in> turns now J" using order by auto
  have "turns now (lease_job w d (turn_job t, tok) J) = turns now J - {t}"
    unfolding lease_job_def by (rule turns_update) (use t in \<open>simp_all add: turns_iff\<close>)
  then show "turn_order now (lease_job w d (turn_job t, tok) J) = ts"
    using order fin by (simp add: turn_order_def sorted_list_of_set_remove)
qed

text \<open>With enough tokens the loop leases the first \<open>n\<close> jobs in turn.\<close>

lemma reserve_loop_refines:
  assumes ks: "keys_ok ks" and rep: "represents R ks db J" and toks: "n \<le> length tokens"
    and d: "d = dbl (now + dur)"
    and gs: "gs = zip (map turn_job (take n (turn_order now J))) tokens"
    and run: "reserve_loop n R (ready ks) (scheduled ks) (leased ks) (lease_meta ks)
        (workers_leases ks) w now dur tokens db = (db', out)"
  shows "represents R ks db' (lease_all w d gs J)"
    and "out = lease_reply d gs"
    and "counts_leases R ks db J \<Longrightarrow> counts_leases R ks db' (lease_all w d gs J)"
    and "zscore R db' (scheduled ks) = (\<lambda>j. scheduled_at (place (lease_all w d gs J j)))"
proof -
  have "represents R ks db' (lease_all w d gs J) \<and> out = lease_reply d gs \<and>
      (counts_leases R ks db J \<longrightarrow> counts_leases R ks db' (lease_all w d gs J))"
    using rep toks gs run
  proof (induction n arbitrary: tokens db J gs out)
    case 0
    then show ?case by simp
  next
    case (Suc n)
    note rep = Suc.prems(1)
    obtain tok rest where tokens: "tokens = tok # rest" using Suc.prems(2) by (cases tokens) auto
    show ?case
    proof (cases "turn_order now J")
      case Nil
      then show ?thesis
        using Suc.prems choose_turn [OF rep, of now]
        by (simp add: drop_duplicates_idle [OF rep])
    next
      case (Cons t ts)
      let ?j = "turn_job t"
      let ?db = "grant_lease R (leased ks) (lease_meta ks) (workers_leases ks) w ?j tok d
        (zrem R db (fst (turn_entry ks t)) ?j)"
      obtain db4 out' where rec: "reserve_loop n R (ready ks) (scheduled ks) (leased ks)
          (lease_meta ks) (workers_leases ks) w now dur rest ?db = (db4, out')"
        by (metis surj_pair)
      have step: "db' = db4" "out = ?j # tok # int_string d # out'"
        using Suc.prems(4) choose_turn [OF rep, of now] rec
        by (simp_all add: tokens Cons drop_duplicates_idle [OF rep] d split_def turn_entry_def
            Let_def)
      note nxt = turn_order_lease [OF rep Cons]
      note grant = grant_refines [OF ks rep nxt(1), of w tok d]
      have "represents R ks db' (lease_all w d (tl gs) (lease_job w d (?j, tok) J)) \<and>
          out' = lease_reply d (tl gs) \<and>
          (counts_leases R ks ?db (lease_job w d (?j, tok) J) \<longrightarrow>
           counts_leases R ks db' (lease_all w d (tl gs) (lease_job w d (?j, tok) J)))"
        by (rule Suc.IH [OF grant(1)])
           (use Suc.prems(2,3) nxt(2) rec step in \<open>simp_all add: tokens Cons\<close>)
      then show ?thesis
        using Suc.prems(3) step grant(2) by (simp add: tokens Cons int_string_def)
    qed
  qed
  then show rep': "represents R ks db' (lease_all w d gs J)" and "out = lease_reply d gs"
    and "counts_leases R ks db J \<Longrightarrow> counts_leases R ks db' (lease_all w d gs J)" by blast+
  show "zscore R db' (scheduled ks) = (\<lambda>j. scheduled_at (place (lease_all w d gs J j)))"
    by (rule ext) (simp add: representsD [OF rep'])
qed

text \<open>Writes outside the job keys leave the queue as it is.\<close>

lemma outside_queue [simp]:
  assumes "keys_ok ks"
  shows "represents R ks (hset R db (cfg ks) f v) J = represents R ks db J"
    "represents R ks (hset R db (workers_config ks) f v) J = represents R ks db J"
    "represents R ks (zadd R db (workers_last_seen ks) s m) J = represents R ks db J"
    "counts_leases R ks (hset R db (cfg ks) f v) J = counts_leases R ks db J"
    "counts_leases R ks (hset R db (workers_config ks) f v) J = counts_leases R ks db J"
    "counts_leases R ks (zadd R db (workers_last_seen ks) s m) J = counts_leases R ks db J"
  by (simp_all add: represents_def counts_leases_def keys_okD [OF assms])

text \<open>What the loop does not touch.\<close>

lemma drop_duplicates_hget: "hget R (fst (drop_duplicates n R rd sc le now db es)) = hget R db"
proof (induction n arbitrary: db es)
  case (Suc n)
  then show ?case by (cases es) (simp_all add: Let_def)
qed simp

lemma drop_duplicates_zscore:
  "k \<noteq> sc \<Longrightarrow> zscore R (fst (drop_duplicates n R rd sc le now db es)) k = zscore R db k"
proof (induction n arbitrary: db es)
  case (Suc n)
  then show ?case by (cases es) (simp_all add: Let_def fun_eq_iff)
qed simp

lemma choose_source_key:
  "choose_source rd sc a b = Some (k, e) \<Longrightarrow> k = rd \<or> k = sc"
  by (auto simp: choose_source_def split: list.splits if_splits)

lemma reserve_loop_frame:
  assumes "k \<noteq> lm" "k \<noteq> wl"
  shows "hget R (fst (reserve_loop n R rd sc le lm wl w now dur toks db)) k = hget R db k"
  using assms
proof (induction n arbitrary: toks db)
  case (Suc n)
  then show ?case
    by (auto simp: Let_def split_def drop_duplicates_hget grant_lease_def fun_eq_iff
        split: option.splits list.splits)
qed simp

lemma reserve_loop_zframe:
  assumes "k \<noteq> rd" "k \<noteq> sc" "k \<noteq> le"
  shows "zscore R (fst (reserve_loop n R rd sc le lm wl w now dur toks db)) k = zscore R db k"
  using assms
proof (induction n arbitrary: toks db)
  case (Suc n)
  then show ?case
    by (auto simp: Let_def split_def drop_duplicates_zscore grant_lease_def fun_eq_iff
        split: option.splits list.splits dest: choose_source_key)
qed simp

end

text \<open>The next activation strictly after \<open>b\<close> that the reply announces.\<close>

definition future_scores :: "int \<Rightarrow> (string \<Rightarrow> job) \<Rightarrow> int set" where
  "future_scores b J = {s. b < s \<and> (\<exists>j. place (J j) = At_scheduled s)}"

definition next_text :: "'db redis_api \<Rightarrow> int \<Rightarrow> (string \<Rightarrow> job) \<Rightarrow> string" where
  "next_text R b J =
     (if future_scores b J = {} then ''0'' else score_text R (Min (future_scores b J)))"

context redis_service begin

lemma finite_future_scores:
  assumes "represents R ks db J"
  shows "finite (future_scores b J)"
proof (rule finite_subset)
  show "finite ((\<lambda>j. the (scheduled_at (place (J j)))) ` {j. place (J j) \<noteq> Absent})"
    using finite_placed [OF assms] by simp
  show "future_scores b J \<subseteq> (\<lambda>j. the (scheduled_at (place (J j)))) ` {j. place (J j) \<noteq> Absent}"
  proof
    fix s
    assume "s \<in> future_scores b J"
    then obtain j where "place (J j) = At_scheduled s" by (auto simp: future_scores_def)
    then show "s \<in> (\<lambda>j. the (scheduled_at (place (J j)))) ` {j. place (J j) \<noteq> Absent}"
      by (intro image_eqI [of _ _ j]) simp_all
  qed
qed

lemma next_text_eq:
  assumes rep: "represents R ks db J"
  shows "(case zrangebyscore R db (scheduled ks) (Excl b) PosInf (Some 1) of
       [] \<Rightarrow> ''0'' | e # _ \<Rightarrow> score_text R (zscore_of e)) = next_text R b J"
proof -
  have "zscore R db (scheduled ks) j = Some s \<longleftrightarrow> place (J j) = At_scheduled s" for j s
    by (cases "place (J j)") (simp_all add: representsD [OF rep])
  note least = least_candidate [OF this, where P = "in_range (Excl b) PosInf"]
  show ?thesis
  proof (cases "take (Suc 0) (filter (in_range (Excl b) PosInf) (zall R db (scheduled ks)))")
    case Nil
    with least have "future_scores b J = {}" by (auto simp: future_scores_def)
    with Nil show ?thesis by (simp add: zrangebyscore_filter next_text_def)
  next
    case (Cons e es)
    with least have e: "place (J (zmember e)) = At_scheduled (zscore_of e)" "b < zscore_of e"
      "\<forall>j s. place (J j) = At_scheduled s \<longrightarrow> b < s \<longrightarrow> e \<le> ZEntry s j"
      by (simp_all add: in_range_def)
    then have "zscore_of e \<in> future_scores b J" by (auto simp: future_scores_def)
    moreover have "Min (future_scores b J) = zscore_of e"
      by (rule Min_eqI [OF finite_future_scores [OF rep]])
         (use e calculation in \<open>force simp: future_scores_def less_eq_zentry_def\<close>)+
    ultimately show ?thesis using Cons by (auto simp: zrangebyscore_filter next_text_def)
  qed
qed

text \<open>The whole script: the policy is pinned, then the first jobs in turn are leased.\<close>

lemma reserve_refines:
  assumes ks: "keys_ok ks" and rep: "represents R ks db J"
    and policy: "hget R db (cfg ks) ''retry_policy'' \<in> {None, Some pol}"
    and cap: "nat (lua_number capacity) \<le> length tokens"
    and gs: "gs = zip (map turn_job (take (nat (lua_number capacity)) (turn_order (lua_number n) J)))
      tokens"
    and d: "d = dbl (lua_number n + lua_number dur)"
    and run: "reserve_lua R
      [cfg ks, ready ks, scheduled ks, leased ks, lease_meta ks, workers_last_seen ks,
       workers_config ks, workers_leases ks] (w # n # capacity # dur # pol # record # tokens) db =
      (db', reply)"
  shows "represents R ks db' (lease_all w d gs J)"
    and "reply = Reply (''ok'' # next_text R (g14 (lua_number n)) (lease_all w d gs J) #
      lease_reply d gs)"
    and "counts_leases R ks db J \<Longrightarrow> counts_leases R ks db' (lease_all w d gs J)"
    and "hget R db' (cfg ks) ''retry_policy'' = Some pol"
    and "zscore R db' (workers_last_seen ks) w = Some (lua_number n)"
    and "hget R db' (workers_config ks) w = Some record"
proof -
  define db1 where "db1 = (if hget R db (cfg ks) ''retry_policy'' = None
    then hset R (hset R db (cfg ks) ''version'' ''1'') (cfg ks) ''retry_policy'' pol else db)"
  define db3 where
    "db3 = hset R (zadd R db1 (workers_last_seen ks) (lua_number n) w) (workers_config ks) w record"
  obtain db4 out where loop: "reserve_loop (nat (lua_number capacity)) R (ready ks) (scheduled ks)
      (leased ks) (lease_meta ks) (workers_leases ks) w (lua_number n) (lua_number dur) tokens db3 =
      (db4, out)"
    by (metis surj_pair)
  have rep3: "represents R ks db3 J" by (simp add: db3_def db1_def ks rep)
  have counts3: "counts_leases R ks db3 J = counts_leases R ks db J"
    by (simp add: db3_def db1_def ks)
  note ref = reserve_loop_refines [OF ks rep3 cap d gs loop]
  have run': "db' = db4" "reply = Reply (''ok'' #
      (case zrangebyscore R db4 (scheduled ks) (Excl (g14 (lua_number n))) PosInf (Some 1) of
         [] \<Rightarrow> ''0'' | e # _ \<Rightarrow> score_text R (zscore_of e)) # out)"
    using run loop policy
    by (cases "hget R db (cfg ks) ''retry_policy''"; simp add: db3_def db1_def)+
  show rep': "represents R ks db' (lease_all w d gs J)"
    using ref(1) by (simp add: run')
  show "reply = Reply (''ok'' # next_text R (g14 (lua_number n)) (lease_all w d gs J) #
      lease_reply d gs)"
    using ref(2) next_text_eq [OF ref(1)] by (simp add: run')
  show "counts_leases R ks db J \<Longrightarrow> counts_leases R ks db' (lease_all w d gs J)"
    using ref(3) counts3 by (simp add: run')
  have "hget R db' k = hget R db3 k" if "k \<noteq> lease_meta ks" "k \<noteq> workers_leases ks" for k
    using reserve_loop_frame [OF that, of "nat (lua_number capacity)" "ready ks" "scheduled ks"
      "leased ks" w "lua_number n" "lua_number dur" tokens db3] loop by (simp add: run')
  moreover have "hget R db1 (cfg ks) ''retry_policy'' = Some pol"
    using policy by (auto simp: db1_def)
  ultimately show "hget R db' (cfg ks) ''retry_policy'' = Some pol"
    and "hget R db' (workers_config ks) w = Some record"
    by (simp_all add: db3_def keys_okD [OF ks])
  show "zscore R db' (workers_last_seen ks) w = Some (lua_number n)"
    using reserve_loop_zframe [of "workers_last_seen ks" "ready ks" "scheduled ks" "leased ks"
      "nat (lua_number capacity)" "lease_meta ks" "workers_leases ks" w "lua_number n"
      "lua_number dur" tokens db3] loop
    by (simp add: run' db3_def keys_okD [OF ks])
qed

lemma reserve_mismatch:
  assumes "hget R db (cfg ks) ''retry_policy'' = Some p" "p \<noteq> pol"
  shows "reserve_lua R
      [cfg ks, ready ks, scheduled ks, leased ks, lease_meta ks, workers_last_seen ks,
       workers_config ks, workers_leases ks] (w # n # capacity # dur # pol # record # tokens) db =
    (db, Reply [''err'', ''invalid_config'', ''retry_policy_mismatch''])"
  using assms by simp

end

end
