(* ===== verification/Sim_Reap.thy ===== *)
theory Sim_Reap
  imports Sim_Reserve
begin

text \<open>
  Reap takes the expired leases back, oldest deadline first, at most \<open>limit\<close> of them: each goes to
  ready with its failure counter as it was, and its rerun request is dropped.
\<close>

definition expired :: "int \<Rightarrow> (string \<Rightarrow> job) \<Rightarrow> (int \<times> string) set" where
  "expired now J = {(d, j) | d j. leased_until (place (J j)) = Some d \<and> d \<le> now}"

definition reap_order :: "int \<Rightarrow> (string \<Rightarrow> job) \<Rightarrow> string list" where
  "reap_order now J = map snd (sorted_list_of_set (expired now J))"

definition expire_job :: "int \<Rightarrow> string \<Rightarrow> (string \<Rightarrow> job) \<Rightarrow> string \<Rightarrow> job" where
  "expire_job now j J = J(j := (J j)\<lparr>place := At_ready now, again := False\<rparr>)"

definition expire_all :: "int \<Rightarrow> string list \<Rightarrow> (string \<Rightarrow> job) \<Rightarrow> string \<Rightarrow> job" where
  "expire_all now js J = fold (expire_job now) js J"

lemma expire_all_simps [simp]:
  "expire_all now [] J = J"
  "expire_all now (j # js) J = expire_all now js (expire_job now j J)"
  by (simp_all add: expire_all_def)

lemma expire_all_iff:
  "expire_all now js J j =
     (if j \<in> set js then (J j)\<lparr>place := At_ready now, again := False\<rparr> else J j)"
  by (induction js arbitrary: J) (auto simp: expire_job_def)

lemma expired_iff: "(d, j) \<in> expired now J \<longleftrightarrow> leased_until (place (J j)) = Some d \<and> d \<le> now"
  by (auto simp: expired_def)

lemma expired_update:
  "(d, j) \<in> expired now J \<Longrightarrow> expired now (expire_job now j J) = expired now J - {(d, j)}"
  by (auto simp: expired_iff expire_job_def split: if_splits)

context redis_service begin

lemma finite_expired:
  assumes "represents R ks db J"
  shows "finite (expired now J)"
proof (rule finite_subset)
  show "finite ((\<lambda>j. (the (leased_until (place (J j))), j)) ` {j. place (J j) \<noteq> Absent})"
    using finite_placed [OF assms] by simp
  show "expired now J \<subseteq> (\<lambda>j. (the (leased_until (place (J j))), j)) ` {j. place (J j) \<noteq> Absent}"
  proof (rule subrelI)
    fix d j
    assume "(d, j) \<in> expired now J"
    then show "(d, j) \<in> (\<lambda>j. (the (leased_until (place (J j))), j)) ` {j. place (J j) \<noteq> Absent}"
      by (intro image_eqI [of _ _ j]) (auto simp: expired_iff)
  qed
qed

lemma expired_candidate:
  assumes rep: "represents R ks db J"
  shows "case zrangebyscore R db (leased ks) NegInf (Incl now) (Some 1) of
      [] \<Rightarrow> expired now J = {}
    | e # es \<Rightarrow> (zscore_of e, zmember e) \<in> expired now J \<and>
        reap_order now J = zmember e #
          map snd (sorted_list_of_set (expired now J - {(zscore_of e, zmember e)}))"
proof -
  have "zscore R db (leased ks) j = Some s \<longleftrightarrow> leased_until (place (J j)) = Some s" for j s
    by (simp add: representsD [OF rep])
  note least = least_candidate [OF this, where P = "in_range NegInf (Incl now)"]
  show ?thesis
  proof (cases "take (Suc 0) (filter (in_range NegInf (Incl now)) (zall R db (leased ks)))")
    case Nil
    with least have "expired now J = {}" by (auto simp: expired_iff)
    with Nil show ?thesis by (simp add: zrangebyscore_filter)
  next
    case (Cons e es)
    let ?m = "(zscore_of e, zmember e)"
    from Cons least have e: "?m \<in> expired now J" "es = []"
      "\<forall>j s. (s, j) \<in> expired now J \<longrightarrow> e \<le> ZEntry s j"
      by (simp_all add: in_range_def expired_iff)
    have "Min (expired now J) = ?m"
    proof (rule Min_eqI [OF finite_expired [OF rep] _ e(1)])
      fix u
      assume "u \<in> expired now J"
      with e(3) show "?m \<le> u" by (cases u) (force simp: less_eq_zentry_def)
    qed
    moreover have "expired now J \<noteq> {}" using e(1) by blast
    ultimately have "reap_order now J = zmember e # map snd (sorted_list_of_set (expired now J - {?m}))"
      using sorted_list_of_set_nonempty [OF finite_expired [OF rep]] by (simp add: reap_order_def)
    with Cons e show ?thesis by (simp add: zrangebyscore_filter)
  qed
qed

lemma reap_one_refines:
  fixes now :: int
  assumes ks: "keys_ok ks" and rep: "represents R ks db J" and l: "is_leased (place (J j))"
  defines "db' \<equiv> reap_one R (leased ks) (lease_meta ks) (ready ks) (workers_leases ks) (rerun ks)
    now j db"
  shows "represents R ks db' (expire_job now j J)"
    and "counts_leases R ks db J \<Longrightarrow> counts_leases R ks db' (expire_job now j J)"
proof -
  obtain d w t where at: "place (J j) = At_leased d w t" using l by (cases "place (J j)") auto
  define db0 where "db0 = zadd R (fst (srem R (hdel R (zrem R db (leased ks) j) (lease_meta ks) j)
    (rerun ks) j)) (ready ks) now j"
  have db': "db' = decrement_worker R (workers_leases ks) w db0"
    using representsD(5) [OF rep, of j] at by (simp add: db'_def reap_one_def Let_def db0_def)
  have f: "count_text (fails (J j)) = hget R db (failures ks) j"
    by (simp add: representsD [OF rep])
  show "represents R ks db' (expire_job now j J)"
    unfolding expire_job_def db'
    by (rule represents_update [OF rep])
       (simp_all add: db0_def keys_okD [OF ks] representsD [OF rep] at)
  assume c: "counts_leases R ks db J"
  show "counts_leases R ks db' (expire_job now j J)"
    unfolding expire_job_def db'
    by (rule counts_release [OF c rep, where w = w and t = t and ?db0.0 = db0])
       (simp_all add: at db0_def keys_okD [OF ks])
qed

lemma reap_loop_refines:
  assumes ks: "keys_ok ks" and rep: "represents R ks db J"
    and js: "js = take n (reap_order now J)"
    and run: "reap_loop n R (leased ks) (lease_meta ks) (ready ks) (workers_leases ks) (rerun ks)
      now db = (db', m)"
  shows "represents R ks db' (expire_all now js J) \<and> m = length js \<and>
    (counts_leases R ks db J \<longrightarrow> counts_leases R ks db' (expire_all now js J))"
  using rep js run
proof (induction n arbitrary: db J js m)
  case 0
  then show ?case by simp
next
  case (Suc n)
  note rep = Suc.prems(1)
  note cand = expired_candidate [OF rep, of now]
  show ?case
  proof (cases "zrangebyscore R db (leased ks) NegInf (Incl now) (Some 1)")
    case Nil
    with cand have "js = []" using Suc.prems(2) by (simp add: reap_order_def)
    with Nil Suc.prems show ?thesis by simp
  next
    case (Cons e es)
    let ?j = "zmember e"
    let ?db = "reap_one R (leased ks) (lease_meta ks) (ready ks) (workers_leases ks) (rerun ks) now
      ?j db"
    let ?J = "expire_job now ?j J"
    from Cons cand have mem: "(zscore_of e, ?j) \<in> expired now J"
      and order: "reap_order now J =
        ?j # map snd (sorted_list_of_set (expired now J - {(zscore_of e, ?j)}))" by simp_all
    have l: "is_leased (place (J ?j))"
      using mem by (cases "place (J ?j)") (auto simp: expired_iff)
    note one = reap_one_refines [OF ks rep l, of now]
    obtain db4 m' where rec: "reap_loop n R (leased ks) (lease_meta ks) (ready ks)
        (workers_leases ks) (rerun ks) now ?db = (db4, m')"
      by (metis surj_pair)
    have step: "db' = db4" "m = Suc m'" using Suc.prems(3) rec Cons by simp_all
    have "reap_order now ?J = map snd (sorted_list_of_set (expired now J - {(zscore_of e, ?j)}))"
      by (simp add: reap_order_def expired_update [OF mem])
    then have js: "js = ?j # take n (reap_order now ?J)"
      using Suc.prems(2) order by simp
    have "represents R ks db' (expire_all now (take n (reap_order now ?J)) ?J) \<and>
        m' = length (take n (reap_order now ?J)) \<and>
        (counts_leases R ks ?db ?J \<longrightarrow>
         counts_leases R ks db' (expire_all now (take n (reap_order now ?J)) ?J))"
      by (rule Suc.IH [OF one(1) refl]) (simp add: rec step)
    with one(2) show ?thesis unfolding js by (simp add: step del: length_take)
  qed
qed

lemma reap_refines:
  assumes ks: "keys_ok ks" and rep: "represents R ks db J"
    and js: "js = take (nat (lua_number limit)) (reap_order (lua_number n) J)"
    and run: "reap_expired_lua R [leased ks, lease_meta ks, ready ks, workers_leases ks, rerun ks]
      [n, limit] db = (db', reply)"
  shows "represents R ks db' (expire_all (lua_number n) js J)"
    and "reply = Reply [''ok'', lua_tostring (int (length js))]"
    and "counts_leases R ks db J \<Longrightarrow> counts_leases R ks db' (expire_all (lua_number n) js J)"
proof -
  obtain db4 m where loop: "reap_loop (nat (lua_number limit)) R (leased ks) (lease_meta ks)
      (ready ks) (workers_leases ks) (rerun ks) (lua_number n) db = (db4, m)"
    by (metis surj_pair)
  from reap_loop_refines [OF ks rep js this] run loop
  show "represents R ks db' (expire_all (lua_number n) js J)"
    and "reply = Reply [''ok'', lua_tostring (int (length js))]"
    and "counts_leases R ks db J \<Longrightarrow> counts_leases R ks db' (expire_all (lua_number n) js J)"
    by auto
qed

end

end
