(* ===== verification/Store_Refines.thy ===== *)
theory Store_Refines
  imports Store_Admin Sim_Operator Sim_Reap
begin

text \<open>
  The Rust functions that run one script refine the operations on the abstract queue: whatever the
  network does, the server has applied the operation once or not at all; an answer that arrives is
  the parsed answer of the abstract operation; anything else is one of the two runtime errors.
\<close>

definition runtime_error :: "'db redis_store \<Rightarrow> string \<Rightarrow> error \<Rightarrow> bool" where
  "runtime_error S operation e \<longleftrightarrow>
     (\<exists>source. e = Redis operation source \<and> \<not> is_timeout source) \<or>
     e = CommandTimedOut operation (min (as_millis (command_timeout (store_config S))) u64_max)"

text \<open>
  \<open>stored S namespace db J\<close>: the namespace stores the abstract queue \<open>J\<close>; \<open>exact\<close> adds that the
  lease counters agree with it.
\<close>

definition stored :: "'db redis_store \<Rightarrow> string \<Rightarrow> 'db \<Rightarrow> (string \<Rightarrow> job) \<Rightarrow> bool" where
  "stored S namespace db J \<longleftrightarrow> represents (redis S) (store_keys S namespace) db J"

definition exact :: "'db redis_store \<Rightarrow> string \<Rightarrow> 'db \<Rightarrow> (string \<Rightarrow> job) \<Rightarrow> bool" where
  "exact S namespace db J \<longleftrightarrow> counts_leases (redis S) (store_keys S namespace) db J"

text \<open>
  One round trip that applies an operation of the abstract queue, with new queue \<open>J'\<close> and result
  \<open>r\<close>.
\<close>

definition applies ::
    "'db redis_store \<Rightarrow> string \<Rightarrow> string \<Rightarrow> 'db link \<Rightarrow> (string \<Rightarrow> job) \<Rightarrow> 'db \<Rightarrow>
     (string \<Rightarrow> job) \<Rightarrow> 'a result \<Rightarrow> 'db \<times> 'a result \<Rightarrow> bool" where
  "applies S operation namespace l J db J' r out \<longleftrightarrow>
     (\<exists>J'' \<in> {J, J'}.
        stored S namespace (fst out) J'' \<and>
        (exact S namespace (others l db) J \<longrightarrow> exact S namespace (fst out) J'') \<and>
        (delivery l = Answered \<longrightarrow> J'' = J' \<and> snd out = r) \<and>
        (delivery l \<noteq> Answered \<longrightarrow> (\<exists>e. snd out = Err e \<and> runtime_error S operation e)))"

lemma applies_answered:
  assumes "applies S operation namespace l J db J' r out" "delivery l = Answered"
  shows "snd out = r" "stored S namespace (fst out) J'"
    "exact S namespace (others l db) J \<Longrightarrow> exact S namespace (fst out) J'"
  using assms by (auto simp: applies_def)

lemma runtime_error_query:
  "snd (query_cmd S operation l run db) = Err e \<Longrightarrow> runtime_error S operation e"
  unfolding runtime_error_def by (rule query_cmd_errors)

text \<open>The shape all single-script operations have.\<close>

lemma applies_eval:
  assumes stored: "stored S namespace (others l db) J"
    and script: "script keys args (others l db) = (db', Reply rs)"
    and new: "represents (redis S) (store_keys S namespace) db' J'"
    and counts: "counts_leases (redis S) (store_keys S namespace) (others l db) J \<Longrightarrow>
      counts_leases (redis S) (store_keys S namespace) db' J'"
    and parse: "parse rs = r"
  shows "applies S operation namespace l J db J' r
    (io_bind (eval S operation l script keys args) (\<lambda>response. io_return (parse response)) db)"
proof (cases "delivery l")
  case Answered
  then have "eval S operation l script keys args db = (db', Ok rs)"
    using script by (intro eval_answered)
  then show ?thesis
    using Answered new counts parse by (simp add: applies_def stored_def exact_def)
next
  case (Errored executed source)
  define run where "run = run_script S script keys args"
  obtain dbq where q: "query_cmd S operation l run db = (dbq, command_result operation
      (command_timeout (store_config S)) (Some (Inl source)))" "dbq = (if executed then db' else others l db)"
    using Errored script by (simp add: query_cmd_def run_def run_script_def Let_def)
  then obtain e where "query_cmd S operation l run db = (dbq, Err e)"
    by (cases "is_timeout source") auto
  moreover from this have "runtime_error S operation e"
    using runtime_error_query [of S operation l run db e] by simp
  ultimately show ?thesis
    using Errored q(2) stored new counts
    by (cases executed) (auto simp: applies_def stored_def exact_def eval_def run_def)
next
  case (Timer_fired executed)
  define run where "run = run_script S script keys args"
  obtain dbq where q: "query_cmd S operation l run db = (dbq, command_result operation
      (command_timeout (store_config S)) None)" "dbq = (if executed then db' else others l db)"
    using Timer_fired script by (simp add: query_cmd_def run_def run_script_def Let_def)
  then obtain e where "query_cmd S operation l run db = (dbq, Err e)" by auto
  moreover from this have "runtime_error S operation e"
    using runtime_error_query [of S operation l run db e] by simp
  ultimately show ?thesis
    using Timer_fired q(2) stored new counts
    by (cases executed) (auto simp: applies_def stored_def exact_def eval_def run_def)
qed

text \<open>The shape for a script that works on one job.\<close>

lemma applies_job:
  assumes stored: "stored S namespace (others l db) J"
    and ref: "refines_job (redis S) (store_keys S namespace) (others l db) J j
      (script keys args (others l db)) spec"
    and parse: "parse (snd spec) = r"
  shows "applies S operation namespace l J db (J(j := fst spec)) r
    (io_bind (eval S operation l script keys args) (\<lambda>response. io_return (parse response)) db)"
proof -
  obtain db' rs where "script keys args (others l db) = (db', Reply rs)"
    using ref by (cases "script keys args (others l db)") (auto simp: refines_job_def)
  with ref show ?thesis
    by (intro applies_eval [OF stored]) (auto simp: refines_job_def parse)
qed


section \<open>Leases\<close>

text \<open>What a lease operation answers.\<close>

definition lease_result :: "job \<Rightarrow> string \<Rightarrow> string \<Rightarrow> string \<Rightarrow> unit result" where
  "lease_result x w t j = (if leased_to (place x) w t then Ok () else Err (LeaseMismatch j))"

lemma parse_lease_ok [simp]: "parse_lease_response j (''ok'' # rest) = Ok ()"
  by (simp add: parse_lease_response_def)

lemma parse_lease_mismatch [simp]: "parse_lease_response j lease_mismatch = Err (LeaseMismatch j)"
  by (simp add: parse_lease_response_def lease_mismatch_def parse_script_error_def)

lemma lua_micros [simp]: "lua_number (show_int (micros C t)) = dbl (micros C t)"
  by simp

lemma heartbeat_applies:
  assumes S: "good_store S" and J: "stored S namespace (others (L 0) db) J"
    and d: "d = dbl (clamp_i64 (micros (chrono S) now + duration_micros duration))"
  shows "applies S ''heartbeat'' namespace (L 0) J db
    (J(j := fst (heartbeat_spec w t d (J j)))) (lease_result (J j) w t j)
    (heartbeat S L namespace w j t now duration db)"
  unfolding heartbeat_def Let_def
  by (rule applies_job [OF J])
     (use redis_service.heartbeat_refines [OF good_storeD(1) [OF S] keys_ok_store
        J [unfolded stored_def], of j w t "show_int (micros (chrono S) now)"
        "show_int (clamp_i64 (micros (chrono S) now + duration_micros duration))"]
      in \<open>simp_all add: d heartbeat_spec_def lease_result_def del: heartbeat_lua.simps\<close>)

text \<open>All that a heartbeat does to the database.\<close>

lemma heartbeat_db:
  "\<exists>ran. (delivery (L 0) = Answered \<longrightarrow> ran) \<and>
     fst (heartbeat S L namespace w j t now duration db) =
       (if ran \<and> holds_lease (redis S) (leased (store_keys S namespace)) (lease_meta (store_keys S namespace))
             (others (L 0) db) j w t
        then zadd (redis S) (zadd (redis S) (others (L 0) db) (leased (store_keys S namespace))
            (dbl (clamp_i64 (micros (chrono S) now + duration_micros duration))) j)
          (workers_last_seen (store_keys S namespace)) (dbl (micros (chrono S) now)) w
        else others (L 0) db)"
proof -
  define ran where "ran = (case delivery (L 0) of Answered \<Rightarrow> True | Errored b e \<Rightarrow> b | Timer_fired b \<Rightarrow> b)"
  have bound: "fst (io_bind m (\<lambda>response. io_return (f response)) db) = fst (m db)" for m :: "('a, 'b) io" and f
    by (simp add: io_bind_def io_return_def split: prod.splits rresult.splits)
  show ?thesis
    unfolding heartbeat_def Let_def bound eval_def query_cmd_def run_script_def
    by (intro exI [of _ ran]) (auto simp: ran_def Let_def split: delivery.splits)
qed

lemma ack_applies:
  assumes S: "good_store S" and J: "stored S namespace (others (L 0) db) J"
  shows "applies S ''ack'' namespace (L 0) J db
    (J(j := fst (ack_spec w t (dbl (micros (chrono S) now)) (J j)))) (lease_result (J j) w t j)
    (ack S L now namespace w j t db)"
  unfolding ack_def Let_def
  by (rule applies_job [OF J])
     (use redis_service.ack_refines [OF good_storeD(1) [OF S] keys_ok_store
        J [unfolded stored_def], of j w t "show_int (micros (chrono S) now)"]
      in \<open>simp_all add: ack_spec_def lease_result_def del: ack_lua.simps\<close>)

lemma complete_applies:
  assumes S: "good_store S" and J: "stored S namespace (others (L 0) db) J"
  shows "applies S ''complete_and_reschedule'' namespace (L 0) J db
    (J(j := fst (complete_spec w t (dbl (micros (chrono S) now))
        (dbl (schedule_micros (chrono S) schedule_at)) (J j))))
    (lease_result (J j) w t j)
    (complete_and_reschedule S L namespace w j t schedule_at now db)"
  unfolding complete_and_reschedule_def Let_def
  by (rule applies_job [OF J])
     (use redis_service.complete_refines [OF good_storeD(1) [OF S] keys_ok_store
        J [unfolded stored_def], of j w t "show_int (micros (chrono S) now)"
        "show_int (schedule_micros (chrono S) schedule_at)"]
      in \<open>simp_all add: complete_spec_def lease_result_def del: complete_and_reschedule_lua.simps\<close>)


section \<open>Failing a run\<close>

text \<open>The delay before retry number \<open>n\<close>, in milliseconds, and where the delay takes the job.\<close>

fun retry_delay :: "nat \<Rightarrow> backoff \<Rightarrow> int" where
  "retry_delay n Backoff_none = 0"
| "retry_delay n (Backoff_fixed delay_ms) = dbl (int delay_ms)"
| "retry_delay n (Backoff_exponential initial_delay_ms multiplier max_delay_ms) =
     backoff_loop (n - 1) (dbl (int initial_delay_ms)) (dbl (int multiplier)) (dbl (int max_delay_ms))"

definition after_delay :: "int \<Rightarrow> int \<Rightarrow> placement" where
  "after_delay now delay_ms =
     (if delay_ms = 0 then At_ready now else At_scheduled (dbl (now + dbl (delay_ms * 1000))))"

fun retry_policy_placement :: "int \<Rightarrow> nat \<Rightarrow> retry_policy \<Rightarrow> placement" where
  "retry_policy_placement now n Policy_never = At_failed now"
| "retry_policy_placement now n (Policy_count max_retries b) =
     (if int n > dbl (int max_retries) then At_failed now else after_delay now (retry_delay n b))"
| "retry_policy_placement now n (Policy_infinite b) = after_delay now (retry_delay n b)"

definition failure_placement :: "int \<Rightarrow> nat \<Rightarrow> failure_action \<Rightarrow> retry_policy \<Rightarrow> placement" where
  "failure_placement now n action policy =
     (case action of Action_terminal \<Rightarrow> At_failed now
      | Action_retryable \<Rightarrow> retry_policy_placement now n policy)"

text \<open>The job after a failed run, and the answer.\<close>

definition failed_job :: "int \<Rightarrow> failure_action \<Rightarrow> retry_policy \<Rightarrow> job \<Rightarrow> job" where
  "failed_job now action policy x =
     \<lparr>place = failure_placement now (Suc (fails x)) action policy, fails = Suc (fails x),
      again = False\<rparr>"

definition readable_placement :: "placement \<Rightarrow> bool" where
  "readable_placement p \<longleftrightarrow> (case p of At_scheduled s \<Rightarrow> safe_int s | _ \<Rightarrow> True)"

lemma failure_args_spec:
  "\<exists>ak pk mr bk a b c. failure_args C request =
      [fr_job_id request, fr_worker_id request, fr_lease_token request,
       show_int (micros C (fr_now request)), ak, pk, mr, bk, a, b, c] \<and>
    failed_placement (dbl (micros C (fr_now request))) n ak pk (lua_number mr) bk (lua_number a)
      (lua_number b) (lua_number c) =
    failure_placement (dbl (micros C (fr_now request))) n (fr_action request)
      (fr_retry_policy request)"
proof -
  have backoff: "\<exists>bk a b c. backoff_args bo = [bk, a, b, c] \<and>
      failed_placement now n ''retryable'' pk mr bk (lua_number a) (lua_number b) (lua_number c) =
      (if \<not> should_retry pk (int n) mr then At_failed now else after_delay now (retry_delay n bo))"
    for bo pk mr and now :: int
    by (cases bo) (simp_all add: failed_placement_def after_delay_def Let_def)
  show ?thesis
  proof (cases "fr_action request")
    case Action_terminal
    have "\<exists>pk mr bk a b c. policy_args p = [pk, mr, bk, a, b, c]" for p
    proof -
      have "\<exists>bk a b c. backoff_args bo = [bk, a, b, c]" for bo by (cases bo) simp_all
      then show ?thesis by (cases p) (simp, metis policy_args.simps(2), metis policy_args.simps(3))
    qed
    then obtain pk mr bk a b c where "policy_args (fr_retry_policy request) = [pk, mr, bk, a, b, c]"
      by blast
    with Action_terminal show ?thesis
      by (simp add: failure_args_def failed_placement_def failure_placement_def)
  next
    case Action_retryable
    show ?thesis
    proof (cases "fr_retry_policy request")
      case Policy_never
      with Action_retryable show ?thesis
        by (simp add: failure_args_def failed_placement_def failure_placement_def should_retry_def)
    next
      case (Policy_count m bo)
      obtain bk a b c where "backoff_args bo = [bk, a, b, c]"
        "failed_placement (dbl (micros C (fr_now request))) n ''retryable'' ''count'' (dbl (int m)) bk
          (lua_number a) (lua_number b) (lua_number c) =
         (if int n > dbl (int m) then At_failed (dbl (micros C (fr_now request)))
          else after_delay (dbl (micros C (fr_now request))) (retry_delay n bo))"
        using backoff [of bo "dbl (micros C (fr_now request))" "''count''" "dbl (int m)"]
        by (auto simp: should_retry_def)
      with Action_retryable Policy_count show ?thesis
        by (simp add: failure_args_def failure_placement_def)
    next
      case (Policy_infinite bo)
      obtain bk a b c where "backoff_args bo = [bk, a, b, c]"
        "failed_placement (dbl (micros C (fr_now request))) n ''retryable'' ''infinite'' 0 bk
          (lua_number a) (lua_number b) (lua_number c) =
         after_delay (dbl (micros C (fr_now request))) (retry_delay n bo)"
        using backoff [of bo "dbl (micros C (fr_now request))" "''infinite''" 0]
        by (auto simp: should_retry_def)
      with Action_retryable Policy_infinite show ?thesis
        by (simp add: failure_args_def failure_placement_def)
    qed
  qed
qed

lemma lua_tostring_small: "\<bar>n\<bar> < 10 ^ 14 \<Longrightarrow> lua_tostring n = show_int n"
  by (simp add: lua_tostring_def)

lemma state_name_parse:
  "p \<noteq> Absent \<Longrightarrow> \<exists>state. parse_state (state_name p) = Ok state"
  by (cases p) (simp_all add: parse_state_def)

lemma parse_failure_ok:
  assumes C: "chrono_service C" and p: "p \<noteq> Absent" "readable_placement p" and n: "n < 2 ^ 32"
  shows "parse_failure_response C j [''ok'', lua_tostring (int n), state_name p, schedule_text p] = Ok n"
proof -
  have "lua_tostring (int n) = show_nat n" using n by (simp add: lua_tostring_small)
  moreover have "map_ok (\<lambda>_. ()) (parse_micros C ''fail_or_retry.schedule_at'' (schedule_text p)) = Ok ()"
    if "schedule_text p \<noteq> ''0''"
    using that p by (cases p) (simp_all add: readable_placement_def parse_micros_safe [OF C])
  moreover obtain state where "parse_state (state_name p) = Ok state"
    using state_name_parse [OF p(1)] by blast
  ultimately show ?thesis
    using n by (simp add: parse_failure_response_def)
qed

text \<open>The queue after a failed run, and the answer before it is parsed.\<close>

lemma fail_answers:
  assumes S: "good_store S" and J: "stored S namespace (others (L 0) db) J"
    and req: "j = fr_job_id request" "w = fr_worker_id request" "t = fr_lease_token request"
      "now = dbl (micros (chrono S) (fr_now request))"
    and x: "x = failed_job now (fr_action request) (fr_retry_policy request) (J j)"
  shows "applies S ''fail_or_retry'' namespace (L 0) J db
    (J(j := if leased_to (place (J j)) w t then x else J j))
    (parse_failure_response (chrono S) j
      (if leased_to (place (J j)) w t
       then [''ok'', lua_tostring (int (fails x)), state_name (place x), schedule_text (place x)]
       else lease_mismatch))
    (fail_or_retry S L namespace request db)"
proof -
  obtain ak pk mr bk a b c where args: "failure_args (chrono S) request =
      [j, w, t, show_int (micros (chrono S) (fr_now request)), ak, pk, mr, bk, a, b, c]"
    and place: "failed_placement now (Suc (fails (J j))) ak pk (lua_number mr) bk (lua_number a)
        (lua_number b) (lua_number c) = place x"
    using failure_args_spec [of "chrono S" request "Suc (fails (J j))"]
    by (auto simp: req x failed_job_def)
  let ?spec = "fail_spec w t now ak pk (lua_number mr) bk (lua_number a) (lua_number b)
    (lua_number c) (J j)"
  have x_eq: "x = \<lparr>place = place x, fails = Suc (fails (J j)), again = False\<rparr>"
    by (simp add: x failed_job_def)
  have spec: "?spec = (if leased_to (place (J j)) w t
      then (x, [''ok'', lua_tostring (int (fails x)), state_name (place x), schedule_text (place x)])
      else (J j, lease_mismatch))"
    using x_eq by (simp add: fail_spec_def Let_def place x failed_job_def)
  have ref: "refines_job (redis S) (store_keys S namespace) (others (L 0) db) J j
      (fail_or_retry_lua (redis S)
        [leased (store_keys S namespace), lease_meta (store_keys S namespace),
         failures (store_keys S namespace), ready (store_keys S namespace),
         scheduled (store_keys S namespace), failed (store_keys S namespace),
         workers_leases (store_keys S namespace), rerun (store_keys S namespace)]
        (failure_args (chrono S) request) (others (L 0) db)) ?spec"
    using redis_service.fail_refines [OF good_storeD(1) [OF S] keys_ok_store J [unfolded stored_def],
      of j w t "show_int (micros (chrono S) (fr_now request))" ak pk mr bk a b c]
    by (simp add: args req del: fail_or_retry_lua.simps)
  have "applies S ''fail_or_retry'' namespace (L 0) J db (J(j := fst ?spec))
      (parse_failure_response (chrono S) j (snd ?spec)) (fail_or_retry S L namespace request db)"
    unfolding fail_or_retry_def Let_def req(1) [symmetric]
    by (rule applies_job [OF J], rule ref) simp
  then show ?thesis by (simp add: spec split: if_splits)
qed

text \<open>The answer is readable when the count and the time are; a refused call has neither.\<close>

lemma parse_failure_mismatch [simp]: "parse_failure_response C j lease_mismatch = Err (LeaseMismatch j)"
  by (simp add: parse_failure_response_def lease_mismatch_def parse_script_error_def)

lemma failed_job_not_absent: "place (failed_job now action policy x) \<noteq> Absent"
  by (cases action; cases policy) (simp_all add: failed_job_def failure_placement_def after_delay_def)

lemma fail_applies_held:
  assumes S: "good_store S" and J: "stored S namespace (others (L 0) db) J"
    and req: "j = fr_job_id request" "w = fr_worker_id request" "t = fr_lease_token request"
      "now = dbl (micros (chrono S) (fr_now request))"
    and x: "x = failed_job now (fr_action request) (fr_retry_policy request) (J j)"
    and exact: "leased_to (place (J j)) w t \<Longrightarrow> fails x < 2 ^ 32 \<and> readable_placement (place x)"
  shows "applies S ''fail_or_retry'' namespace (L 0) J db
    (J(j := if leased_to (place (J j)) w t then x else J j))
    (if leased_to (place (J j)) w t then Ok (fails x) else Err (LeaseMismatch j))
    (fail_or_retry S L namespace request db)"
proof -
  have "place x \<noteq> Absent" unfolding x by (rule failed_job_not_absent)
  then have "parse_failure_response (chrono S) j
      (if leased_to (place (J j)) w t
       then [''ok'', lua_tostring (int (fails x)), state_name (place x), schedule_text (place x)]
       else lease_mismatch) =
    (if leased_to (place (J j)) w t then Ok (fails x) else Err (LeaseMismatch j))"
    using parse_failure_ok [OF good_storeD(2) [OF S]] exact by simp
  then show ?thesis
    using fail_answers [where L = L and db = db, OF S J req x] by simp
qed

lemma fail_applies:
  assumes S: "good_store S" and J: "stored S namespace (others (L 0) db) J"
    and req: "j = fr_job_id request" "w = fr_worker_id request" "t = fr_lease_token request"
      "now = dbl (micros (chrono S) (fr_now request))"
    and x: "x = failed_job now (fr_action request) (fr_retry_policy request) (J j)"
    and n: "fails x < 2 ^ 32" and p: "readable_placement (place x)"
  shows "applies S ''fail_or_retry'' namespace (L 0) J db
    (J(j := if leased_to (place (J j)) w t then x else J j))
    (if leased_to (place (J j)) w t then Ok (fails x) else Err (LeaseMismatch j))
    (fail_or_retry S L namespace request db)"
  by (rule fail_applies_held [where L = L and db = db, OF S J req x]) (use n p in simp)

end
