(* ===== verification/Store_Queue.thy ===== *)
theory Store_Queue
  imports Store_Refines
begin

text \<open>
  The enqueue side of the store against the abstract queue: enqueue, reschedule, the operator
  commands, reserve and reap.
\<close>

section \<open>Enqueue and reschedule\<close>

fun replaces :: "replace_mode \<Rightarrow> int \<Rightarrow> int \<Rightarrow> bool" where
  "replaces Always new old = True"
| "replaces IfEarlier new old = (new < old)"
| "replaces IfLater new old = (old < new)"

lemma should_replace_arg [simp]: "should_replace (replace_mode_arg m) = replaces m"
  by (cases m) (simp_all add: should_replace_def fun_eq_iff)

lemma should_replace_literal [simp]: "should_replace ''replace'' new old"
  by (simp add: should_replace_def)

fun state_of :: "placement \<Rightarrow> job_state" where
  "state_of (At_scheduled s) = Scheduled"
| "state_of (At_leased d w t) = Leased"
| "state_of (At_failed s) = Failed"
| "state_of _ = Ready"

definition enqueued :: "string \<Rightarrow> job_state \<Rightarrow> enqueue_status \<Rightarrow> enqueue_result result" where
  "enqueued j state status = Ok \<lparr>er_job_id = j, er_state = state, er_status = status\<rparr>"

definition enqueue_now_result :: "string \<Rightarrow> job \<Rightarrow> enqueue_result result" where
  "enqueue_now_result j x =
     (case place x of
        Absent \<Rightarrow> enqueued j Ready Created
      | At_ready s \<Rightarrow> enqueued j Ready Unchanged
      | At_scheduled s \<Rightarrow> enqueued j Ready Updated
      | At_leased d w t \<Rightarrow> enqueued j Leased (if again x then Unchanged else Updated)
      | At_failed s \<Rightarrow> enqueued j Ready Updated)"

text \<open>A waiting job keeps its place when it is there already or the policy says so.\<close>

definition keeps_place :: "replace_mode \<Rightarrow> placement \<Rightarrow> placement \<Rightarrow> bool" where
  "keeps_place m new old \<longleftrightarrow> old = new \<or> \<not> replaces m (score_of new) (score_of old)"

definition schedule_result ::
    "replace_mode \<Rightarrow> int \<Rightarrow> int \<Rightarrow> string \<Rightarrow> job \<Rightarrow> enqueue_result result" where
  "schedule_result m now requested j x =
     (let new = target now requested
      in case place x of
           Absent \<Rightarrow> enqueued j (state_of new) Created
         | At_leased d w t \<Rightarrow> Err (InvalidState j Leased)
         | At_failed s \<Rightarrow> enqueued j (state_of new) Updated
         | old \<Rightarrow> (if keeps_place m new old then enqueued j (state_of old) Unchanged
                  else enqueued j (state_of new) Updated))"

fun reply_schedule :: "placement \<Rightarrow> timestamp option" where
  "reply_schedule (At_scheduled s) = (if s = 0 then None else Some (s * 1000))"
| "reply_schedule _ = None"

definition reschedule_answer :: "int \<Rightarrow> int \<Rightarrow> string \<Rightarrow> job \<Rightarrow> reschedule_result result" where
  "reschedule_answer now requested j x =
     (let new = target now requested
      in case place x of
           Absent \<Rightarrow> Err (NotFound j)
         | At_leased d w t \<Rightarrow> Err (InvalidState j Leased)
         | At_failed s \<Rightarrow> Err (InvalidState j Failed)
         | old \<Rightarrow> Ok \<lparr>rr_job_id = j, rr_state = state_of new, rr_schedule_at = reply_schedule new\<rparr>)"

lemma parse_state_name: "p \<noteq> Absent \<Longrightarrow> parse_state (state_name p) = Ok (state_of p)"
  by (cases p) (simp_all add: parse_state_def)

lemma parse_state_target [simp]: "parse_state (state_name (target now q)) = Ok (state_of (target now q))"
  by (simp add: parse_state_name)

lemma parse_state_literals [simp]:
  "parse_state ''ready'' = Ok Ready" "parse_state ''scheduled'' = Ok Scheduled"
  "parse_state ''leased'' = Ok Leased" "parse_state ''failed'' = Ok Failed"
  by (simp_all add: parse_state_def)

lemma parse_enqueued [simp]:
  "parse_enqueue_response j [''ok'', s, v, u] =
    and_then (parse_enqueue_status s) (\<lambda>status. and_then (parse_state v) (\<lambda>state. enqueued j state status))"
  by (simp add: parse_enqueue_response_def enqueued_def)

lemma parse_enqueue_status_literals [simp]:
  "parse_enqueue_status ''created'' = Ok Created" "parse_enqueue_status ''updated'' = Ok Updated"
  "parse_enqueue_status ''unchanged'' = Ok Unchanged"
  by (simp_all add: parse_enqueue_status_def)

lemma parse_enqueue_now:
  "parse_enqueue_response j (snd (enqueue_now_spec now x)) = enqueue_now_result j x"
  by (cases "place x") (simp_all add: enqueue_now_spec_def enqueue_now_result_def)

lemma parse_kept:
  "waiting (place x) \<Longrightarrow>
   parse_enqueue_response j (snd (keep_spec x)) = enqueued j (state_of (place x)) Unchanged"
  by (cases "place x") (simp_all add: keep_spec_def)

lemma parse_moved:
  "parse_enqueue_response j (snd (move_spec (target now q) x)) =
   enqueued j (state_of (target now q)) Updated"
  by (simp add: move_spec_def)

lemma schedule_result_waiting:
  "waiting (place x) \<Longrightarrow> schedule_result m now q j x =
    (if keeps_place m (target now q) (place x) then enqueued j (state_of (place x)) Unchanged
     else enqueued j (state_of (target now q)) Updated)"
  by (cases "place x") (simp_all add: schedule_result_def Let_def)

lemma parse_invalid_state [simp]:
  "parse_enqueue_response j [''err'', ''invalid_state'', ''leased''] = Err (InvalidState j Leased)"
  by (simp add: parse_enqueue_response_def parse_script_error_def)

lemma parse_schedule:
  "parse_enqueue_response j (snd (schedule_spec (replace_mode_arg m) now q x)) =
   schedule_result m now q j x"
proof (cases "waiting (place x)")
  case True
  then show ?thesis
    by (simp add: schedule_spec_waiting schedule_result_waiting keeps_place_def parse_kept parse_moved)
next
  case False
  then show ?thesis
    by (cases "place x") (simp_all add: schedule_spec_def schedule_result_def Let_def)
qed

lemma parse_rescheduled:
  assumes "chrono_service C" "p \<noteq> Absent" "readable_placement p"
  shows "parse_reschedule_response C j [''ok'', s, state_name p, schedule_text p] =
    Ok \<lparr>rr_job_id = j, rr_state = state_of p, rr_schedule_at = reply_schedule p\<rparr>"
  using assms
  by (cases p) (simp_all add: parse_reschedule_response_def readable_placement_def
      parse_micros_safe show_int_0_iff)

lemma reschedule_answer_waiting:
  "waiting (place x) \<Longrightarrow> reschedule_answer now q j x =
    Ok \<lparr>rr_job_id = j, rr_state = state_of (target now q),
        rr_schedule_at = reply_schedule (target now q)\<rparr>"
  by (cases "place x") (simp_all add: reschedule_answer_def Let_def)

lemma parse_reschedule_errors [simp]:
  "parse_reschedule_response C j [''err'', ''not_found''] = Err (NotFound j)"
  "parse_reschedule_response C j [''err'', ''invalid_state'', ''leased''] = Err (InvalidState j Leased)"
  "parse_reschedule_response C j [''err'', ''invalid_state'', ''failed''] = Err (InvalidState j Failed)"
  by (simp_all add: parse_reschedule_response_def parse_script_error_def)

lemma parse_reschedule:
  assumes "chrono_service C" "readable_placement (target now q)"
  shows "parse_reschedule_response C j (snd (reschedule_spec ''replace'' now q x)) =
    reschedule_answer now q j x"
proof (cases "waiting (place x)")
  case True
  then show ?thesis
    using parse_rescheduled [OF assms(1) target_not_leased(2) assms(2)]
    by (auto simp: reschedule_spec_waiting reschedule_answer_waiting keep_spec_def move_spec_def)
next
  case False
  then show ?thesis
    by (cases "place x") (simp_all add: reschedule_spec_def reschedule_answer_def Let_def)
qed

text \<open>The queue after an enqueue or a reschedule.\<close>

definition enqueue_spec :: "enqueue_request \<Rightarrow> int \<Rightarrow> int \<Rightarrow> job \<Rightarrow> job \<times> string list" where
  "enqueue_spec request now requested x =
     (if eq_allow_existing_current_run request then enqueue_now_spec now x
      else schedule_spec (replace_mode_arg (eq_replace_mode request)) now requested x)"

definition enqueue_answer :: "enqueue_request \<Rightarrow> int \<Rightarrow> int \<Rightarrow> job \<Rightarrow> enqueue_result result" where
  "enqueue_answer request now requested x =
     (if eq_allow_existing_current_run request then enqueue_now_result (eq_job_id request) x
      else schedule_result (eq_replace_mode request) now requested (eq_job_id request) x)"

lemma enqueue_applies:
  assumes S: "good_store S" and J: "stored S namespace (others (L 0) db) J"
    and now: "now = dbl (micros (chrono S) system_now)"
      "requested = dbl (schedule_micros (chrono S) (eq_schedule_at request))"
    and j: "j = eq_job_id request"
  shows "applies S ''enqueue_or_schedule'' namespace (L 0) J db
    (J(j := fst (enqueue_spec request now requested (J j))))
    (enqueue_answer request now requested (J j))
    (enqueue S L system_now namespace request db)"
  unfolding enqueue_def Let_def j
  by (rule applies_job [OF J])
     (use redis_service.enqueue_now_refines [OF good_storeD(1) [OF S] keys_ok_store
          J [unfolded stored_def], of j "show_int (micros (chrono S) system_now)"
          "show_int (schedule_micros (chrono S) (eq_schedule_at request))"
          "replace_mode_arg (eq_replace_mode request)"]
        redis_service.schedule_refines [OF good_storeD(1) [OF S] keys_ok_store
          J [unfolded stored_def], of j "show_int (micros (chrono S) system_now)"
          "show_int (schedule_micros (chrono S) (eq_schedule_at request))"
          "replace_mode_arg (eq_replace_mode request)"]
      in \<open>simp_all add: now j enqueue_spec_def enqueue_answer_def parse_enqueue_now parse_schedule
            del: enqueue_or_reschedule_lua.simps\<close>)

lemma reschedule_applies:
  assumes S: "good_store S" and J: "stored S namespace (others (L 0) db) J"
    and now: "now = dbl (micros (chrono S) system_now)"
      "requested = dbl (schedule_micros (chrono S) schedule_at)"
    and safe: "readable_placement (target now requested)"
  shows "applies S ''reschedule'' namespace (L 0) J db
    (J(j := fst (reschedule_spec ''replace'' now requested (J j))))
    (reschedule_answer now requested j (J j))
    (reschedule S L system_now namespace j schedule_at db)"
  unfolding reschedule_def Let_def
  by (rule applies_job [OF J])
     (use redis_service.reschedule_refines [OF good_storeD(1) [OF S] keys_ok_store
          J [unfolded stored_def], of j "show_int (micros (chrono S) system_now)"
          "show_int (schedule_micros (chrono S) schedule_at)" "''replace''"]
        parse_reschedule [OF good_storeD(2) [OF S] safe]
      in \<open>simp_all add: now del: enqueue_or_reschedule_lua.simps\<close>)


section \<open>Operator commands\<close>

text \<open>Each operator command: which placements it accepts, and the error otherwise.\<close>

definition accepts :: "(placement \<Rightarrow> bool) \<Rightarrow> string \<Rightarrow> placement \<Rightarrow> unit result" where
  "accepts P j p =
     (if p = Absent then Err (NotFound j)
      else if P p then Ok ()
      else Err (InvalidState j (state_of p)))"

lemma parse_operator_simps [simp]:
  "parse_operator_response j [''ok''] = Ok ()"
  "parse_operator_response j [''err'', ''not_found''] = Err (NotFound j)"
  "p \<noteq> Absent \<Longrightarrow> parse_operator_response j (invalid_state p) = Err (InvalidState j (state_of p))"
  by (simp_all add: parse_operator_response_def parse_script_error_def invalid_state_def)
     (cases p; simp)

datatype operator_command = Op_cancel | Op_requeue | Op_retry_now | Op_force_retry | Op_force_ack | Op_force_fail

fun operator_name :: "operator_command \<Rightarrow> string" where
  "operator_name Op_cancel = ''cancel''"
| "operator_name Op_requeue = ''requeue''"
| "operator_name Op_retry_now = ''retry_now''"
| "operator_name Op_force_retry = ''force_retry''"
| "operator_name Op_force_ack = ''force_ack''"
| "operator_name Op_force_fail = ''force_fail''"

fun operator_spec :: "operator_command \<Rightarrow> int \<Rightarrow> job \<Rightarrow> job \<times> string list" where
  "operator_spec Op_cancel now = cancel_spec"
| "operator_spec Op_requeue now = requeue_spec now"
| "operator_spec Op_retry_now now = requeue_spec now"
| "operator_spec Op_force_retry now = force_retry_spec now"
| "operator_spec Op_force_ack now = force_ack_spec now"
| "operator_spec Op_force_fail now = force_fail_spec now"

fun operator_accepts :: "operator_command \<Rightarrow> placement \<Rightarrow> bool" where
  "operator_accepts Op_cancel p = (\<exists>s. p = At_scheduled s \<or> p = At_failed s)"
| "operator_accepts Op_requeue p = (\<not> is_leased p)"
| "operator_accepts Op_retry_now p = (\<not> is_leased p)"
| "operator_accepts Op_force_retry p = (\<exists>s. p = At_failed s)"
| "operator_accepts Op_force_ack p = is_leased p"
| "operator_accepts Op_force_fail p = is_leased p"

text \<open>What an operator command does to the job.\<close>

definition operator_effect :: "operator_command \<Rightarrow> int \<Rightarrow> job \<Rightarrow> job" where
  "operator_effect c now x =
     (if place x = Absent \<or> \<not> operator_accepts c (place x) then x
      else case c of
        Op_cancel \<Rightarrow> fresh Absent
      | Op_force_retry \<Rightarrow> fresh (At_ready now)
      | Op_force_ack \<Rightarrow> fresh (if again x then At_ready now else Absent)
      | Op_force_fail \<Rightarrow> \<lparr>place = At_failed now, fails = Suc (fails x), again = False\<rparr>
      | _ \<Rightarrow> (case place x of
                At_scheduled s \<Rightarrow> x\<lparr>place := At_ready now, again := False\<rparr>
              | At_failed s \<Rightarrow> fresh (At_ready now)
              | _ \<Rightarrow> x))"

lemmas operator_specs =
  cancel_spec_def requeue_spec_def force_retry_spec_def force_ack_spec_def force_fail_spec_def

lemma operator_effect_spec: "fst (operator_spec c now x) = operator_effect c now x"
  by (cases c; cases "place x") (simp_all add: operator_specs operator_effect_def)

lemma parse_operator_spec:
  "parse_operator_response j (snd (operator_spec c now x)) = accepts (operator_accepts c) j (place x)"
  by (cases c; cases "place x") (simp_all add: operator_specs accepts_def del: state_of.simps)

lemma operator_refines:
  assumes "redis_service R" "keys_ok ks" "represents R ks db J"
  shows "refines_job R ks db J j
    (operator_transition_lua R
       [failures ks, ready ks, scheduled ks, leased ks, lease_meta ks, failed ks,
        workers_leases ks, rerun ks] [operator_name c, j, n] db)
    (operator_spec c (lua_number n) (J j))"
  using redis_service.cancel_refines [OF assms] redis_service.requeue_refines [OF assms]
    redis_service.force_retry_refines [OF assms] redis_service.force_ack_refines [OF assms]
    redis_service.force_fail_refines [OF assms]
  by (cases c) (simp_all del: operator_transition_lua.simps)

lemma operator_applies:
  assumes S: "good_store S" and J: "stored S namespace (others (L 0) db) J"
  shows "applies S ''operator_transition'' namespace (L 0) J db
    (J(j := operator_effect c (dbl (micros (chrono S) now)) (J j)))
    (accepts (operator_accepts c) j (place (J j)))
    (operator_transition_at S L namespace (operator_name c) j now db)"
  unfolding operator_transition_at_def Let_def operator_effect_spec [symmetric]
  by (rule applies_job [OF J])
     (use operator_refines [OF good_storeD(1) [OF S] keys_ok_store J [unfolded stored_def],
        of j c "show_int (micros (chrono S) now)"]
      in \<open>simp_all add: parse_operator_spec del: operator_transition_lua.simps\<close>)


section \<open>Reap\<close>

lemma parse_reap_ok:
  "n < 10 ^ 14 \<Longrightarrow> parse_reap_response namespace [''ok'', lua_tostring (int n)] = Ok n"
  by (simp add: parse_reap_response_def lua_tostring_small)

lemma reap_applies:
  assumes S: "good_store S" and J: "stored S namespace (others (L 0) db) J"
    and limit: "0 < limit" "safe_int (int limit)"
    and now: "now = dbl (micros (chrono S) t)"
    and js: "js = take limit (reap_order now J)" "length js < 10 ^ 14"
  shows "applies S ''reap_expired'' namespace (L 0) J db (expire_all now js J) (Ok (length js))
    (reap_expired S L namespace t limit db)"
proof -
  let ?ks = "store_keys S namespace"
  obtain db' reply where run: "reap_expired_lua (redis S) [leased ?ks, lease_meta ?ks, ready ?ks,
      workers_leases ?ks, rerun ?ks] [show_int (micros (chrono S) t), show_nat limit]
      (others (L 0) db) = (db', reply)"
    by (metis surj_pair)
  have js': "js = take (nat (lua_number (show_nat limit)))
      (reap_order (lua_number (show_int (micros (chrono S) t))) J)"
    using limit by (simp add: js now)
  note ref = redis_service.reap_refines [OF good_storeD(1) [OF S] keys_ok_store
    J [unfolded stored_def] js' run]
  have "reap_expired S L namespace t limit db =
      io_bind (eval S ''reap_expired'' (L 0) (reap_expired_lua (redis S))
        [leased ?ks, lease_meta ?ks, ready ?ks, workers_leases ?ks, rerun ?ks]
        [show_int (micros (chrono S) t), show_nat limit])
      (\<lambda>response. io_return (parse_reap_response namespace response)) db"
    using limit by (simp add: reap_expired_def Let_def)
  moreover have "applies S ''reap_expired'' namespace (L 0) J db (expire_all now js J) (Ok (length js)) \<dots>"
    using ref parse_reap_ok [OF js(2)] run
    by (intro applies_eval [OF J, where db' = db' and rs = "[''ok'', lua_tostring (int (length js))]"])
       (simp_all add: now del: reap_expired_lua.simps)
  ultimately show ?thesis by simp
qed


section \<open>Reserve\<close>

text \<open>
  The answer of a reserve: the leased jobs with their tokens, and the next activation the scan saw.
\<close>

definition next_schedule :: "int \<Rightarrow> (string \<Rightarrow> job) \<Rightarrow> timestamp option" where
  "next_schedule b J =
     (if future_scores b J = {} then None else Some (Min (future_scores b J) * 1000))"

definition reserved_batch :: "int \<Rightarrow> (string \<Rightarrow> job) \<Rightarrow> (string \<times> string) list \<Rightarrow> reserve_batch" where
  "reserved_batch b J gs =
     \<lparr>rb_jobs = map (\<lambda>(j, t). \<lparr>rj_job_id = j, rj_lease_token = t\<rparr>) gs,
      rb_next_schedule_at = next_schedule b J\<rparr>"

lemma parse_reserve_ok:
  assumes S: "good_store S" and d: "i64_min \<le> d" "d \<le> i64_max"
    and fin: "finite (future_scores b J)"
    and safe: "\<forall>s \<in> future_scores b J. safe_int s \<and> s \<noteq> 0"
  shows "parse_reserve_response (chrono S) w
      (''ok'' # next_text (redis S) b J # lease_reply d gs) = Ok (reserved_batch b J gs)"
proof -
  have R: "redis_zsets (redis S)"
    using good_storeD(1) [OF S] by (rule redis_service.axioms)
  have reply: "parse_reserved (lease_reply d gs) =
      Ok (map (\<lambda>(j, t). \<lparr>rj_job_id = j, rj_lease_token = t\<rparr>) gs)"
    unfolding lease_reply_def by (rule parse_reserved_lease_reply [OF d])
  show ?thesis
  proof (cases "future_scores b J = {}")
    case True
    then show ?thesis
      by (simp add: parse_reserve_response_def next_text_def reserved_batch_def next_schedule_def reply)
  next
    case False
    then have "Min (future_scores b J) \<in> future_scores b J" using fin by (rule Min_in [rotated])
    with safe have m: "safe_int (Min (future_scores b J))" "Min (future_scores b J) \<noteq> 0" by auto
    have "next_text (redis S) b J = show_int (Min (future_scores b J))"
      using False m by (simp add: next_text_def redis_zsets.score_text_exact [OF R])
    then show ?thesis
      using False m reply
      by (simp add: parse_reserve_response_def reserved_batch_def next_schedule_def
          show_int_0_iff parse_micros_safe [OF good_storeD(2) [OF S]])
  qed
qed

lemma remember_namespace_frame:
  assumes S: "good_store S" and l: "others l = (\<lambda>db. db)"
  shows "represents (redis S) (store_keys S ns) (fst (remember_namespace S l ns' db)) J =
      represents (redis S) (store_keys S ns) db J"
    and "counts_leases (redis S) (store_keys S ns) (fst (remember_namespace S l ns' db)) J =
      counts_leases (redis S) (store_keys S ns) db J"
proof -
  note R = good_storeD(1) [OF S]
  let ?k = "namespaces_key (key_prefix (store_config S))"
  have "fst (remember_namespace S l ns' db) \<in> {db, fst (sadd (redis S) db ?k ns')}"
    using query_cmd_db [of S "''remember_namespace''" l
      "\<lambda>db. let (db', added) = sadd (redis S) db ?k ns' in (db', Inr added)" db] l
    by (auto simp: remember_namespace_def io_bind_def Let_def split_def split: rresult.splits)
  moreover have "?k \<noteq> rerun (store_keys S ns)"
    using namespaces_key_notin [of "key_prefix (store_config S)" "key_prefix (store_config S)" ns]
    by (auto simp: store_keys_def all_keys_def)
  ultimately show "represents (redis S) (store_keys S ns) (fst (remember_namespace S l ns' db)) J =
      represents (redis S) (store_keys S ns) db J"
    and "counts_leases (redis S) (store_keys S ns) (fst (remember_namespace S l ns' db)) J =
      counts_leases (redis S) (store_keys S ns) db J"
    by (auto simp: represents_def counts_leases_def redis_service.zscore_laws [OF R]
        redis_service.hget_laws [OF R] redis_service.sis_laws [OF R])
qed

text \<open>
  A reserve that is answered leases the first \<open>available_capacity\<close> jobs in turn. The namespace is
  remembered afterwards, whether or not that succeeds.
\<close>

text \<open>The jobs in turn are different from each other, and each is waiting.\<close>

lemma turn_jobs_distinct:
  assumes "good_store S" "stored S namespace db J"
  shows "distinct (map turn_job (turn_order now J))"
proof -
  have "inj_on turn_job (turns now J)"
    by (rule inj_onI) (metis option.inject turns_iff)
  then show ?thesis
    using redis_service.finite_turns [OF good_storeD(1) [OF assms(1)] assms(2) [unfolded stored_def]]
    by (simp add: distinct_map turn_order_def)
qed

lemma turns_waiting: "t \<in> turns now J \<Longrightarrow> waiting (place (J (turn_job t)))"
  unfolding turns_iff by (cases "place (J (turn_job t))") auto

lemma turn_order_waiting:
  assumes "good_store S" "stored S namespace db J" "t \<in> set (turn_order now J)"
  shows "waiting (place (J (turn_job t)))"
  using redis_service.finite_turns [OF good_storeD(1) [OF assms(1)] assms(2) [unfolded stored_def], of now]
    assms(3) by (intro turns_waiting) (simp add: turn_order_def)

lemma reserve_runs:
  assumes S: "good_store S" and J: "stored S namespace (others (L 0) db) J"
    and answered: "delivery (L 0) = Answered"
    and policy: "hget (redis S) (others (L 0) db) (cfg (store_keys S namespace)) ''retry_policy'' \<in>
      {None, Some (retry_policy_key config)}"
    and cap: "0 < capacity" "safe_int (int capacity)" "length tokens = capacity"
    and now: "now = dbl (micros (chrono S) t)"
    and d: "d = dbl (now + dbl (duration_micros (lease_duration config)))"
    and gs: "gs = zip (map turn_job (take capacity (turn_order now J))) tokens"
    and J': "J' = lease_all (worker_id config) d gs J"
  obtains db1 where "stored S namespace db1 J'"
    and "exact S namespace (others (L 0) db) J \<Longrightarrow> exact S namespace db1 J'"
    and "reserve S L namespace config capacity t tokens db =
      io_bind (io_return (parse_reserve_response (chrono S) (worker_id config)
          (''ok'' # next_text (redis S) (g14 now) J' # lease_reply d gs)))
        (\<lambda>batch db. (fst (remember_namespace S (L 1) namespace db), Ok batch)) db1"
proof -
  let ?ks = "store_keys S namespace"
  define keys where "keys = [cfg ?ks, ready ?ks, scheduled ?ks, leased ?ks, lease_meta ?ks,
    workers_last_seen ?ks, workers_config ?ks, workers_leases ?ks]"
  define args where "args = worker_id config # show_int (micros (chrono S) t) # show_nat capacity #
    show_int (duration_micros (lease_duration config)) # retry_policy_key config #
    pack_worker_config_record config # tokens"
  obtain db1 reply where script: "reserve_lua (redis S) keys args (others (L 0) db) = (db1, reply)"
    by (metis surj_pair)
  have num: "lua_number (show_int (micros (chrono S) t)) = now"
    "nat (lua_number (show_nat capacity)) = capacity"
    "dbl (now + lua_number (show_int (duration_micros (lease_duration config)))) = d"
    using cap by (simp_all add: now d)
  note ref = redis_service.reserve_refines [OF good_storeD(1) [OF S] keys_ok_store
    J [unfolded stored_def] policy _ _ _ script [unfolded keys_def args_def], unfolded num,
    OF _ gs refl]
  have len: "capacity \<le> length tokens" using cap by simp
  have rep: "represents (redis S) ?ks db1 J'" using ref(1) [OF len] by (simp add: J')
  have reply: "reply = Reply (''ok'' # next_text (redis S) (g14 now) J' # lease_reply d gs)"
    using ref(2) [OF len] by (simp add: J')
  have counts: "counts_leases (redis S) ?ks (others (L 0) db) J \<Longrightarrow>
      counts_leases (redis S) ?ks db1 J'" using ref(3) [OF len] by (simp add: J')
  have "eval S ''reserve'' (L 0) (reserve_lua (redis S)) keys args db =
      (db1, Ok (''ok'' # next_text (redis S) (g14 now) J' # lease_reply d gs))"
    using answered script reply by (intro eval_answered) simp_all
  then have "reserve S L namespace config capacity t tokens db =
      io_bind (io_return (parse_reserve_response (chrono S) (worker_id config)
          (''ok'' # next_text (redis S) (g14 now) J' # lease_reply d gs)))
        (\<lambda>batch db. (fst (remember_namespace S (L 1) namespace db), Ok batch)) db1"
    using cap by (simp add: reserve_def Let_def io_bind_def keys_def args_def)
  with that [of db1] rep counts show thesis by (simp add: stored_def exact_def)
qed

lemma reserve_applies:
  assumes S: "good_store S" and J: "stored S namespace (others (L 0) db) J"
    and answered: "delivery (L 0) = Answered" and alone: "others (L 1) = (\<lambda>db. db)"
    and policy: "hget (redis S) (others (L 0) db) (cfg (store_keys S namespace)) ''retry_policy'' \<in>
      {None, Some (retry_policy_key config)}"
    and cap: "0 < capacity" "safe_int (int capacity)" "length tokens = capacity"
    and now: "now = dbl (micros (chrono S) t)"
    and d: "d = dbl (now + dbl (duration_micros (lease_duration config)))" "i64_min \<le> d" "d \<le> i64_max"
    and gs: "gs = zip (map turn_job (take capacity (turn_order now J))) tokens"
    and J': "J' = lease_all (worker_id config) d gs J"
    and safe: "\<forall>s \<in> future_scores (g14 now) J'. safe_int s \<and> s \<noteq> 0"
    and run: "reserve S L namespace config capacity t tokens db = (db', r)"
  shows "r = Ok (reserved_batch (g14 now) J' gs)"
    and "stored S namespace db' J'"
    and "exact S namespace (others (L 0) db) J \<Longrightarrow> exact S namespace db' J'"
proof -
  obtain db1 where db1: "stored S namespace db1 J'"
      "exact S namespace (others (L 0) db) J \<Longrightarrow> exact S namespace db1 J'"
    and answer: "reserve S L namespace config capacity t tokens db =
      io_bind (io_return (parse_reserve_response (chrono S) (worker_id config)
          (''ok'' # next_text (redis S) (g14 now) J' # lease_reply d gs)))
        (\<lambda>batch db. (fst (remember_namespace S (L 1) namespace db), Ok batch)) db1"
    using reserve_runs [where L = L and db = db, OF S J answered policy cap now d(1) gs J'] by blast
  have fin: "finite (future_scores (g14 now) J')"
    by (rule redis_service.finite_future_scores [OF good_storeD(1) [OF S] db1(1) [unfolded stored_def]])
  from answer run have "db' = fst (remember_namespace S (L 1) namespace db1)"
    and r: "r = Ok (reserved_batch (g14 now) J' gs)"
    by (simp_all add: parse_reserve_ok [OF S d(2,3) fin safe] io_bind_def)
  then show "r = Ok (reserved_batch (g14 now) J' gs)" and "stored S namespace db' J'"
    and "exact S namespace (others (L 0) db) J \<Longrightarrow> exact S namespace db' J'"
    using db1 remember_namespace_frame [OF S alone] by (simp_all add: stored_def exact_def)
qed

text \<open>A worker with another retry policy is turned away and nothing changes.\<close>

lemma reserve_policy_mismatch:
  assumes answered: "delivery (L 0) = Answered"
    and policy: "hget (redis S) (others (L 0) db) (cfg (store_keys S namespace)) ''retry_policy'' = Some p"
      "p \<noteq> retry_policy_key config"
    and cap: "0 < capacity"
  shows "reserve S L namespace config capacity t tokens db =
    (others (L 0) db, Err (InvalidConfig RetryPolicyMismatch))"
proof -
  let ?ks = "store_keys S namespace"
  have "eval S ''reserve'' (L 0) (reserve_lua (redis S))
      [cfg ?ks, ready ?ks, scheduled ?ks, leased ?ks, lease_meta ?ks, workers_last_seen ?ks,
       workers_config ?ks, workers_leases ?ks]
      ([worker_id config, show_int (micros (chrono S) t), show_nat capacity,
        show_int (duration_micros (lease_duration config)), retry_policy_key config,
        pack_worker_config_record config] @ tokens) db =
      (others (L 0) db, Ok [''err'', ''invalid_config'', ''retry_policy_mismatch''])"
    using answered policy by (intro eval_answered) simp_all
  then show ?thesis
    using cap by (simp add: reserve_def Let_def io_bind_def parse_reserve_response_def
        parse_script_error_def)
qed

end
