(* ===== verification/Store_Reads.thy ===== *)
theory Store_Reads
  imports Store_Queue
begin

text \<open>
  What the reading operations of the store return, and what the two cleaning operations remove,
  when no other client gets in between their commands (the links are quiet).
\<close>

lemma query_quiet [simp]:
  "query_cmd S operation (quiet i) run db =
     (case run db of (db', Inr a) \<Rightarrow> (db', Ok a)
      | (db', Inl e) \<Rightarrow>
          (db', command_result operation (command_timeout (store_config S)) (Some (Inl e) :: 'a redis_result option)))"
  for run :: "'db \<Rightarrow> 'db \<times> 'a redis_result"
  by (simp add: query_cmd_def Let_def split_def split: prod.splits sum.splits)

section \<open>Looking up one job\<close>

definition job_record_of :: "string \<Rightarrow> job \<Rightarrow> job_record option" where
  "job_record_of j x =
     (let record = \<lparr>jr_job_id = j, jr_state = state_of (place x), jr_ready_at = None,
                    jr_schedule_at = None, jr_failure_count = fails x, jr_leased_by = None,
                    jr_failed_at = None\<rparr>
      in case place x of
           Absent \<Rightarrow> None
         | At_ready s \<Rightarrow> Some (record\<lparr>jr_ready_at := Some (s * 1000)\<rparr>)
         | At_scheduled s \<Rightarrow> Some (record\<lparr>jr_schedule_at := Some (s * 1000)\<rparr>)
         | At_leased d w t \<Rightarrow>
             Some (record\<lparr>jr_leased_by := Some \<lparr>lh_worker_id = w, lh_lease_token = t,
                                                lh_leased_until = d * 1000\<rparr>\<rparr>)
         | At_failed s \<Rightarrow> Some (record\<lparr>jr_failed_at := Some (s * 1000)\<rparr>))"

text \<open>
  The values the reader can represent: instants of at most 53 bits, a counter of 32 bits, and a
  worker id whose end is a character boundary of the stored metadata.
\<close>

definition readable_job :: "job \<Rightarrow> bool" where
  "readable_job x \<longleftrightarrow>
     safe_int (score_of (place x)) \<and> fails x < 2 ^ 32 \<and>
     (case place x of
        At_leased d w t \<Rightarrow> length w < 2 ^ 64 \<and> is_char_boundary (w @ t) (length w)
      | _ \<Rightarrow> True)"

lemma convert_count:
  "n < 2 ^ 32 \<Longrightarrow> convert_all parse_u32 [count_text n] = Some [if n = 0 then None else Some n]"
  by (cases n) simp_all

lemma get_job_quiet:
  assumes S: "good_store S" and J: "stored S namespace db J" and readable: "readable_job (J j)"
  shows "get_job S quiet namespace j db = (db, Ok (job_record_of j (J j)))"
proof -
  note rep = representsD [OF J [unfolded stored_def], of j]
  have R: "redis_zsets (redis S)"
    using good_storeD(1) [OF S] by (rule redis_service.axioms)
  have n: "fails (J j) < 2 ^ 32" and safe: "safe_int (score_of (place (J j)))"
    using readable by (auto simp: readable_job_def)
  note exact_text = redis_zsets.score_text_exact [OF R] parse_micros_safe [OF good_storeD(2) [OF S]]
  have micros: "parse_micros (chrono S) field (score_text (redis S) s) = Ok (s * 1000)"
    if "safe_int s" for s field using that by (simp add: exact_text)
  show ?thesis
    using readable safe
    by (cases "place (J j)")
       (auto simp: get_job_def query_pipe_def lookup_fields_def Let_def rep convert_count [OF n]
          converted_def io_bind_def job_of_fields_def job_record_of_def micros readable_job_def
          parse_pack_meta simp del: convert_all.simps)
qed

section \<open>Counts\<close>

lemma length_zall:
  assumes "redis_service R"
  shows "length (filter (\<lambda>e. P (zscore_of e)) (zall R db k)) =
    card {j. \<exists>s. zscore R db k j = Some s \<and> P s}"
proof -
  have "length (filter (\<lambda>e. P (zscore_of e)) (zall R db k)) =
      length (map zmember (filter (\<lambda>e. P (zscore_of e)) (zall R db k)))" by simp
  also have "\<dots> = card (set (map zmember (filter (\<lambda>e. P (zscore_of e)) (zall R db k))))"
  proof (rule distinct_card [symmetric])
    show "distinct (map zmember (filter (\<lambda>e. P (zscore_of e)) (zall R db k)))"
      using redis_zsets.zall_distinct [OF redis_service.axioms(1) [OF assms], of db k]
      by (rule distinct_map_filter)
  qed
  also have "set (map zmember (filter (\<lambda>e. P (zscore_of e)) (zall R db k))) =
      {j. \<exists>s. zscore R db k j = Some s \<and> P s}"
    by (force simp: redis_service.zall_set [OF assms])
  finally show ?thesis .
qed

text \<open>The numbers of jobs by placement.\<close>

definition counts_of :: "int \<Rightarrow> (string \<Rightarrow> job) \<Rightarrow> queue_counts" where
  "counts_of now J =
     \<lparr>ready_count = card {j. ready_at (place (J j)) \<noteq> None},
      scheduled_due_count = card {j. \<exists>s. scheduled_at (place (J j)) = Some s \<and> s \<le> now},
      scheduled_future_count = card {j. \<exists>s. scheduled_at (place (J j)) = Some s \<and> now < s},
      leased_count = card {j. leased_until (place (J j)) \<noteq> None},
      failed_count = card {j. failed_at (place (J j)) \<noteq> None}\<rparr>"

lemma store_counts_quiet:
  assumes S: "good_store S" and J: "stored S namespace db J"
  shows "store_counts S quiet namespace t db =
    (db, Ok (counts_of (dbl (micros (chrono S) t)) J))"
proof -
  have R: "redis_service (redis S)" by (rule good_storeD(1) [OF S])
  note Z = redis_service.axioms(1) [OF R]
  note rep = representsD(1-4) [OF J [unfolded stored_def]]
  have card: "zcard (redis S) db k = card {j. \<exists>s. zscore (redis S) db k j = Some s}" for k
    using length_zall [OF R, of "\<lambda>_. True"] by (simp add: redis_zsets.zcard_length [OF Z])
  have count: "zcount (redis S) db k lo hi =
      card {j. \<exists>s. zscore (redis S) db k j = Some s \<and> above lo s \<and> below hi s}" for k lo hi
    using length_zall [OF R, of "\<lambda>s. above lo s \<and> below hi s"]
    by (simp add: redis_zsets.zcount_filter [OF Z] in_range_def [abs_def])
  show ?thesis
    by (simp add: store_counts_def query_pipe_def counts_fields_def Let_def card count rep counts_of_def)
qed


section \<open>Failed jobs\<close>

definition failed_order :: "(string \<Rightarrow> job) \<Rightarrow> (int \<times> string) list" where
  "failed_order J = sorted_list_of_set {(s, j). failed_at (place (J j)) = Some s}"

lemma failed_entries:
  assumes R: "redis_service R" and rep: "represents R ks db J"
  shows "zall R db (failed ks) = map (\<lambda>(s, j). ZEntry s j) (failed_order J)"
    and "set (failed_order J) = {(s, j). failed_at (place (J j)) = Some s}"
    and "distinct (failed_order J)"
proof -
  let ?F = "{(s, j). failed_at (place (J j)) = Some s}"
  have "?F \<subseteq> (\<lambda>j. (the (failed_at (place (J j))), j)) ` {j. place (J j) \<noteq> Absent}"
  proof (rule subrelI)
    fix s j
    assume "(s, j) \<in> ?F"
    then show "(s, j) \<in> (\<lambda>j. (the (failed_at (place (J j))), j)) ` {j. place (J j) \<noteq> Absent}"
      by (intro image_eqI [of _ _ j]) auto
  qed
  then have fin: "finite ?F"
    by (rule finite_subset) (simp add: redis_service.finite_placed [OF R rep])
  then show set: "set (failed_order J) = ?F" and "distinct (failed_order J)"
    by (simp_all add: failed_order_def)
  show "zall R db (failed ks) = map (\<lambda>(s, j). ZEntry s j) (failed_order J)"
  proof (rule sorted_distinct_set_unique)
    show "sorted (zall R db (failed ks))"
      by (rule redis_zsets.zall_sorted [OF redis_service.axioms(1) [OF R]])
    show "distinct (zall R db (failed ks))"
      by (rule redis_service.zall_distinct_entries [OF R])
    have "sorted (failed_order J)" by (simp add: failed_order_def)
    then show "sorted (map (\<lambda>(s, j). ZEntry s j) (failed_order J))"
      by (rule sorted_map_mono) (auto simp: mono_on_def less_eq_zentry_def)
    show "distinct (map (\<lambda>(s, j). ZEntry s j) (failed_order J))"
      by (auto simp: distinct_map failed_order_def inj_on_def)
    show "set (zall R db (failed ks)) = set (map (\<lambda>(s, j). ZEntry s j) (failed_order J))"
      by (auto simp: redis_service.zall_set [OF R] representsD [OF rep] set image_iff)
  qed
qed

text \<open>One page: up to \<open>limit\<close> failed jobs from \<open>offset\<close> on, and a cursor when there are more.\<close>

definition failed_page :: "nat \<Rightarrow> nat \<Rightarrow> (string \<Rightarrow> job) \<Rightarrow> failed_jobs_page" where
  "failed_page offset limit J =
     \<lparr>fp_jobs = map (\<lambda>(s, j). the (job_record_of j (J j))) (take limit (drop offset (failed_order J))),
      fp_next_cursor =
        (if offset + limit < length (failed_order J) then Some (show_nat (offset + limit)) else None)\<rparr>"

text \<open>The two round trips of a page: the rows, then the counters.\<close>

lemma failed_row:
  assumes "redis_service R" "represents R ks db J" "(s, j) \<in> set (failed_order J)"
  shows "place (J j) = At_failed s"
proof -
  have "failed_at (place (J j)) = Some s" using failed_entries(2) [OF assms(1,2)] assms(3) by blast
  then show ?thesis by (cases "place (J j)") auto
qed

lemma failed_rows_query:
  assumes S: "good_store S" and rep: "represents (redis S) ks db J"
    and readable: "\<forall>j. readable_job (J j)" and bound: "offset + n < 2 ^ 63"
  shows "zrange_scores S (failed ks) offset (offset + n) db =
    (db, Inr (map (\<lambda>(s, j). (j, s)) (take (Suc n) (drop offset (failed_order J)))))"
proof -
  note R = good_storeD(1) [OF S]
  let ?rows = "take (Suc n) (drop offset (failed_order J))"
  have "zrange (redis S) db (failed ks) (int offset) (int (offset + n)) =
      map (\<lambda>(s, j). ZEntry s j) ?rows"
    using redis_zsets.zrange_slice [OF redis_service.axioms(1) [OF R], of "int offset" "int (offset + n)"]
    by (simp add: failed_entries(1) [OF R rep] take_map drop_map nat_add_distrib)
  moreover have "\<forall>e \<in> set (map (\<lambda>(s, j). ZEntry s j) ?rows). safe_int (zscore_of e)"
  proof
    fix e
    assume "e \<in> set (map (\<lambda>(s, j). ZEntry s j) ?rows)"
    then obtain s j where "(s, j) \<in> set (failed_order J)" "e = ZEntry s j"
      by (auto dest!: in_set_takeD in_set_dropD)
    with failed_row [OF R rep] readable [rule_format, of j] show "safe_int (zscore_of e)"
      by (simp add: readable_job_def)
  qed
  ultimately show ?thesis
    using bound by (simp add: zrange_scores_def scored_rows_exact [OF R] converted_def i64_max_def
        split_def comp_def)
qed

lemma failed_counts_query:
  assumes rep: "represents (redis S) ks db J" and readable: "\<forall>j. readable_job (J j)"
  shows "hmget S parse_u32 operation (quiet i) (failures ks) js db =
    (db, Ok (map (\<lambda>j. if fails (J j) = 0 then None else Some (fails (J j))) js))"
proof -
  have "convert_all parse_u32 (map (hget (redis S) db (failures ks)) js) =
      Some (map (\<lambda>j. if fails (J j) = 0 then None else Some (fails (J j))) js)"
  proof (rule convert_all_Some, rule ballI)
    fix j
    show "case hget (redis S) db (failures ks) j of
        None \<Rightarrow> (if fails (J j) = 0 then None else Some (fails (J j))) = None
      | Some v \<Rightarrow> \<exists>a. parse_u32 v = Some a \<and>
          (if fails (J j) = 0 then None else Some (fails (J j))) = Some a"
      using readable [rule_format, of j]
      by (simp add: representsD [OF rep] count_text_def readable_job_def)
  qed
  then show ?thesis by (simp add: hmget_def converted_def)
qed

lemma failed_records:
  assumes S: "good_store S" and readable: "\<forall>j. readable_job (J j)"
    and at: "\<And>s j. (s, j) \<in> set page \<Longrightarrow> place (J j) = At_failed s"
  shows "map (failed_record (chrono S)) (zip (map (\<lambda>(s, j). (j, s)) page)
      (map (\<lambda>j. if fails (J j) = 0 then None else Some (fails (J j))) (map snd page))) =
    map (\<lambda>(s, j). the (job_record_of j (J j))) page"
proof -
  have "failed_record (chrono S) ((j, s), if fails (J j) = 0 then None else Some (fails (J j))) =
      the (job_record_of j (J j))" if "(s, j) \<in> set page" for s j
  proof -
    have p: "place (J j) = At_failed s" by (rule at [OF that])
    then have "safe_int s" using readable [rule_format, of j] by (simp add: readable_job_def)
    then show ?thesis
      using p by (simp add: failed_record_def job_record_of_def from_micros_def
          chrono_service.from_safe [OF good_storeD(2) [OF S]])
  qed
  note one = this
  have "map (failed_record (chrono S)) (zip (map (\<lambda>(s, j). (j, s)) ps)
      (map (\<lambda>j. if fails (J j) = 0 then None else Some (fails (J j))) (map snd ps))) =
    map (\<lambda>(s, j). the (job_record_of j (J j))) ps" if "set ps \<subseteq> set page" for ps
    using that
  proof (induction ps)
    case (Cons p ps)
    then show ?case by (cases p) (simp add: one del: if_split)
  qed simp
  then show ?thesis by blast
qed

lemma list_failed_quiet:
  assumes S: "good_store S" and J: "stored S namespace db J"
    and readable: "\<forall>j. readable_job (J j)"
    and cursor: "case fq_cursor query of None \<Rightarrow> offset = 0 | Some c \<Rightarrow> parse_usize c = Some offset"
    and limit: "0 < fq_limit query" "offset + fq_limit query < 2 ^ 63"
  shows "list_failed S quiet namespace query db = (db, Ok (failed_page offset (fq_limit query) J))"
proof -
  let ?ks = "store_keys S namespace" and ?n = "fq_limit query"
  note rep = J [unfolded stored_def]
  define order where "order = failed_order J"
  define rows where "rows = take (Suc ?n) (drop offset order)"
  define page where "page = take ?n (drop offset order)"
  have len: "length rows > ?n \<longleftrightarrow> offset + ?n < length order"
    by (auto simp: rows_def min_def)
  define swapped where "swapped = map (\<lambda>(s, j). (j, s)) page"
  have more: "take ?n (map (\<lambda>(s, j). (j, s)) rows) = swapped"
    by (simp add: swapped_def rows_def page_def take_map min_def)
  have last: "map (\<lambda>(s, j). (j, s)) rows = swapped" if "\<not> offset + ?n < length order"
    using that by (simp add: swapped_def rows_def page_def)
  have short: "\<not> ?n < length swapped" by (simp add: swapped_def page_def)
  have ids: "map fst swapped = map snd page" by (simp add: swapped_def split_def comp_def)
  have "place (J j) = At_failed s" if "(s, j) \<in> set page" for s j
    using that failed_row [OF good_storeD(1) [OF S] rep]
    by (auto simp: page_def order_def dest!: in_set_takeD in_set_dropD)
  then have records: "map (failed_record (chrono S)) (zip swapped
      (map (\<lambda>j. if fails (J j) = 0 then None else Some (fails (J j))) (map fst swapped))) =
    map (\<lambda>(s, j). the (job_record_of j (J j))) page"
    unfolding ids unfolding swapped_def by (rule failed_records [OF S readable])
  note query = failed_rows_query [OF S rep readable limit(2), folded order_def, folded rows_def]
  have offset: "(case fq_cursor query of None \<Rightarrow> Ok 0 | Some c \<Rightarrow> parse_cursor c) = Ok offset"
    using cursor by (auto simp: parse_cursor_def split: option.splits)
  have "add_usize offset ?n = Ok (offset + ?n)" using limit by (simp add: add_usize_def)
  then show ?thesis
    using limit query records failed_counts_query [OF rep readable]
    by (cases "offset + ?n < length order")
       (simp_all add: list_failed_def offset io_bind_def Let_def len more last short failed_page_def
          flip: order_def page_def)
qed

end
