(* ===== verification/Store_Cleanup.thy ===== *)
theory Store_Cleanup
  imports Store_Reads
begin

text \<open>
  The two operations that remove data: purging failed jobs, and forgetting workers that have not
  been seen for a long time, with the listing of the workers that are left.
\<close>

section \<open>Purge\<close>

definition selects :: "chrono_api \<Rightarrow> failed_selector \<Rightarrow> (string \<Rightarrow> job) \<Rightarrow> string \<Rightarrow> bool" where
  "selects C selector J j \<longleftrightarrow>
     (case failed_at (place (J j)) of
        None \<Rightarrow> False
      | Some s \<Rightarrow>
          (case selector of
             Sel_JobId i \<Rightarrow> j = i
           | Sel_OlderThan t \<Rightarrow> s < dbl (micros C t)
           | Sel_All \<Rightarrow> True))"

text \<open>What the cleanup transaction does to a job it names, wherever the job is by then.\<close>

definition purge_job :: "job \<Rightarrow> job" where
  "purge_job x = (case place x of At_failed s \<Rightarrow> fresh Absent | _ \<Rightarrow> x\<lparr>fails := 0\<rparr>)"

definition purge_all :: "string list \<Rightarrow> (string \<Rightarrow> job) \<Rightarrow> string \<Rightarrow> job" where
  "purge_all js J = (\<lambda>j. if j \<in> set js then purge_job (J j) else J j)"

context redis_service begin

lemma fold_zrem:
  "zscore R (fold (\<lambda>j db. zrem R db k j) js db) k' i =
     (if k' = k \<and> i \<in> set js then None else zscore R db k' i)"
  "hget R (fold (\<lambda>j db. zrem R db k j) js db) = hget R db"
  "sis R (fold (\<lambda>j db. zrem R db k j) js db) = sis R db"
  by (induction js arbitrary: db) auto

lemma fold_hdel:
  "hget R (fold (\<lambda>j db. hdel R db k j) js db) k' i =
     (if k' = k \<and> i \<in> set js then None else hget R db k' i)"
  "zscore R (fold (\<lambda>j db. hdel R db k j) js db) = zscore R db"
  "sis R (fold (\<lambda>j db. hdel R db k j) js db) = sis R db"
  by (induction js arbitrary: db) auto

lemma purge_represents:
  assumes ks: "keys_ok ks" and rep: "represents R ks db J"
  shows "represents R ks (purge_jobs R ks js db) (purge_all js J)"
    and "counts_leases R ks (purge_jobs R ks js db) (purge_all js J) = counts_leases R ks db J"
proof -
  have z: "zscore R (purge_jobs R ks js db) k i =
      (if k = failed ks \<and> i \<in> set js then None else zscore R db k i)" for k i
    by (simp add: purge_jobs_def fold_hdel fold_zrem)
  have h: "hget R (purge_jobs R ks js db) k i =
      (if k = failures ks \<and> i \<in> set js then None else hget R db k i)" for k i
    by (simp add: purge_jobs_def fold_hdel fold_zrem)
  have s: "sis R (purge_jobs R ks js db) = sis R db"
    by (simp add: purge_jobs_def fold_hdel fold_zrem)
  have job: "ready_at (place (purge_job x)) = ready_at (place x)"
    "scheduled_at (place (purge_job x)) = scheduled_at (place x)"
    "leased_until (place (purge_job x)) = leased_until (place x)"
    "failed_at (place (purge_job x)) = None" "meta_of (place (purge_job x)) = meta_of (place x)"
    "fails (purge_job x) = 0" "is_leased (place (purge_job x)) = is_leased (place x)"
    "leased_by (place (purge_job x)) w = leased_by (place x) w"
    for x :: job and w
    by (cases "place x"; simp add: purge_job_def fun_eq_iff)+
  have "again (purge_job (J j)) = again (J j)" for j
    using representsD(8) [OF rep, of j] by (cases "place (J j)") (auto simp: purge_job_def)
  then show "represents R ks (purge_jobs R ks js db) (purge_all js J)"
    using rep by (simp add: represents_def z h s purge_all_def job keys_okD [OF ks])
  have "held (purge_all js J) = held J"
    unfolding held_def purge_all_def by (rule ext, rule arg_cong [where f = card]) (auto simp: job)
  then show "counts_leases R ks (purge_jobs R ks js db) (purge_all js J) = counts_leases R ks db J"
    by (simp add: counts_leases_def h keys_okD [OF ks])
qed

end

lemma select_failed_set:
  assumes S: "good_store S" and rep: "represents (redis S) ks db J"
  shows "set (select_failed S ks selector db) = {j. selects (chrono S) selector J j}"
    and "distinct (select_failed S ks selector db)"
proof -
  note R = good_storeD(1) [OF S]
  note Z = redis_service.axioms(1) [OF R]
  have all: "set (zrange (redis S) db (failed ks) 0 (- 1)) =
      {ZEntry s j | s j. failed_at (place (J j)) = Some s}"
    using redis_service.zall_set [OF R, of db "failed ks"]
    by (simp add: zall_def representsD [OF rep])
  have dist: "distinct (map zmember (zrange (redis S) db (failed ks) 0 (- 1)))"
    using redis_zsets.zall_distinct [OF Z, of db "failed ks"] by (simp add: zall_def)
  show "set (select_failed S ks selector db) = {j. selects (chrono S) selector J j}"
  proof (cases selector)
    case (Sel_JobId i)
    then show ?thesis
      by (cases "failed_at (place (J i))")
         (auto simp: select_failed_def selects_def representsD [OF rep] split: option.splits)
  next
    case (Sel_OlderThan t)
    then show ?thesis
      by (force simp: select_failed_def selects_def redis_zsets.zrangebyscore_filter [OF Z]
          all [folded zall_def] split: option.splits)
  next
    case Sel_All
    then show ?thesis
      by (force simp: select_failed_def selects_def all split: option.splits)
  qed
  show "distinct (select_failed S ks selector db)"
    using dist by (cases selector)
      (simp_all add: select_failed_def redis_zsets.zrangebyscore_filter [OF Z] zall_def
        distinct_map_filter split: option.splits)
qed

lemma purge_failed_quiet:
  assumes S: "good_store S" and J: "stored S namespace db J"
    and J': "J' = (\<lambda>j. if selects (chrono S) selector J j then fresh Absent else J j)"
  shows "snd (purge_failed S quiet namespace selector db) = Ok (card {j. selects (chrono S) selector J j})"
    and "stored S namespace (fst (purge_failed S quiet namespace selector db)) J'"
    and "exact S namespace db J \<Longrightarrow>
      exact S namespace (fst (purge_failed S quiet namespace selector db)) J'"
proof -
  let ?ks = "store_keys S namespace"
  define js where "js = select_failed S ?ks selector db"
  note sel = select_failed_set [OF S J [unfolded stored_def], of selector, folded js_def]
  have card: "card {j. selects (chrono S) selector J j} = length js"
    using distinct_card [OF sel(2)] sel(1) by simp
  have "J' = purge_all js J"
    unfolding J' purge_all_def sel(1)
    by (rule ext) (auto simp: selects_def purge_job_def split: option.splits placement.splits)
  moreover have "purge_failed S quiet namespace selector db =
      (purge_jobs (redis S) ?ks js db, Ok (length js))"
    by (simp add: purge_failed_def Let_def io_bind_def query_pipe_def purge_jobs_def flip: js_def)
  ultimately show "snd (purge_failed S quiet namespace selector db) =
      Ok (card {j. selects (chrono S) selector J j})"
    and "stored S namespace (fst (purge_failed S quiet namespace selector db)) J'"
    and "exact S namespace db J \<Longrightarrow>
      exact S namespace (fst (purge_failed S quiet namespace selector db)) J'"
    using redis_service.purge_represents [OF good_storeD(1) [OF S] keys_ok_store J [unfolded stored_def]]
    by (simp_all add: card stored_def exact_def)
qed


section \<open>Stale workers\<close>

text \<open>
  A worker is stale when its registration is gone, or when it was last seen longer ago than ten of
  its lease durations and than a day.
\<close>

definition is_stale :: "int \<Rightarrow> int \<Rightarrow> string option \<Rightarrow> bool" where
  "is_stale now_us seen record \<longleftrightarrow>
     (case record of
        None \<Rightarrow> True
      | Some r \<Rightarrow>
          (case parse_worker_config_record r of
             Ok c \<Rightarrow> clamp_i64 (now_us - seen) > stale_after_us c
           | _ \<Rightarrow> False))"

text \<open>Every registration can be read, and so can every time a worker was seen.\<close>

definition readable_workers :: "'db redis_api \<Rightarrow> namespace_keys \<Rightarrow> 'db \<Rightarrow> bool" where
  "readable_workers R ks db \<longleftrightarrow>
     (\<forall>w s. zscore R db (workers_last_seen ks) w = Some s \<longrightarrow>
        safe_int s \<and>
        (\<forall>r. hget R db (workers_config ks) w = Some r \<longrightarrow>
           (\<exists>c. parse_worker_config_record r = Ok c)))"

definition stale_worker :: "'db redis_api \<Rightarrow> namespace_keys \<Rightarrow> int \<Rightarrow> 'db \<Rightarrow> string \<Rightarrow> bool" where
  "stale_worker R ks now_us db w \<longleftrightarrow>
     (case zscore R db (workers_last_seen ks) w of
        None \<Rightarrow> False
      | Some s \<Rightarrow> is_stale now_us s (hget R db (workers_config ks) w))"

lemma stale_workers_filter:
  assumes "\<forall>e \<in> set es. \<forall>r. g (zmember e) = Some r \<longrightarrow> (\<exists>c. parse_worker_config_record r = Ok c)"
  shows "stale_workers now_us (zip (map (\<lambda>e. (zmember e, zscore_of e)) es) (map (g \<circ> zmember) es)) =
    Ok (map zmember (filter (\<lambda>e. is_stale now_us (zscore_of e) (g (zmember e))) es))"
  using assms
proof (induction es)
  case (Cons e es)
  then show ?case by (cases "g (zmember e)") (auto simp: is_stale_def)
qed simp

text \<open>Reading all workers with their registrations.\<close>

lemma all_scores_quiet:
  assumes S: "good_store S" and w: "readable_workers (redis S) ks db"
  shows "all_scores S (workers_last_seen ks) db =
    (db, Inr (map (\<lambda>e. (zmember e, zscore_of e)) (zall (redis S) db (workers_last_seen ks))))"
proof -
  note R = good_storeD(1) [OF S]
  have "\<forall>e \<in> set (zall (redis S) db (workers_last_seen ks)). safe_int (zscore_of e)"
    using w by (force simp: readable_workers_def redis_service.zall_set [OF R])
  then show ?thesis
    by (simp add: all_scores_def scored_rows_exact [OF R] converted_def flip: zall_def)
qed

lemma convert_all_id: "convert_all Some vs = Some vs"
proof (induction vs)
  case (Cons v vs)
  then show ?case by (cases v) simp_all
qed simp

lemma hmget_all:
  "hmget S Some operation (quiet i) key (map f es) db = (db, Ok (map (hget (redis S) db key \<circ> f) es))"
  by (simp add: hmget_def converted_def convert_all_id)

context redis_service begin

lemma fold_forget:
  assumes "keys_ok ks"
  shows "zscore R (fold (forget_worker R ks) ws db) k i =
      (if k = workers_last_seen ks \<and> i \<in> set ws then None else zscore R db k i)"
    and "hget R (fold (forget_worker R ks) ws db) k i =
      (if k \<in> {workers_config ks, workers_leases ks} \<and> i \<in> set ws then None else hget R db k i)"
    and "sis R (fold (forget_worker R ks) ws db) = sis R db"
  by (induction ws arbitrary: db) (auto simp: forget_worker_def keys_okD [OF assms])

end

lemma prune_quiet:
  assumes S: "good_store S" and w: "readable_workers (redis S) (store_keys S namespace) db"
    and ks: "ks = store_keys S namespace" and now: "now = micros (chrono S) t"
    and gone: "gone = stale_worker (redis S) ks now db"
  shows "snd (prune_stale_workers S quiet namespace t db) = Ok ()"
    and "zscore (redis S) (fst (prune_stale_workers S quiet namespace t db)) k i =
      (if k = workers_last_seen ks \<and> gone i then None else zscore (redis S) db k i)"
    and "hget (redis S) (fst (prune_stale_workers S quiet namespace t db)) k i =
      (if k \<in> {workers_config ks, workers_leases ks} \<and> gone i then None else hget (redis S) db k i)"
    and "sis (redis S) (fst (prune_stale_workers S quiet namespace t db)) = sis (redis S) db"
proof -
  note R = good_storeD(1) [OF S]
  define es where "es = zall (redis S) db (workers_last_seen ks)"
  define stale where "stale = map zmember
    (filter (\<lambda>e. is_stale now (zscore_of e) (hget (redis S) db (workers_config ks) (zmember e))) es)"
  have mem: "ZEntry s i \<in> set es \<longleftrightarrow> zscore (redis S) db (workers_last_seen ks) i = Some s" for s i
    by (simp add: es_def redis_zsets.zall_zscore [OF redis_service.axioms(1) [OF R]])
  have parse: "\<forall>e \<in> set es. \<forall>r. hget (redis S) db (workers_config ks) (zmember e) = Some r \<longrightarrow>
      (\<exists>c. parse_worker_config_record r = Ok c)"
  proof
    fix e
    assume "e \<in> set es"
    then show "\<forall>r. hget (redis S) db (workers_config ks) (zmember e) = Some r \<longrightarrow>
        (\<exists>c. parse_worker_config_record r = Ok c)"
      using w mem [of "zscore_of e" "zmember e"] by (auto simp: readable_workers_def ks)
  qed
  have in_stale: "i \<in> set stale \<longleftrightarrow> gone i" for i
  proof -
    have "i \<in> set stale \<longleftrightarrow> (\<exists>s. ZEntry s i \<in> set es \<and>
        is_stale now s (hget (redis S) db (workers_config ks) i))"
      by (force simp: stale_def)
    then show ?thesis by (auto simp: mem gone stale_worker_def split: option.splits)
  qed
  have "prune_stale_workers S quiet namespace t db =
      (fold (forget_worker (redis S) ks) stale db, Ok ())"
    using stale_workers_filter [OF parse, of now] all_scores_quiet [OF S w]
    by (cases "es = []"; cases "stale = []")
       (simp_all add: prune_stale_workers_def Let_def io_bind_def query_pipe_def hmget_all comp_def
          now [symmetric] stale_def flip: ks es_def)
  then show "snd (prune_stale_workers S quiet namespace t db) = Ok ()"
    and "zscore (redis S) (fst (prune_stale_workers S quiet namespace t db)) k i =
      (if k = workers_last_seen ks \<and> gone i then None else zscore (redis S) db k i)"
    and "hget (redis S) (fst (prune_stale_workers S quiet namespace t db)) k i =
      (if k \<in> {workers_config ks, workers_leases ks} \<and> gone i then None else hget (redis S) db k i)"
    and "sis (redis S) (fst (prune_stale_workers S quiet namespace t db)) = sis (redis S) db"
    using redis_service.fold_forget [OF R, of ks stale db]
    by (simp_all add: in_stale ks)
qed


section \<open>Listing the workers\<close>

text \<open>Every worker in the table registered a configuration \<open>conf w\<close> that fits the record.\<close>

definition registered ::
    "'db redis_api \<Rightarrow> namespace_keys \<Rightarrow> 'db \<Rightarrow> (string \<Rightarrow> worker_config) \<Rightarrow> bool" where
  "registered R ks db conf \<longleftrightarrow>
     (\<forall>w s. zscore R db (workers_last_seen ks) w = Some s \<longrightarrow>
        safe_int s \<and>
        hget R db (workers_config ks) w = Some (pack_worker_config_record (conf w)) \<and>
        concurrency (conf w) < 2 ^ 64 \<and> as_millis (lease_duration (conf w)) < 2 ^ 64)"

definition worker_info_of ::
    "(string \<Rightarrow> worker_config) \<Rightarrow> (string \<Rightarrow> job) \<Rightarrow> zentry \<Rightarrow> worker_info" where
  "worker_info_of conf J e =
     \<lparr>wi_worker_id = zmember e, wi_concurrency = concurrency (conf (zmember e)),
      wi_leased_count = held J (zmember e), wi_last_heartbeat_at = zscore_of e * 1000\<rparr>"

lemma registered_readable: "registered R ks db conf \<Longrightarrow> readable_workers R ks db"
  using parse_pack_worker_record by (fastforce simp: registered_def readable_workers_def)

lemma zall_filter:
  assumes R: "redis_service R"
    and z: "\<And>i. zscore R db' k i = (if P i then None else zscore R db k i)"
  shows "zall R db' k = filter (\<lambda>e. \<not> P (zmember e)) (zall R db k)"
proof (rule sorted_distinct_set_unique)
  note Z = redis_service.axioms(1) [OF R]
  show "sorted (zall R db' k)" "sorted (filter (\<lambda>e. \<not> P (zmember e)) (zall R db k))"
    by (simp_all add: redis_zsets.zall_sorted [OF Z] sorted_filter [where f = id, simplified])
  show "distinct (zall R db' k)" "distinct (filter (\<lambda>e. \<not> P (zmember e)) (zall R db k))"
    by (simp_all add: redis_service.zall_distinct_entries [OF R])
  show "set (zall R db' k) = set (filter (\<lambda>e. \<not> P (zmember e)) (zall R db k))"
  proof (rule set_eqI)
    fix e
    show "e \<in> set (zall R db' k) \<longleftrightarrow> e \<in> set (filter (\<lambda>e. \<not> P (zmember e)) (zall R db k))"
      by (cases e) (simp add: redis_zsets.zall_zscore [OF Z] z)
  qed
qed

lemma worker_infos_all:
  assumes C: "chrono_service C"
    and es: "\<forall>e \<in> set es. safe_int (zscore_of e) \<and> concurrency (conf (zmember e)) < 2 ^ 64 \<and>
      as_millis (lease_duration (conf (zmember e))) < 2 ^ 64"
  shows "worker_infos C
      (zip (zip (map (\<lambda>e. (zmember e, zscore_of e)) es)
             (map (\<lambda>e. Some (pack_worker_config_record (conf (zmember e)))) es))
        (map (\<lambda>e. if held J (zmember e) = 0 then None else Some (held J (zmember e))) es)) =
    Ok (map (worker_info_of conf J) es)"
  using es
proof (induction es)
  case (Cons e es)
  then have e: "safe_int (zscore_of e)" "parse_worker_config_record
      (pack_worker_config_record (conf (zmember e))) =
      Ok \<lparr>sw_concurrency = concurrency (conf (zmember e)),
          sw_lease_duration_ms = as_millis (lease_duration (conf (zmember e)))\<rparr>"
    by (simp_all add: parse_pack_worker_record)
  with Cons show ?case
    by (auto simp: worker_info_of_def from_micros_def chrono_service.from_safe [OF C])
qed simp

lemma list_workers_quiet:
  assumes S: "good_store S" and exact: "exact S namespace db J"
    and ks: "ks = store_keys S namespace"
    and reg: "registered (redis S) ks db conf"
    and held: "\<forall>w. held J w < 2 ^ 64"
    and gone: "gone = stale_worker (redis S) ks (micros (chrono S) t) db"
  shows "snd (list_workers S quiet namespace t db) =
    Ok (map (worker_info_of conf J)
      (filter (\<lambda>e. \<not> gone (zmember e)) (zall (redis S) db (workers_last_seen ks))))"
proof -
  note R = good_storeD(1) [OF S]
  define db1 where "db1 = fst (prune_stale_workers S quiet namespace t db)"
  note prune = prune_quiet [OF S registered_readable [OF reg [unfolded ks]] refl refl refl,
    where t = t, folded db1_def, folded ks, folded gone]
  define es where "es = filter (\<lambda>e. \<not> gone (zmember e)) (zall (redis S) db (workers_last_seen ks))"
  have es1: "zall (redis S) db1 (workers_last_seen ks) = es"
    unfolding es_def by (rule zall_filter [OF R]) (simp add: prune)
  have row: "safe_int (zscore_of e) \<and> concurrency (conf (zmember e)) < 2 ^ 64 \<and>
      as_millis (lease_duration (conf (zmember e))) < 2 ^ 64 \<and>
      hget (redis S) db1 (workers_config ks) (zmember e) =
        Some (pack_worker_config_record (conf (zmember e))) \<and>
      hget (redis S) db1 (workers_leases ks) (zmember e) = count_text (held J (zmember e))"
    if "e \<in> set es" for e
  proof -
    have "zscore (redis S) db (workers_last_seen ks) (zmember e) = Some (zscore_of e)"
      "\<not> gone (zmember e)"
      using that redis_zsets.zall_zscore [OF redis_service.axioms(1) [OF R],
        of "zscore_of e" "zmember e" db "workers_last_seen ks"] by (auto simp: es_def)
    then show ?thesis
      using reg exact by (auto simp: registered_def prune exact_def counts_leases_def ks)
  qed
  have "readable_workers (redis S) ks db1"
    using registered_readable [OF reg] by (auto simp: readable_workers_def prune keys_okD ks)
  note rows = all_scores_quiet [OF S this]
  have "map (hget (redis S) db1 (workers_config ks) \<circ> zmember) es =
      map (\<lambda>e. Some (pack_worker_config_record (conf (zmember e)))) es"
    using row by simp
  then have configs: "hmget S Some operation (quiet i) (workers_config ks) (map zmember es) db1 =
      (db1, Ok (map (\<lambda>e. Some (pack_worker_config_record (conf (zmember e)))) es))" for operation i
    by (simp only: hmget_all)
  have "convert_all parse_u64 (map (\<lambda>e. hget (redis S) db1 (workers_leases ks) (zmember e)) es) =
      Some (map (\<lambda>e. if held J (zmember e) = 0 then None else Some (held J (zmember e))) es)"
    by (rule convert_all_Some) (use row held in \<open>auto simp: count_text_def\<close>)
  then have counts: "hmget S parse_u64 operation (quiet i) (workers_leases ks) (map zmember es) db1 =
      (db1, Ok (map (\<lambda>e. if held J (zmember e) = 0 then None else Some (held J (zmember e))) es))"
    for operation i
    by (simp add: hmget_def converted_def comp_def)
  have "worker_infos (chrono S)
      (zip (zip (map (\<lambda>e. (zmember e, zscore_of e)) es)
             (map (\<lambda>e. Some (pack_worker_config_record (conf (zmember e)))) es))
        (map (\<lambda>e. if held J (zmember e) = 0 then None else Some (held J (zmember e))) es)) =
    Ok (map (worker_info_of conf J) es)"
    by (rule worker_infos_all [OF good_storeD(2) [OF S]]) (use row in blast)
  moreover have "prune_stale_workers S quiet namespace t db = (db1, Ok ())"
    using prune(1) [of] by (simp add: db1_def prod_eq_iff)
  ultimately show ?thesis
    using counts configs rows
    by (cases "es = []")
       (simp_all add: list_workers_def Let_def io_bind_def comp_def es1
          flip: ks es_def)
qed

end
