(* ===== verification/Machine.thy ===== *)
theory Machine
  imports Store_Cleanup
begin

text \<open>
  The queue as a machine. Any number of clients call the store; what reaches the server is a
  sequence of atomic events, one script run or one transaction each. A step is one such event, with
  any fate of its command: run once or not at all, answered or not. The purge transaction is a step
  of its own with whatever job ids an earlier round trip selected, so it may come after the jobs
  have moved on.
\<close>

definition keeps_queue :: "'db redis_store \<Rightarrow> string \<Rightarrow> 'db \<Rightarrow> 'db \<Rightarrow> bool" where
  "keeps_queue S ns db db' \<longleftrightarrow>
     (\<forall>J. stored S ns db J \<longrightarrow>
        (\<exists>J'. stored S ns db' J' \<and> (exact S ns db J \<longrightarrow> exact S ns db' J')))"

abbreviation alone :: "'db link \<Rightarrow> bool" where
  "alone l \<equiv> others l = (\<lambda>db. db)"

text \<open>
  \<open>idle\<close> says that only workers without a counted lease are forgotten.
\<close>

inductive queue_step :: "'db redis_store \<Rightarrow> string \<Rightarrow> bool \<Rightarrow> 'db \<Rightarrow> 'db \<Rightarrow> bool"
  for S :: "'db redis_store" and ns :: string and idle :: bool
where
  step_enqueue: "alone (L 0) \<Longrightarrow> queue_step S ns idle db (fst (enqueue S L now ns request db))"
| step_reschedule:
    "alone (L 0) \<Longrightarrow> queue_step S ns idle db (fst (reschedule S L now ns job schedule_at db))"
| step_operator:
    "alone (L 0) \<Longrightarrow>
     queue_step S ns idle db (fst (operator_transition_at S L ns (operator_name c) job now db))"
| step_heartbeat:
    "alone (L 0) \<Longrightarrow> queue_step S ns idle db (fst (heartbeat S L ns worker job token now duration db))"
| step_ack: "alone (L 0) \<Longrightarrow> queue_step S ns idle db (fst (ack S L now ns worker job token db))"
| step_complete:
    "alone (L 0) \<Longrightarrow>
     queue_step S ns idle db
       (fst (complete_and_reschedule S L ns worker job token schedule_at now db))"
| step_fail: "alone (L 0) \<Longrightarrow> queue_step S ns idle db (fst (fail_or_retry S L ns failure db))"
| step_reap: "alone (L 0) \<Longrightarrow> queue_step S ns idle db (fst (reap_expired S L ns now limit db))"
| step_reserve:
    "alone (L 0) \<Longrightarrow> alone (L 1) \<Longrightarrow> length tokens = capacity \<Longrightarrow> safe_int (int capacity) \<Longrightarrow>
     queue_step S ns idle db (fst (reserve S L ns config capacity now tokens db))"
| step_remember:
    "alone l \<Longrightarrow> queue_step S ns idle db (fst (remember_namespace S l ns' db))"
| step_purge: "queue_step S ns idle db (purge_jobs (redis S) (store_keys S ns) jobs db)"
| step_forget:
    "idle \<longrightarrow> (\<forall>w \<in> set workers. hget (redis S) db (workers_leases (store_keys S ns)) w = None) \<Longrightarrow>
     queue_step S ns idle db (fold (forget_worker (redis S) (store_keys S ns)) workers db)"

inductive_cases queue_stepE: "queue_step S ns idle db db'"

text \<open>The databases reachable from one in which the namespace has never been used.\<close>

definition unused :: "'db redis_store \<Rightarrow> string \<Rightarrow> 'db \<Rightarrow> bool" where
  "unused S ns db \<longleftrightarrow>
     (\<forall>k \<in> set (all_keys (store_keys S ns)). \<forall>j.
        zscore (redis S) db k j = None \<and> hget (redis S) db k j = None \<and> \<not> sis (redis S) db k j)"

inductive reachable :: "'db redis_store \<Rightarrow> string \<Rightarrow> bool \<Rightarrow> 'db \<Rightarrow> bool"
  for S :: "'db redis_store" and ns :: string and idle :: bool
where
  reach_unused: "unused S ns db \<Longrightarrow> reachable S ns idle db"
| reach_step: "reachable S ns idle db \<Longrightarrow> queue_step S ns idle db db' \<Longrightarrow> reachable S ns idle db'"


section \<open>Every step keeps the queue\<close>

lemma keeps_queueI:
  assumes "\<And>J. stored S ns db J \<Longrightarrow>
    \<exists>J'. stored S ns db' J' \<and> (exact S ns db J \<longrightarrow> exact S ns db' J')"
  shows "keeps_queue S ns db db'"
  using assms by (simp add: keeps_queue_def)

lemma keeps_queue_refl: "keeps_queue S ns db db"
  by (auto simp: keeps_queue_def)

lemma applies_keeps:
  assumes "alone l" "\<And>J. stored S ns db J \<Longrightarrow>
    \<exists>J' r. applies S operation ns l J db J' r out"
  shows "keeps_queue S ns db (fst out)"
proof (rule keeps_queueI)
  fix J
  assume "stored S ns db J"
  from assms(2) [OF this] obtain J' r where "applies S operation ns l J db J' r out" by blast
  with assms(1) show "\<exists>J'. stored S ns (fst out) J' \<and> (exact S ns db J \<longrightarrow> exact S ns (fst out) J')"
    by (auto simp: applies_def)
qed

lemma enqueue_keeps:
  "good_store S \<Longrightarrow> alone (L 0) \<Longrightarrow> keeps_queue S ns db (fst (enqueue S L now ns request db))"
  by (rule applies_keeps, assumption, rule exI, rule exI, rule enqueue_applies [OF _ _ refl refl refl]) simp_all

lemma reschedule_runs:
  assumes S: "good_store S" and J: "stored S ns (others (L 0) db) J"
  shows "\<exists>now requested r. applies S ''reschedule'' ns (L 0) J db
    (J(j := fst (reschedule_spec ''replace'' now requested (J j)))) r
    (reschedule S L t ns j schedule_at db)"
  unfolding reschedule_def Let_def
  by (intro exI, rule applies_job [OF J], rule redis_service.reschedule_refines [OF good_storeD(1) [OF S]
      keys_ok_store J [unfolded stored_def]], rule refl)

lemma reschedule_keeps:
  assumes S: "good_store S" and l: "alone (L 0)"
  shows "keeps_queue S ns db (fst (reschedule S L now ns j schedule_at db))"
proof (rule applies_keeps [OF l])
  fix J
  assume "stored S ns db J"
  with l have "stored S ns (others (L 0) db) J" by simp
  from reschedule_runs [where L = L and db = db, OF S this]
  show "\<exists>J' r. applies S ''reschedule'' ns (L 0) J db J' r (reschedule S L now ns j schedule_at db)"
    by blast
qed

lemma operator_keeps:
  "good_store S \<Longrightarrow> alone (L 0) \<Longrightarrow>
   keeps_queue S ns db (fst (operator_transition_at S L ns (operator_name c) job now db))"
  by (rule applies_keeps, assumption, rule exI, rule exI, rule operator_applies) simp_all

lemma heartbeat_keeps:
  "good_store S \<Longrightarrow> alone (L 0) \<Longrightarrow>
   keeps_queue S ns db (fst (heartbeat S L ns worker job token now duration db))"
  by (rule applies_keeps, assumption, rule exI, rule exI, rule heartbeat_applies [OF _ _ refl]) simp_all

lemma ack_keeps:
  "good_store S \<Longrightarrow> alone (L 0) \<Longrightarrow> keeps_queue S ns db (fst (ack S L now ns worker job token db))"
  by (rule applies_keeps, assumption, rule exI, rule exI, rule ack_applies) simp_all

lemma complete_keeps:
  "good_store S \<Longrightarrow> alone (L 0) \<Longrightarrow>
   keeps_queue S ns db (fst (complete_and_reschedule S L ns worker job token schedule_at now db))"
  by (rule applies_keeps, assumption, rule exI, rule exI, rule complete_applies) simp_all

lemma fail_runs:
  assumes S: "good_store S" and J: "stored S ns (others (L 0) db) J"
    and req: "j = fr_job_id request" "w = fr_worker_id request" "t = fr_lease_token request"
  shows "\<exists>n ak pk m bk a b c r. applies S ''fail_or_retry'' ns (L 0) J db
    (J(j := fst (fail_spec w t n ak pk m bk a b c (J j)))) r (fail_or_retry S L ns request db)"
proof -
  obtain ak pk mr bk a b c where args: "failure_args (chrono S) request =
      [j, w, t, show_int (micros (chrono S) (fr_now request)), ak, pk, mr, bk, a, b, c]"
    using failure_args_spec [of "chrono S" request] req by blast
  show ?thesis
    unfolding fail_or_retry_def Let_def args
    by (intro exI, rule applies_job [OF J], rule redis_service.fail_refines [OF good_storeD(1) [OF S]
        keys_ok_store J [unfolded stored_def]], rule refl)
qed

lemma fail_keeps:
  assumes S: "good_store S" and l: "alone (L 0)"
  shows "keeps_queue S ns db (fst (fail_or_retry S L ns request db))"
proof (rule applies_keeps [OF l])
  fix J
  assume "stored S ns db J"
  with l have "stored S ns (others (L 0) db) J" by simp
  from fail_runs [where L = L and db = db, OF S this refl refl refl, of request]
  show "\<exists>J' r. applies S ''fail_or_retry'' ns (L 0) J db J' r (fail_or_retry S L ns request db)"
    by blast
qed


lemma fst_bind_return [simp]: "fst (io_bind m (\<lambda>a. io_return (f a)) db) = fst (m db)"
  by (simp add: io_bind_def split_def split: rresult.splits)

lemma script_keeps:
  assumes l: "alone l"
    and script: "\<And>J. stored S ns db J \<Longrightarrow>
      \<exists>J'. stored S ns (fst (script keys args db)) J' \<and>
        (exact S ns db J \<longrightarrow> exact S ns (fst (script keys args db)) J')"
  shows "keeps_queue S ns db (fst (eval S operation l script keys args db))"
proof -
  have "fst (run_script S script keys args db) = fst (script keys args db)"
    by (simp add: run_script_def split_def split: reply.splits)
  then show ?thesis
    using query_cmd_db [of S operation l "run_script S script keys args" db] l script
      keeps_queue_refl [of S ns db]
    by (auto simp: eval_def keeps_queue_def)
qed

lemma reap_keeps:
  assumes S: "good_store S" and l: "alone (L 0)"
  shows "keeps_queue S ns db (fst (reap_expired S L ns now limit db))"
proof (cases "limit = 0")
  case True
  then show ?thesis by (simp add: reap_expired_def keeps_queue_refl)
next
  case False
  let ?ks = "store_keys S ns"
  let ?script = "reap_expired_lua (redis S)
    [leased ?ks, lease_meta ?ks, ready ?ks, workers_leases ?ks, rerun ?ks]
    [show_int (micros (chrono S) now), show_nat limit]"
  have "\<exists>J'. stored S ns (fst (?script db)) J' \<and> (exact S ns db J \<longrightarrow> exact S ns (fst (?script db)) J')"
    if J: "stored S ns db J" for J
  proof -
    obtain db' reply where run: "?script db = (db', reply)" by (metis surj_pair)
    from redis_service.reap_refines [OF good_storeD(1) [OF S] keys_ok_store J [unfolded stored_def]
        refl run] show ?thesis
      unfolding run stored_def exact_def by auto
  qed
  then have "keeps_queue S ns db (fst (eval S ''reap_expired'' (L 0) (reap_expired_lua (redis S))
      [leased ?ks, lease_meta ?ks, ready ?ks, workers_leases ?ks, rerun ?ks]
      [show_int (micros (chrono S) now), show_nat limit] db))"
    by (intro script_keeps [OF l])
  with False show ?thesis by (simp add: reap_expired_def Let_def del: reap_expired_lua.simps)
qed

lemma remember_keeps:
  "good_store S \<Longrightarrow> alone l \<Longrightarrow> keeps_queue S ns db (fst (remember_namespace S l ns' db))"
  by (rule keeps_queueI) (auto simp: stored_def exact_def remember_namespace_frame)

lemma keeps_queue_trans:
  "keeps_queue S ns db db1 \<Longrightarrow> keeps_queue S ns db1 db2 \<Longrightarrow> keeps_queue S ns db db2"
  unfolding keeps_queue_def by blast

lemma reserve_script_keeps:
  assumes S: "good_store S" and J: "stored S ns db J"
    and ks: "ks = store_keys S ns"
    and cap: "length tokens = capacity" "safe_int (int capacity)"
    and run: "reserve_lua (redis S)
      [cfg ks, ready ks, scheduled ks, leased ks, lease_meta ks, workers_last_seen ks,
       workers_config ks, workers_leases ks] (w # n # show_nat capacity # dur # pol # record # tokens) db =
      (db', reply)"
  shows "\<exists>J'. stored S ns db' J' \<and> (exact S ns db J \<longrightarrow> exact S ns db' J')"
proof (cases "hget (redis S) db (cfg ks) ''retry_policy'' \<in> {None, Some pol}")
  case True
  have "nat (lua_number (show_nat capacity)) \<le> length tokens" using cap by simp
  from redis_service.reserve_refines [OF good_storeD(1) [OF S] keys_ok_store J [unfolded stored_def]
      True [unfolded ks] this refl refl run [unfolded ks]]
  show ?thesis unfolding stored_def exact_def by blast
next
  case False
  then obtain p where "hget (redis S) db (cfg ks) ''retry_policy'' = Some p" "p \<noteq> pol" by auto
  from redis_service.reserve_mismatch [OF good_storeD(1) [OF S] this] run have "db' = db" by simp
  with J show ?thesis by blast
qed

lemma reserve_keeps:
  assumes S: "good_store S" and l: "alone (L 0)" "alone (L 1)"
    and cap: "length tokens = capacity" "safe_int (int capacity)"
  shows "keeps_queue S ns db (fst (reserve S L ns config capacity now tokens db))"
proof (cases "capacity = 0")
  case True
  then show ?thesis by (simp add: reserve_def keeps_queue_refl)
next
  case False
  let ?ks = "store_keys S ns"
  let ?keys = "[cfg ?ks, ready ?ks, scheduled ?ks, leased ?ks, lease_meta ?ks,
    workers_last_seen ?ks, workers_config ?ks, workers_leases ?ks]"
  let ?args = "worker_id config # show_int (micros (chrono S) now) # show_nat capacity #
    show_int (duration_micros (lease_duration config)) # retry_policy_key config #
    pack_worker_config_record config # tokens"
  let ?m = "eval S ''reserve'' (L 0) (reserve_lua (redis S)) ?keys ?args"
  have "\<exists>J'. stored S ns (fst (reserve_lua (redis S) ?keys ?args db)) J' \<and>
      (exact S ns db J \<longrightarrow> exact S ns (fst (reserve_lua (redis S) ?keys ?args db)) J')"
    if J: "stored S ns db J" for J
  proof -
    obtain db' reply where run: "reserve_lua (redis S) ?keys ?args db = (db', reply)"
      by (metis surj_pair)
    from reserve_script_keeps [OF S J refl cap run] show ?thesis unfolding run by simp
  qed
  then have first: "keeps_queue S ns db (fst (?m db))"
    by (intro script_keeps [OF l(1)])
  obtain db1 r where m: "?m db = (db1, r)" by (metis surj_pair)
  have "fst (reserve S L ns config capacity now tokens db) \<in>
      {db1, fst (remember_namespace S (L 1) ns db1)}"
    using False m by (auto simp: reserve_def Let_def io_bind_def split: rresult.splits prod.splits)
  with first m remember_keeps [OF S l(2), of ns db1 ns] show ?thesis
    by (auto intro: keeps_queue_trans)
qed

lemma purge_keeps:
  assumes S: "good_store S"
  shows "keeps_queue S ns db (purge_jobs (redis S) (store_keys S ns) jobs db)"
proof (rule keeps_queueI, rule exI)
  fix J
  assume "stored S ns db J"
  from redis_service.purge_represents [OF good_storeD(1) [OF S] keys_ok_store this [unfolded stored_def]]
  show "stored S ns (purge_jobs (redis S) (store_keys S ns) jobs db) (purge_all jobs J) \<and>
      (exact S ns db J \<longrightarrow>
       exact S ns (purge_jobs (redis S) (store_keys S ns) jobs db) (purge_all jobs J))"
    by (simp add: stored_def exact_def)
qed

lemma forget_stored:
  assumes S: "good_store S"
  shows "stored S ns (fold (forget_worker (redis S) (store_keys S ns)) workers db) J = stored S ns db J"
  by (simp add: stored_def represents_def keys_okD [OF keys_ok_store [where S = S and ns = ns]]
      redis_service.fold_forget [OF good_storeD(1) [OF S] keys_ok_store [where S = S and ns = ns]])

lemma forget_exact:
  assumes S: "good_store S"
    and idle: "\<forall>w \<in> set workers. hget (redis S) db (workers_leases (store_keys S ns)) w = None"
  shows "exact S ns (fold (forget_worker (redis S) (store_keys S ns)) workers db) J = exact S ns db J"
proof -
  have "hget (redis S) (fold (forget_worker (redis S) (store_keys S ns)) workers db)
      (workers_leases (store_keys S ns)) w = hget (redis S) db (workers_leases (store_keys S ns)) w" for w
    using idle by (simp add: redis_service.fold_forget(2) [OF good_storeD(1) [OF S]
      keys_ok_store [where S = S and ns = ns]])
  then show ?thesis by (simp add: exact_def counts_leases_def)
qed


section \<open>The invariant\<close>

lemma queue_step_stored:
  assumes S: "good_store S" and step: "queue_step S ns idle db db'" and J: "stored S ns db J"
  shows "\<exists>J'. stored S ns db' J' \<and> (idle \<longrightarrow> exact S ns db J \<longrightarrow> exact S ns db' J')"
  using step
proof cases
  case (step_forget workers)
  with J show ?thesis
    by (intro exI [of _ J]) (simp add: forget_stored [OF S] forget_exact [OF S])
next
  case (step_enqueue L now request)
  with J enqueue_keeps [OF S] show ?thesis unfolding keeps_queue_def by blast
next
  case (step_reschedule L now job schedule_at)
  with J reschedule_keeps [OF S] show ?thesis unfolding keeps_queue_def by blast
next
  case (step_operator L c job now)
  with J operator_keeps [OF S] show ?thesis unfolding keeps_queue_def by blast
next
  case (step_heartbeat L worker job token now duration)
  with J heartbeat_keeps [OF S] show ?thesis unfolding keeps_queue_def by blast
next
  case (step_ack L now worker job token)
  with J ack_keeps [OF S] show ?thesis unfolding keeps_queue_def by blast
next
  case (step_complete L worker job token schedule_at now)
  with J complete_keeps [OF S] show ?thesis unfolding keeps_queue_def by blast
next
  case (step_fail L failure)
  with J fail_keeps [OF S] show ?thesis unfolding keeps_queue_def by blast
next
  case (step_reap L now limit)
  with J reap_keeps [OF S] show ?thesis unfolding keeps_queue_def by blast
next
  case (step_reserve L tokens capacity config now)
  with J reserve_keeps [OF S] show ?thesis unfolding keeps_queue_def by blast
next
  case (step_remember l ns')
  with J remember_keeps [OF S] show ?thesis unfolding keeps_queue_def by blast
next
  case (step_purge jobs)
  with J purge_keeps [OF S] show ?thesis unfolding keeps_queue_def by blast
qed

lemma unused_stored:
  assumes "unused S ns db"
  shows "stored S ns db (\<lambda>_. fresh Absent)" "exact S ns db (\<lambda>_. fresh Absent)"
proof -
  let ?ks = "store_keys S ns"
  have none: "zscore (redis S) db k j = None" "hget (redis S) db k j = None" "\<not> sis (redis S) db k j"
    if "k \<in> set (all_keys ?ks)" for k j using assms that by (auto simp: unused_def)
  have keys: "ready ?ks \<in> set (all_keys ?ks)" "scheduled ?ks \<in> set (all_keys ?ks)"
    "leased ?ks \<in> set (all_keys ?ks)" "failed ?ks \<in> set (all_keys ?ks)"
    "lease_meta ?ks \<in> set (all_keys ?ks)" "failures ?ks \<in> set (all_keys ?ks)"
    "rerun ?ks \<in> set (all_keys ?ks)" "workers_leases ?ks \<in> set (all_keys ?ks)"
    unfolding all_keys_def list.set by blast+
  note none = none [OF keys(1)] none [OF keys(2)] none [OF keys(3)] none [OF keys(4)]
    none [OF keys(5)] none [OF keys(6)] none [OF keys(7)] none [OF keys(8)]
  show "stored S ns db (\<lambda>_. fresh Absent)"
    unfolding stored_def represents_def by (simp add: none)
  show "exact S ns db (\<lambda>_. fresh Absent)"
    unfolding exact_def counts_leases_def held_def by (simp add: none)
qed

lemma reachable_stored:
  assumes S: "good_store S" and reach: "reachable S ns idle db"
  shows "\<exists>J. stored S ns db J \<and> (idle \<longrightarrow> exact S ns db J)"
  using reach
proof induction
  case (reach_unused db)
  from unused_stored [OF this] show ?case by (intro exI conjI impI)
next
  case (reach_step db db')
  from reach_step.IH obtain J where J: "stored S ns db J" "idle \<longrightarrow> exact S ns db J" by (elim exE conjE)
  from queue_step_stored [OF S reach_step.hyps(2) J(1)]
  obtain J' where "stored S ns db' J'" "idle \<longrightarrow> exact S ns db J \<longrightarrow> exact S ns db' J'"
    by (elim exE conjE)
  with J(2) show ?case by (intro exI [of _ J'] conjI impI) simp_all
qed

end
