(* ===== verification/Machine_Effects.thy ===== *)
theory Machine_Effects
  imports Machine
begin

text \<open>
  What one step of the queue machine can do to a single job, with its cause. A step leaves the job
  known and its lease, if it has one, where it is; or it is one of the calls that end a run, take an
  expired lease back, or remove the job on purpose.
\<close>

section \<open>Causes\<close>

definition harmless :: "job \<Rightarrow> job \<Rightarrow> bool" where
  "harmless x x' \<longleftrightarrow>
     (place x \<noteq> Absent \<longrightarrow> place x' \<noteq> Absent) \<and>
     (\<forall>w t. leased_to (place x) w t \<longrightarrow> leased_to (place x') w t)"

inductive change ::
    "'db redis_store \<Rightarrow> string \<Rightarrow> 'db \<Rightarrow> 'db \<Rightarrow> string \<Rightarrow> job \<Rightarrow> job \<Rightarrow> bool"
  for S :: "'db redis_store" and ns :: string and db db' :: 'db and j :: string
    and x x' :: job
where
  kept: "harmless x x' \<Longrightarrow> change S ns db db' j x x'"
| acked:
    "alone (L 0) \<Longrightarrow> leased_to (place x) w t \<Longrightarrow> db' = fst (ack S L now ns w j t db) \<Longrightarrow>
     (again x \<Longrightarrow> place x' \<noteq> Absent) \<Longrightarrow> change S ns db db' j x x'"
| completed:
    "alone (L 0) \<Longrightarrow> leased_to (place x) w t \<Longrightarrow>
     db' = fst (complete_and_reschedule S L ns w j t schedule_at now db) \<Longrightarrow>
     place x' \<noteq> Absent \<Longrightarrow> change S ns db db' j x x'"
| run_failed:
    "alone (L 0) \<Longrightarrow> leased_to (place x) (fr_worker_id request) (fr_lease_token request) \<Longrightarrow>
     fr_job_id request = j \<Longrightarrow> db' = fst (fail_or_retry S L ns request db) \<Longrightarrow>
     place x' \<noteq> Absent \<Longrightarrow> change S ns db db' j x x'"
| reaped:
    "alone (L 0) \<Longrightarrow> leased_until (place x) = Some d \<Longrightarrow> d \<le> dbl (micros (chrono S) now) \<Longrightarrow>
     db' = fst (reap_expired S L ns now limit db) \<Longrightarrow> place x' \<noteq> Absent \<Longrightarrow>
     change S ns db db' j x x'"
| forced:
    "alone (L 0) \<Longrightarrow> is_leased (place x) \<Longrightarrow> c = Op_force_ack \<or> c = Op_force_fail \<Longrightarrow>
     db' = fst (operator_transition_at S L ns (operator_name c) j now db) \<Longrightarrow>
     (place x' = Absent \<Longrightarrow> c = Op_force_ack \<and> \<not> again x) \<Longrightarrow> change S ns db db' j x x'"
| cancelled:
    "alone (L 0) \<Longrightarrow> \<not> is_leased (place x) \<Longrightarrow>
     db' = fst (operator_transition_at S L ns (operator_name Op_cancel) j now db) \<Longrightarrow>
     change S ns db db' j x x'"
| purged:
    "failed_at (place x) \<noteq> None \<Longrightarrow> j \<in> set jobs \<Longrightarrow>
     db' = purge_jobs (redis S) (store_keys S ns) jobs db \<Longrightarrow> change S ns db db' j x x'"

definition changes :: "'db redis_store \<Rightarrow> string \<Rightarrow> 'db \<Rightarrow> 'db \<Rightarrow> (string \<Rightarrow> job) \<Rightarrow> bool" where
  "changes S ns db db' J \<longleftrightarrow>
     (\<exists>J'. stored S ns db' J' \<and> (\<forall>j. change S ns db db' j (J j) (J' j)))"

lemma harmless_refl [simp, intro]: "harmless x x"
  by (simp add: harmless_def)

lemma harmless_waiting:
  "\<not> is_leased (place x) \<Longrightarrow> place x = Absent \<or> place x' \<noteq> Absent \<Longrightarrow> harmless x x'"
  by (cases "place x") (auto simp: harmless_def)

lemma changesI:
  assumes "stored S ns db' J'" "\<And>j. change S ns db db' j (J j) (J' j)"
  shows "changes S ns db db' J"
  using assms by (auto simp: changes_def)

lemma changes_same: "stored S ns db J \<Longrightarrow> changes S ns db db' J" if "db' = db"
  using that by (auto intro: changesI kept)

lemma changes_one:
  assumes out: "applies S operation ns l J db (J(j := y)) r out"
    and y: "change S ns db (fst out) j (J j) y"
  shows "changes S ns db (fst out) J"
proof -
  obtain J' where J': "J' \<in> {J, J(j := y)}" "stored S ns (fst out) J'"
    using out by (auto simp: applies_def)
  then have "change S ns db (fst out) i (J i) (J' i)" for i
    using y by (cases "i = j") (auto intro: kept)
  with J'(2) show ?thesis by (rule changesI)
qed


section \<open>The causes of every step\<close>

lemma enqueue_harmless: "harmless x (fst (enqueue_spec request now requested x))"
  by (cases "place x")
     (auto simp: enqueue_spec_def enqueue_now_spec_def schedule_spec_def keep_spec_def move_spec_def
        Let_def harmless_def)

lemma reschedule_harmless: "harmless x (fst (reschedule_spec m now requested x))"
  by (cases "place x")
     (auto simp: reschedule_spec_def keep_spec_def move_spec_def Let_def harmless_def)

lemma enqueue_changes:
  assumes "good_store S" "alone (L 0)" "stored S ns db J"
  shows "changes S ns db (fst (enqueue S L t ns request db)) J"
proof -
  have "stored S ns (others (L 0) db) J" using assms(2,3) by simp
  from enqueue_applies [where L = L and db = db, OF assms(1) this refl refl refl]
  show ?thesis by (rule changes_one) (intro kept enqueue_harmless)
qed

lemma reschedule_changes:
  assumes "good_store S" "alone (L 0)" "stored S ns db J"
  shows "changes S ns db (fst (reschedule S L t ns j schedule_at db)) J"
proof -
  have "stored S ns (others (L 0) db) J" using assms(2,3) by simp
  from reschedule_runs [where L = L and db = db, OF assms(1) this, of j t schedule_at]
  obtain now requested r where "applies S ''reschedule'' ns (L 0) J db
      (J(j := fst (reschedule_spec ''replace'' now requested (J j)))) r
      (reschedule S L t ns j schedule_at db)" by blast
  then show ?thesis by (rule changes_one) (intro kept reschedule_harmless)
qed

lemma operator_change:
  assumes l: "alone (L 0)" and db': "db' = fst (operator_transition_at S L ns (operator_name c) j t db)"
  shows "change S ns db db' j x (operator_effect c now x)"
proof (cases "place x = Absent \<or> \<not> operator_accepts c (place x)")
  case True
  then show ?thesis by (auto simp: operator_effect_def intro: kept)
next
  case False
  have "change S ns db db' j x (operator_effect c now x)" if "c = Op_force_ack \<or> c = Op_force_fail"
    by (rule forced [where L = L, OF l _ that db']) (use that False in \<open>auto simp: operator_effect_def\<close>)
  moreover have "harmless x (operator_effect c now x)" if "c \<in> {Op_requeue, Op_retry_now, Op_force_retry}"
    by (rule harmless_waiting)
       (use that False in \<open>auto simp: operator_effect_def split: placement.splits\<close>)
  moreover have "change S ns db db' j x (operator_effect c now x)" if "c = Op_cancel"
    by (rule cancelled [where L = L, OF l _ db' [unfolded that]]) (use that False in auto)
  ultimately show ?thesis by (cases c) (auto intro: kept)
qed

lemma operator_changes:
  assumes "good_store S" "alone (L 0)" "stored S ns db J"
  shows "changes S ns db (fst (operator_transition_at S L ns (operator_name c) j t db)) J"
proof -
  have "stored S ns (others (L 0) db) J" using assms(2,3) by simp
  from operator_applies [where L = L and db = db, OF assms(1) this]
  show ?thesis by (rule changes_one) (rule operator_change [where L = L, OF assms(2) refl])
qed

lemma heartbeat_changes:
  assumes "good_store S" "alone (L 0)" "stored S ns db J"
  shows "changes S ns db (fst (heartbeat S L ns w j t now duration db)) J"
proof -
  have "stored S ns (others (L 0) db) J" using assms(2,3) by simp
  from heartbeat_applies [where L = L and db = db, OF assms(1) this refl]
  show ?thesis
  proof (rule changes_one)
    have "harmless x (fst (heartbeat_spec w t d x))" for x d
      by (cases "place x") (auto simp: heartbeat_spec_def harmless_def)
    then show "change S ns db (fst (heartbeat S L ns w j t now duration db)) j (J j)
        (fst (heartbeat_spec w t (dbl (clamp_i64 (micros (chrono S) now + duration_micros duration))) (J j)))"
      by (rule kept)
  qed
qed

lemma ack_changes:
  assumes "good_store S" "alone (L 0)" "stored S ns db J"
  shows "changes S ns db (fst (ack S L now ns w j t db)) J"
proof -
  have "stored S ns (others (L 0) db) J" using assms(2,3) by simp
  from ack_applies [where L = L and db = db, OF assms(1) this]
  show ?thesis
    by (rule changes_one) (auto simp: ack_spec_def intro: kept acked [where L = L, OF assms(2) _ refl])
qed

lemma complete_changes:
  assumes "good_store S" "alone (L 0)" "stored S ns db J"
  shows "changes S ns db (fst (complete_and_reschedule S L ns w j t schedule_at now db)) J"
proof -
  have "stored S ns (others (L 0) db) J" using assms(2,3) by simp
  from complete_applies [where L = L and db = db, OF assms(1) this]
  show ?thesis
    by (rule changes_one) (auto simp: complete_spec_def intro: kept completed [where L = L, OF assms(2) _ refl])
qed

lemma fail_changes:
  assumes "good_store S" "alone (L 0)" "stored S ns db J"
  shows "changes S ns db (fst (fail_or_retry S L ns request db)) J"
proof -
  have "stored S ns (others (L 0) db) J" using assms(2,3) by simp
  from fail_runs [where L = L and db = db, OF assms(1) this refl refl refl, of request]
  obtain n ak pk m bk a b c r where "applies S ''fail_or_retry'' ns (L 0) J db
      (J(fr_job_id request := fst (fail_spec (fr_worker_id request) (fr_lease_token request)
        n ak pk m bk a b c (J (fr_job_id request))))) r (fail_or_retry S L ns request db)" by blast
  then show ?thesis
    by (rule changes_one)
       (auto simp: fail_spec_def Let_def failed_placement_not_leased intro: kept run_failed [where L = L, OF assms(2) _ refl refl])
qed

text \<open>Reap and reserve change several jobs at once.\<close>

lemma reap_order_expired: "j \<in> set (reap_order now J) \<Longrightarrow> \<exists>d. leased_until (place (J j)) = Some d \<and> d \<le> now"
proof -
  assume "j \<in> set (reap_order now J)"
  then have "\<exists>d. (d, j) \<in> expired now J"
    by (cases "finite (expired now J)") (auto simp: reap_order_def)
  then show ?thesis by (simp add: expired_iff)
qed

lemma reap_changes:
  assumes S: "good_store S" and l: "alone (L 0)" and J: "stored S ns db J"
  shows "changes S ns db (fst (reap_expired S L ns now limit db)) J"
proof (cases "limit = 0")
  case True
  with J show ?thesis by (auto simp: reap_expired_def intro: changesI kept)
next
  case False
  let ?ks = "store_keys S ns" and ?n = "dbl (micros (chrono S) now)"
  let ?run = "reap_expired_lua (redis S)
    [leased ?ks, lease_meta ?ks, ready ?ks, workers_leases ?ks, rerun ?ks]
    [show_int (micros (chrono S) now), show_nat limit]"
  define js where "js = take (nat (lua_number (show_nat limit))) (reap_order ?n J)"
  obtain db1 reply where run: "?run db = (db1, reply)" by (metis surj_pair)
  have "fst (reap_expired S L ns now limit db) \<in> {db, db1}"
    using False l run query_cmd_db [of S "''reap_expired''" "L 0" "run_script S (reap_expired_lua (redis S))
      [leased ?ks, lease_meta ?ks, ready ?ks, workers_leases ?ks, rerun ?ks]
      [show_int (micros (chrono S) now), show_nat limit]" db]
    by (auto simp: reap_expired_def Let_def eval_def run_script_def split: reply.splits
        simp del: reap_expired_lua.simps)
  moreover have "stored S ns db1 (expire_all ?n js J)"
    using redis_service.reap_refines(1) [OF good_storeD(1) [OF S] keys_ok_store
        J [unfolded stored_def] _ run, of js]
    by (simp add: stored_def js_def)
  moreover have "change S ns db (fst (reap_expired S L ns now limit db)) j (J j) (expire_all ?n js J j)" for j
  proof (cases "j \<in> set js")
    case True
    then have "j \<in> set (reap_order ?n J)" unfolding js_def by (rule in_set_takeD)
    from reap_order_expired [OF this] obtain d where "leased_until (place (J j)) = Some d" "d \<le> ?n"
      by blast
    then show ?thesis by (rule reaped [where L = L, OF l _ _ refl]) (simp add: expire_all_iff True)
  qed (simp add: expire_all_iff kept)
  ultimately show ?thesis using changes_same [OF _ J] changesI by (metis insertE singletonD)
qed

lemma lease_all_waiting:
  assumes "\<forall>g \<in> set gs. waiting (place (J (fst g)))"
  shows "harmless (J j) (lease_all w d gs J j)"
proof (cases "j \<in> set (map fst gs)")
  case True
  then have "waiting (place (J j))" using assms by auto
  moreover have "place (lease_all w d gs J j) \<noteq> Absent" if "place (J j) \<noteq> Absent" for J :: "string \<Rightarrow> job"
    using that
    by (induction gs arbitrary: J) (auto simp: lease_all_def lease_job_def)
  ultimately show ?thesis by (intro harmless_waiting) (auto dest: waiting_not_leased)
qed (simp add: lease_all_other)

lemma reserve_changes:
  assumes S: "good_store S" and l: "alone (L 0)" "alone (L 1)" and J: "stored S ns db J"
    and cap: "length tokens = capacity" "safe_int (int capacity)"
  shows "changes S ns db (fst (reserve S L ns config capacity now tokens db)) J"
proof (cases "capacity = 0")
  case True
  with J show ?thesis by (auto simp: reserve_def intro: changesI kept)
next
  case False
  let ?ks = "store_keys S ns" and ?n = "dbl (micros (chrono S) now)"
  let ?run = "reserve_lua (redis S) [cfg ?ks, ready ?ks, scheduled ?ks, leased ?ks, lease_meta ?ks,
    workers_last_seen ?ks, workers_config ?ks, workers_leases ?ks]
    (worker_id config # show_int (micros (chrono S) now) # show_nat capacity #
     show_int (duration_micros (lease_duration config)) # retry_policy_key config #
     pack_worker_config_record config # tokens)"
  obtain db1 reply where run: "?run db = (db1, reply)" by (metis surj_pair)
  have granted: "\<exists>J'. stored S ns db1 J' \<and> (\<forall>j. harmless (J j) (J' j))"
  proof (cases "hget (redis S) db (cfg ?ks) ''retry_policy'' \<in> {None, Some (retry_policy_key config)}")
    case True
    define gs where "gs = zip (map turn_job (take (nat (lua_number (show_nat capacity)))
      (turn_order ?n J))) tokens"
    have "\<forall>g \<in> set gs. waiting (place (J (fst g)))"
      unfolding gs_def
      by (fastforce dest!: set_zip_leftD in_set_takeD dest: turn_order_waiting [OF S J])
    moreover have "nat (lua_number (show_nat capacity)) \<le> length tokens" using cap by simp
    from redis_service.reserve_refines(1) [OF good_storeD(1) [OF S] keys_ok_store J [unfolded stored_def]
        True this _ refl run, of gs]
    have "stored S ns db1 (lease_all (worker_id config)
        (dbl (?n + lua_number (show_int (duration_micros (lease_duration config))))) gs J)"
      by (simp add: stored_def gs_def)
    ultimately show ?thesis using lease_all_waiting by blast
  next
    case False
    then obtain p where "hget (redis S) db (cfg ?ks) ''retry_policy'' = Some p"
      "p \<noteq> retry_policy_key config" by auto
    from run [unfolded redis_service.reserve_mismatch [OF good_storeD(1) [OF S] this]]
    have "db1 = db" by simp
    with J show ?thesis by blast
  qed
  obtain db2 r where m: "eval S ''reserve'' (L 0) (reserve_lua (redis S))
      [cfg ?ks, ready ?ks, scheduled ?ks, leased ?ks, lease_meta ?ks, workers_last_seen ?ks,
       workers_config ?ks, workers_leases ?ks]
      (worker_id config # show_int (micros (chrono S) now) # show_nat capacity #
       show_int (duration_micros (lease_duration config)) # retry_policy_key config #
       pack_worker_config_record config # tokens) db = (db2, r)" by (metis surj_pair)
  have "db2 \<in> {db, db1}"
    using m l run query_cmd_db [of S "''reserve''" "L 0" "run_script S (reserve_lua (redis S))
      [cfg ?ks, ready ?ks, scheduled ?ks, leased ?ks, lease_meta ?ks, workers_last_seen ?ks,
       workers_config ?ks, workers_leases ?ks]
      (worker_id config # show_int (micros (chrono S) now) # show_nat capacity #
       show_int (duration_micros (lease_duration config)) # retry_policy_key config #
       pack_worker_config_record config # tokens)" db]
    by (auto simp: eval_def run_script_def split: reply.splits simp del: reserve_lua.simps)
  then obtain J' where J': "stored S ns db2 J'" "\<And>j. harmless (J j) (J' j)"
    using granted J by blast
  have "fst (reserve S L ns config capacity now tokens db) \<in>
      {db2, fst (remember_namespace S (L 1) ns db2)}"
    using False m by (auto simp: reserve_def Let_def io_bind_def split: rresult.splits prod.splits)
  then have "stored S ns (fst (reserve S L ns config capacity now tokens db)) J'"
    using J'(1) remember_namespace_frame(1) [OF S l(2)] by (auto simp: stored_def)
  then show ?thesis by (rule changesI) (intro kept J'(2))
qed

lemma purge_changes:
  assumes S: "good_store S" and J: "stored S ns db J"
  shows "changes S ns db (purge_jobs (redis S) (store_keys S ns) jobs db) J"
proof (rule changesI)
  show "stored S ns (purge_jobs (redis S) (store_keys S ns) jobs db) (purge_all jobs J)"
    unfolding stored_def
    by (rule redis_service.purge_represents(1) [OF good_storeD(1) [OF S] keys_ok_store J [unfolded stored_def]])
  show "change S ns db (purge_jobs (redis S) (store_keys S ns) jobs db) j (J j) (purge_all jobs J j)" for j
  proof (cases "j \<in> set jobs \<and> failed_at (place (J j)) \<noteq> None")
    case True
    then show ?thesis by (auto intro: purged)
  next
    case False
    then have "harmless (J j) (purge_all jobs J j)"
      by (cases "place (J j)") (auto simp: purge_all_def purge_job_def harmless_def)
    then show ?thesis by (rule kept)
  qed
qed

theorem step_changes:
  assumes S: "good_store S" and step: "queue_step S ns idle db db'" and J: "stored S ns db J"
  shows "changes S ns db db' J"
  using step
proof cases
  case (step_remember l ns')
  with J have "stored S ns db' J" by (simp add: stored_def remember_namespace_frame [OF S])
  then show ?thesis by (rule changesI) (rule kept, simp)
next
  case (step_forget workers)
  with J have "stored S ns db' J" by (simp add: forget_stored [OF S])
  then show ?thesis by (rule changesI) (rule kept, simp)
qed (use J in \<open>simp_all add: enqueue_changes [OF S] reschedule_changes [OF S] operator_changes [OF S]
    heartbeat_changes [OF S] ack_changes [OF S] complete_changes [OF S] fail_changes [OF S]
    reap_changes [OF S] reserve_changes [OF S] purge_changes [OF S]\<close>)


section \<open>What the causes mean for the stored data\<close>

definition known :: "'db redis_store \<Rightarrow> string \<Rightarrow> 'db \<Rightarrow> string \<Rightarrow> bool" where
  "known S ns db j \<longleftrightarrow>
     (\<exists>k \<in> {ready (store_keys S ns), scheduled (store_keys S ns), leased (store_keys S ns),
             failed (store_keys S ns)}. zscore (redis S) db k j \<noteq> None)"

lemma known_iff: "stored S ns db J \<Longrightarrow> known S ns db j \<longleftrightarrow> place (J j) \<noteq> Absent"
  by (cases "place (J j)") (auto simp: known_def stored_def representsD)

lemma lease_meta_iff:
  "stored S ns db J \<Longrightarrow>
   hget (redis S) db (lease_meta (store_keys S ns)) j = Some (pack_meta w t) \<longleftrightarrow>
   leased_to (place (J j)) w t"
  by (cases "place (J j)") (auto simp: stored_def representsD)

end
