(* ===== verification/Client.thy ===== *)
theory Client
  imports Store_Admin
begin

text \<open>
  The interface between the client, the worker and the store (\<^verbatim>\<open>trait QueueStore\<close> of
  \<^verbatim>\<open>store.rs\<close>), its implementation by the Redis store, the job builders
  (\<^verbatim>\<open>builder.rs\<close>) and the namespace handle (\<^verbatim>\<open>client/\<close>).
\<close>

section \<open>The queue store interface\<close>

text \<open>
  One field per method. A method that reads the system clock takes that instant as its first
  argument after the links.
\<close>

record 'db queue_store =
  qs_remember_namespace :: "'db links \<Rightarrow> string \<Rightarrow> ('db, unit) io"
  qs_list_namespaces :: "'db links \<Rightarrow> ('db, string list) io"
  qs_enqueue :: "'db links \<Rightarrow> timestamp \<Rightarrow> string \<Rightarrow> enqueue_request \<Rightarrow> ('db, enqueue_result) io"
  qs_reschedule :: "'db links \<Rightarrow> timestamp \<Rightarrow> string \<Rightarrow> string \<Rightarrow> timestamp option \<Rightarrow> ('db, reschedule_result) io"
  qs_get_job :: "'db links \<Rightarrow> string \<Rightarrow> string \<Rightarrow> ('db, job_record option) io"
  qs_counts :: "'db links \<Rightarrow> string \<Rightarrow> timestamp \<Rightarrow> ('db, queue_counts) io"
  qs_list_failed :: "'db links \<Rightarrow> string \<Rightarrow> failed_jobs_query \<Rightarrow> ('db, failed_jobs_page) io"
  qs_list_workers :: "'db links \<Rightarrow> string \<Rightarrow> timestamp \<Rightarrow> ('db, worker_info list) io"
  qs_cancel :: "'db links \<Rightarrow> timestamp \<Rightarrow> string \<Rightarrow> string \<Rightarrow> ('db, unit) io"
  qs_force_ack :: "'db links \<Rightarrow> timestamp \<Rightarrow> string \<Rightarrow> string \<Rightarrow> ('db, unit) io"
  qs_force_fail :: "'db links \<Rightarrow> string \<Rightarrow> force_fail_request \<Rightarrow> timestamp \<Rightarrow> ('db, unit) io"
  qs_requeue :: "'db links \<Rightarrow> string \<Rightarrow> string \<Rightarrow> timestamp \<Rightarrow> ('db, unit) io"
  qs_retry_now :: "'db links \<Rightarrow> string \<Rightarrow> string \<Rightarrow> timestamp \<Rightarrow> ('db, unit) io"
  qs_force_retry :: "'db links \<Rightarrow> string \<Rightarrow> string \<Rightarrow> timestamp \<Rightarrow> ('db, unit) io"
  qs_purge_failed :: "'db links \<Rightarrow> string \<Rightarrow> failed_selector \<Rightarrow> ('db, nat) io"
  qs_reserve :: "'db links \<Rightarrow> string \<Rightarrow> worker_config \<Rightarrow> nat \<Rightarrow> timestamp \<Rightarrow> string list \<Rightarrow> ('db, reserve_batch) io"
  qs_heartbeat :: "'db links \<Rightarrow> string \<Rightarrow> string \<Rightarrow> string \<Rightarrow> string \<Rightarrow> timestamp \<Rightarrow> duration \<Rightarrow> ('db, unit) io"
  qs_ack :: "'db links \<Rightarrow> timestamp \<Rightarrow> string \<Rightarrow> string \<Rightarrow> string \<Rightarrow> string \<Rightarrow> ('db, unit) io"
  qs_complete_and_reschedule :: "'db links \<Rightarrow> string \<Rightarrow> string \<Rightarrow> string \<Rightarrow> string \<Rightarrow> timestamp option \<Rightarrow> timestamp \<Rightarrow> ('db, unit) io"
  qs_fail_or_retry :: "'db links \<Rightarrow> string \<Rightarrow> failure_request \<Rightarrow> ('db, nat) io"
  qs_reap_expired :: "'db links \<Rightarrow> string \<Rightarrow> timestamp \<Rightarrow> nat \<Rightarrow> ('db, nat) io"

text \<open>\<^verbatim>\<open>impl QueueStore for RedisStore\<close>\<close>

definition redis_queue_store :: "'db redis_store \<Rightarrow> 'db queue_store" where
  "redis_queue_store S =
     \<lparr>qs_remember_namespace = (\<lambda>L. remember_namespace S (L 0)),
      qs_list_namespaces = (\<lambda>L. list_namespaces S (L 0)),
      qs_enqueue = enqueue S,
      qs_reschedule = reschedule S,
      qs_get_job = get_job S,
      qs_counts = store_counts S,
      qs_list_failed = list_failed S,
      qs_list_workers = list_workers S,
      qs_cancel = cancel S,
      qs_force_ack = force_ack S,
      qs_force_fail = force_fail S,
      qs_requeue = requeue S,
      qs_retry_now = retry_now S,
      qs_force_retry = force_retry S,
      qs_purge_failed = purge_failed S,
      qs_reserve = reserve S,
      qs_heartbeat = heartbeat S,
      qs_ack = ack S,
      qs_complete_and_reschedule = complete_and_reschedule S,
      qs_fail_or_retry = fail_or_retry S,
      qs_reap_expired = reap_expired S\<rparr>"

lemma redis_queue_store_sel [simp]:
  "qs_reserve (redis_queue_store S) = reserve S"
  "qs_heartbeat (redis_queue_store S) = heartbeat S"
  "qs_ack (redis_queue_store S) = ack S"
  "qs_complete_and_reschedule (redis_queue_store S) = complete_and_reschedule S"
  "qs_fail_or_retry (redis_queue_store S) = fail_or_retry S"
  "qs_reap_expired (redis_queue_store S) = reap_expired S"
  "qs_enqueue (redis_queue_store S) = enqueue S"
  "qs_reschedule (redis_queue_store S) = reschedule S"
  "qs_get_job (redis_queue_store S) = get_job S"
  "qs_remember_namespace (redis_queue_store S) L = remember_namespace S (L 0)"
  by (simp_all add: redis_queue_store_def)


section \<open>Handles and job builders\<close>

text \<open>
  A client and a namespace handle share the store. The clock and the coordinator they also carry
  give inputs of the operations here: the instants they read, and which arm a worker takes.
\<close>

record 'db redloop =
  rl_store :: "'db queue_store"

record 'db namespace_handle =
  nh_store :: "'db queue_store"
  nh_namespace :: string

record 'db job_builder =
  jb_namespace :: "'db namespace_handle"
  jb_job_id :: string

record 'db scheduled_job_builder =
  sb_namespace :: "'db namespace_handle"
  sb_job_id :: string
  sb_schedule_at :: timestamp
  sb_replace_mode :: replace_mode

definition builder_schedule_at :: "'db job_builder \<Rightarrow> timestamp \<Rightarrow> 'db scheduled_job_builder" where
  "builder_schedule_at b t =
     \<lparr>sb_namespace = jb_namespace b, sb_job_id = jb_job_id b, sb_schedule_at = t, sb_replace_mode = Always\<rparr>"

definition builder_into_batch_item :: "'db job_builder \<Rightarrow> enqueue_request" where
  "builder_into_batch_item b =
     \<lparr>eq_job_id = jb_job_id b, eq_schedule_at = None, eq_replace_mode = Always,
      eq_allow_existing_current_run = True\<rparr>"

definition replace_if_earlier :: "'db scheduled_job_builder \<Rightarrow> 'db scheduled_job_builder" where
  "replace_if_earlier b = b\<lparr>sb_replace_mode := IfEarlier\<rparr>"

definition replace_if_later :: "'db scheduled_job_builder \<Rightarrow> 'db scheduled_job_builder" where
  "replace_if_later b = b\<lparr>sb_replace_mode := IfLater\<rparr>"

definition scheduled_into_batch_item :: "'db scheduled_job_builder \<Rightarrow> enqueue_request" where
  "scheduled_into_batch_item b =
     \<lparr>eq_job_id = sb_job_id b, eq_schedule_at = Some (sb_schedule_at b),
      eq_replace_mode = sb_replace_mode b, eq_allow_existing_current_run = False\<rparr>"


section \<open>Namespace operations\<close>

definition validate_job_id :: "string \<Rightarrow> unit result" where
  "validate_job_id job = (if length job > 256 then Err (JobIdTooLong (length job)) else Ok ())"

text \<open>Every job operation validates the id before it calls the store.\<close>

definition validated :: "string \<Rightarrow> ('db, 'a) io \<Rightarrow> ('db, 'a) io" where
  "validated job op = io_bind (io_return (validate_job_id job)) (\<lambda>_. op)"

text \<open>A failure to remember the namespace is logged and dropped.\<close>

definition client_remember_namespace ::
    "'db queue_store \<Rightarrow> 'db links \<Rightarrow> string \<Rightarrow> 'db \<Rightarrow> 'db" where
  "client_remember_namespace Q L namespace db = fst (qs_remember_namespace Q L namespace db)"

definition enqueue_request ::
    "'db queue_store \<Rightarrow> 'db links \<Rightarrow> 'db links \<Rightarrow> timestamp \<Rightarrow> string \<Rightarrow> enqueue_request \<Rightarrow>
     ('db, enqueue_result) io" where
  "enqueue_request Q L L' system_now namespace request =
     validated (eq_job_id request)
       (io_bind (qs_enqueue Q L system_now namespace request)
         (\<lambda>result db. (client_remember_namespace Q L' namespace db, Ok result)))"

definition client_reschedule ::
    "'db queue_store \<Rightarrow> 'db links \<Rightarrow> 'db links \<Rightarrow> timestamp \<Rightarrow> string \<Rightarrow> string \<Rightarrow> timestamp option \<Rightarrow>
     ('db, reschedule_result) io" where
  "client_reschedule Q L L' system_now namespace job schedule_at =
     validated job
       (io_bind (qs_reschedule Q L system_now namespace job schedule_at)
         (\<lambda>result db. (client_remember_namespace Q L' namespace db, Ok result)))"

text \<open>
  The requests of a batch one after the other, stopping at the first error; \<open>E i\<close> are the links of
  the two calls and the system time of the \<open>i\<close>-th request.
\<close>

fun enqueue_batch_from ::
    "'db queue_store \<Rightarrow> (nat \<Rightarrow> 'db links \<times> 'db links \<times> timestamp) \<Rightarrow> string \<Rightarrow> nat \<Rightarrow>
     enqueue_request list \<Rightarrow> ('db, enqueue_result list) io" where
  "enqueue_batch_from Q E namespace i [] = io_return (Ok [])"
| "enqueue_batch_from Q E namespace i (request # requests) =
     (case E i of (L, L', system_now) \<Rightarrow>
        io_bind (enqueue_request Q L L' system_now namespace request) (\<lambda>result.
        io_bind (enqueue_batch_from Q E namespace (Suc i) requests) (\<lambda>results.
        io_return (Ok (result # results)))))"

definition enqueue_batch ::
    "'db queue_store \<Rightarrow> (nat \<Rightarrow> 'db links \<times> 'db links \<times> timestamp) \<Rightarrow> string \<Rightarrow>
     enqueue_request list \<Rightarrow> ('db, batch_enqueue_result) io" where
  "enqueue_batch Q E namespace requests =
     io_bind (enqueue_batch_from Q E namespace 0 requests) (\<lambda>results.
     io_return (Ok \<lparr>items = results\<rparr>))"

definition client_get_job ::
    "'db queue_store \<Rightarrow> 'db links \<Rightarrow> string \<Rightarrow> string \<Rightarrow> ('db, job_record option) io" where
  "client_get_job Q L namespace job = validated job (qs_get_job Q L namespace job)"

definition client_cancel ::
    "'db queue_store \<Rightarrow> 'db links \<Rightarrow> timestamp \<Rightarrow> string \<Rightarrow> string \<Rightarrow> ('db, unit) io" where
  "client_cancel Q L system_now namespace job =
     validated job (qs_cancel Q L system_now namespace job)"

definition client_force_ack ::
    "'db queue_store \<Rightarrow> 'db links \<Rightarrow> timestamp \<Rightarrow> string \<Rightarrow> string \<Rightarrow> ('db, unit) io" where
  "client_force_ack Q L system_now namespace job =
     validated job (qs_force_ack Q L system_now namespace job)"

definition client_force_fail ::
    "'db queue_store \<Rightarrow> 'db links \<Rightarrow> timestamp \<Rightarrow> string \<Rightarrow> force_fail_request \<Rightarrow> ('db, unit) io" where
  "client_force_fail Q L now namespace request =
     validated (ff_job_id request) (qs_force_fail Q L namespace request now)"

definition client_requeue ::
    "'db queue_store \<Rightarrow> 'db links \<Rightarrow> timestamp \<Rightarrow> string \<Rightarrow> string \<Rightarrow> ('db, unit) io" where
  "client_requeue Q L now namespace job = validated job (qs_requeue Q L namespace job now)"

definition client_retry_now ::
    "'db queue_store \<Rightarrow> 'db links \<Rightarrow> timestamp \<Rightarrow> string \<Rightarrow> string \<Rightarrow> ('db, unit) io" where
  "client_retry_now Q L now namespace job = validated job (qs_retry_now Q L namespace job now)"

definition client_force_retry ::
    "'db queue_store \<Rightarrow> 'db links \<Rightarrow> timestamp \<Rightarrow> string \<Rightarrow> string \<Rightarrow> ('db, unit) io" where
  "client_force_retry Q L now namespace job = validated job (qs_force_retry Q L namespace job now)"

definition client_purge_failed ::
    "'db queue_store \<Rightarrow> 'db links \<Rightarrow> string \<Rightarrow> failed_selector \<Rightarrow> ('db, nat) io" where
  "client_purge_failed Q L namespace selector = qs_purge_failed Q L namespace selector"

definition client_counts ::
    "'db queue_store \<Rightarrow> 'db links \<Rightarrow> timestamp \<Rightarrow> string \<Rightarrow> ('db, queue_counts) io" where
  "client_counts Q L now namespace = qs_counts Q L namespace now"

definition client_list_failed ::
    "'db queue_store \<Rightarrow> 'db links \<Rightarrow> string \<Rightarrow> failed_jobs_query \<Rightarrow> ('db, failed_jobs_page) io" where
  "client_list_failed Q L namespace query = qs_list_failed Q L namespace query"

definition client_list_workers ::
    "'db queue_store \<Rightarrow> 'db links \<Rightarrow> timestamp \<Rightarrow> string \<Rightarrow> ('db, worker_info list) io" where
  "client_list_workers Q L now namespace = qs_list_workers Q L namespace now"

definition client_list_namespaces :: "'db queue_store \<Rightarrow> 'db links \<Rightarrow> ('db, string list) io" where
  "client_list_namespaces Q L = qs_list_namespaces Q L"


section \<open>Facts\<close>

lemma validated_long: "length job > 256 \<Longrightarrow> validated job op db = (db, Err (JobIdTooLong (length job)))"
  by (simp add: validated_def validate_job_id_def)

lemma validated_short: "length job \<le> 256 \<Longrightarrow> validated job op db = op db"
  by (simp add: validated_def validate_job_id_def io_bind_def)

text \<open>The handle a builder carries does not show in the request it builds.\<close>

lemma builder_into_batch_item_sel [simp]:
  "eq_job_id (builder_into_batch_item b) = jb_job_id b"
  "eq_allow_existing_current_run (builder_into_batch_item b)"
  by (simp_all add: builder_into_batch_item_def)

text \<open>The result of an enqueue does not depend on whether the namespace could be remembered.\<close>

lemma enqueue_request_result:
  assumes "length (eq_job_id request) \<le> 256"
  shows "snd (enqueue_request Q L L' t namespace request db) = snd (qs_enqueue Q L t namespace request db)"
  by (simp add: enqueue_request_def validated_short [OF assms] io_bind_def split_def
      split: rresult.splits)

end
