(* ===== verification/Contract.thy ===== *)
theory Contract
  imports Client
begin

text \<open>
  What the worker relies on when it calls the queue store, as a locale, and the proof that the
  Redis store gives it: a reserve hands out the tokens it was given, in order and at most once;
  only operations on a lease report a lost lease, and they report it for the job they were called
  with; nothing panics.
\<close>

text \<open>The results a lease operation may have.\<close>

definition lease_outcome :: "string \<Rightarrow> 'a result \<Rightarrow> bool" where
  "lease_outcome job r \<longleftrightarrow> r \<noteq> Panic \<and> (\<forall>j. r = Err (LeaseMismatch j) \<longrightarrow> j = job)"

definition no_lease_outcome :: "'a result \<Rightarrow> bool" where
  "no_lease_outcome r \<longleftrightarrow> r \<noteq> Panic \<and> (\<forall>j. r \<noteq> Err (LeaseMismatch j))"

locale worker_store =
  fixes Q :: "'db queue_store"
  assumes reserve_tokens:
      "snd (qs_reserve Q L ns config capacity now tokens db) = Ok batch \<Longrightarrow>
       \<exists>k \<le> length tokens. map rj_lease_token (rb_jobs batch) = take k tokens"
    and reserve_outcome: "no_lease_outcome (snd (qs_reserve Q L ns config capacity now tokens db))"
    and reap_outcome: "no_lease_outcome (snd (qs_reap_expired Q L ns now limit db))"
    and heartbeat_outcome:
      "lease_outcome job (snd (qs_heartbeat Q L ns worker job token now duration db))"
    and ack_outcome: "lease_outcome job (snd (qs_ack Q L system_now ns worker job token db))"
    and complete_outcome:
      "lease_outcome job (snd (qs_complete_and_reschedule Q L ns worker job token schedule_at now db))"
    and fail_outcome: "lease_outcome (fr_job_id request) (snd (qs_fail_or_retry Q L ns request db))"
begin

lemma reserve_length:
  assumes "snd (qs_reserve Q L ns config capacity now tokens db) = Ok batch"
  shows "length (rb_jobs batch) \<le> length tokens"
proof -
  from reserve_tokens [OF assms] obtain k where "map rj_lease_token (rb_jobs batch) = take k tokens"
    by blast
  then have "length (rb_jobs batch) = length (take k tokens)" by (metis length_map)
  then show ?thesis by simp
qed

lemma reserve_token_set:
  assumes "snd (qs_reserve Q L ns config capacity now tokens db) = Ok batch"
  shows "set (map rj_lease_token (rb_jobs batch)) \<subseteq> set tokens"
    and "distinct tokens \<Longrightarrow> distinct (map rj_lease_token (rb_jobs batch))"
proof -
  from reserve_tokens [OF assms] obtain k where k: "map rj_lease_token (rb_jobs batch) = take k tokens"
    by blast
  show "set (map rj_lease_token (rb_jobs batch)) \<subseteq> set tokens"
    unfolding k by (rule set_take_subset)
  show "distinct tokens \<Longrightarrow> distinct (map rj_lease_token (rb_jobs batch))"
    unfolding k by (rule distinct_take)
qed

end


section \<open>The Redis store\<close>

text \<open>Errors of the connection are never lease errors.\<close>

lemma query_outcome: "no_lease_outcome (snd (query_cmd S operation l run db))"
  unfolding no_lease_outcome_def
  using query_cmd_errors [of S operation l run db] by fastforce

lemma eval_outcome: "no_lease_outcome (snd (eval S operation l script keys args db))"
  unfolding eval_def by (rule query_outcome)

lemma bind_outcome:
  assumes "no_lease_outcome (snd (m db))"
    and "\<And>a db'. m db = (db', Ok a) \<Longrightarrow> lease_outcome job (snd (f a db'))"
  shows "lease_outcome job (snd (io_bind m f db))"
  using assms
  by (cases "m db"; cases "snd (m db)") (auto simp: io_bind_def lease_outcome_def no_lease_outcome_def)

lemma bind_no_lease:
  assumes "no_lease_outcome (snd (m db))"
    and "\<And>a db'. m db = (db', Ok a) \<Longrightarrow> no_lease_outcome (snd (f a db'))"
  shows "no_lease_outcome (snd (io_bind m f db))"
  using assms
  by (cases "m db"; cases "snd (m db)") (auto simp: io_bind_def no_lease_outcome_def)

lemma parse_script_error_job: "parse_script_error job rs = LeaseMismatch j \<Longrightarrow> j = job"
  by (auto simp: parse_script_error_def split: option.splits if_splits)

lemma parse_lease_outcome: "lease_outcome job (parse_lease_response job rs)"
  by (auto simp: lease_outcome_def parse_lease_response_def parse_script_error_job)

lemma parse_micros_outcome [simp]:
  "parse_micros C field v \<noteq> Panic" "parse_micros C field v \<noteq> Err (LeaseMismatch j)"
  by (auto simp: parse_micros_def parse_i64_def from_micros_def)

lemma parse_failure_outcome: "lease_outcome job (parse_failure_response C job rs)"
  by (auto simp: lease_outcome_def parse_failure_response_def parse_state_def parse_script_error_job
      split: option.splits if_splits)

lemma parse_reap_outcome:
  "get_at rs 0 = Some ''ok'' \<Longrightarrow> no_lease_outcome (parse_reap_response ns rs)"
  by (auto simp: no_lease_outcome_def parse_reap_response_def)


text \<open>The shape of a reserve reply: granted jobs paired with the first tokens.\<close>

definition granted :: "int \<Rightarrow> string list \<Rightarrow> string list \<Rightarrow> string list" where
  "granted d jobs tokens = concat (map (\<lambda>(j, t). [j, t, show_int d]) (zip jobs tokens))"

lemma granted_simps [simp]:
  "granted d [] tokens = []"
  "granted d (j # jobs) (t # tokens) = j # t # show_int d # granted d jobs tokens"
  by (simp_all add: granted_def)

lemma reserve_loop_reply:
  "\<exists>jobs. length jobs \<le> length tokens \<and>
     snd (reserve_loop n R rd sc le lm wl w now dur tokens db) = granted (dbl (now + dur)) jobs tokens"
proof (induction n arbitrary: tokens db)
  case 0
  show ?case by (intro exI [of _ "[]"]) simp
next
  case (Suc n)
  define pick where "pick = choose_source rd sc (zrange R db rd 0 0)
    (snd (drop_duplicates (zcard R db sc) R rd sc le now db (due_candidate R sc now db)))"
  show ?case
  proof (cases pick)
    case None
    then show ?thesis
      by (intro exI [of _ "[]"]) (simp add: split_def Let_def pick_def)
  next
    case (Some choice)
    show ?thesis
    proof (cases tokens)
      case Nil
      with Some show ?thesis
        by (intro exI [of _ "[]"]) (simp add: split_def Let_def pick_def)
    next
      case (Cons t ts)
      define db3 where "db3 = grant_lease R le lm wl w (zmember (snd choice)) t (dbl (now + dur))
        (zrem R (fst (drop_duplicates (zcard R db sc) R rd sc le now db (due_candidate R sc now db)))
          (fst choice) (zmember (snd choice)))"
      from Suc.IH [of ts db3] obtain jobs where "length jobs \<le> length ts"
        "snd (reserve_loop n R rd sc le lm wl w now dur ts db3) = granted (dbl (now + dur)) jobs ts"
        by blast
      with Some Cons show ?thesis
        by (intro exI [of _ "zmember (snd choice) # jobs"])
           (simp add: split_def Let_def pick_def db3_def int_string_def)
    qed
  qed
qed

lemma reserve_script_reply:
  assumes "reserve_lua R
      [cfg ks, ready ks, scheduled ks, leased ks, lease_meta ks, workers_last_seen ks,
       workers_config ks, workers_leases ks] (w # n # capacity # dur # pol # record # tokens) db =
    (db', Reply rs)"
  shows "rs = [''err'', ''invalid_config'', ''retry_policy_mismatch''] \<or>
    (\<exists>next d jobs. length jobs \<le> length tokens \<and> rs = ''ok'' # next # granted d jobs tokens)"
proof (cases "hget R db (cfg ks) ''retry_policy'' \<in> {None, Some pol}")
  case True
  define db3 where "db3 = hset R (zadd R (if hget R db (cfg ks) ''retry_policy'' = None
      then hset R (hset R db (cfg ks) ''version'' ''1'') (cfg ks) ''retry_policy'' pol else db)
    (workers_last_seen ks) (lua_number n) w) (workers_config ks) w record"
  define loop where "loop = reserve_loop (nat (lua_number capacity)) R (ready ks) (scheduled ks)
    (leased ks) (lease_meta ks) (workers_leases ks) w (lua_number n) (lua_number dur) tokens db3"
  have "\<exists>jobs. length jobs \<le> length tokens \<and>
      snd loop = granted (dbl (lua_number n + lua_number dur)) jobs tokens"
    unfolding loop_def by (rule reserve_loop_reply)
  then obtain jobs where jobs: "length jobs \<le> length tokens"
    "snd loop = granted (dbl (lua_number n + lua_number dur)) jobs tokens" by blast
  have "rs = ''ok'' # (case zrangebyscore R (fst loop) (scheduled ks) (Excl (g14 (lua_number n)))
      PosInf (Some 1) of [] \<Rightarrow> ''0'' | e # _ \<Rightarrow> score_text R (zscore_of e)) # snd loop"
    using assms True
    by (cases "hget R db (cfg ks) ''retry_policy''") (auto simp: loop_def db3_def split_def Let_def)
  with jobs show ?thesis by blast
next
  case False
  with assms show ?thesis by (auto split: if_splits)
qed

lemma parse_granted:
  assumes "parse_reserved (granted d jobs tokens) = Ok js"
  shows "map rj_lease_token js = map snd (zip jobs tokens)"
  using assms
proof (induction jobs arbitrary: tokens js)
  case (Cons j jobs)
  then show ?case by (cases tokens) (auto simp: granted_def)
qed simp

lemma parse_granted_outcome: "no_lease_outcome (parse_reserved (granted d jobs tokens))"
proof (induction jobs arbitrary: tokens)
  case (Cons j jobs)
  show ?case
  proof (cases tokens)
    case (Cons t ts)
    with Cons.IH [of ts] show ?thesis by (auto simp: no_lease_outcome_def parse_i64_def)
  qed (simp add: granted_def no_lease_outcome_def)
qed (simp add: no_lease_outcome_def)

lemma parse_reserve_granted:
  "no_lease_outcome (parse_reserve_response C w (''ok'' # next # granted d jobs tokens))"
  "parse_reserve_response C w (''ok'' # next # granted d jobs tokens) = Ok batch \<Longrightarrow>
   map rj_lease_token (rb_jobs batch) = map snd (zip jobs tokens)"
  using parse_granted_outcome [of d jobs tokens]
  by (auto simp: parse_reserve_response_def no_lease_outcome_def dest: parse_granted)

lemma parse_reserve_mismatch [simp]:
  "parse_reserve_response C w [''err'', ''invalid_config'', ''retry_policy_mismatch''] =
   Err (InvalidConfig RetryPolicyMismatch)"
  by (simp add: parse_reserve_response_def parse_script_error_def)

lemma eval_reply:
  "eval S operation l script keys args db = (db', Ok rs) \<Longrightarrow>
   script keys args (others l db) = (db', Reply rs)"
  by (cases "script keys args (others l db)"; cases "snd (script keys args (others l db))")
     (auto simp: eval_def run_script_def dest!: query_cmd_Ok)

text \<open>The script call inside a reserve.\<close>

definition reserve_command ::
    "'db redis_store \<Rightarrow> 'db links \<Rightarrow> string \<Rightarrow> worker_config \<Rightarrow> nat \<Rightarrow> timestamp \<Rightarrow> string list \<Rightarrow>
     ('db, string list) io" where
  "reserve_command S L ns config capacity now tokens =
     (let ks = store_keys S ns
      in eval S ''reserve'' (L 0) (reserve_lua (redis S))
           [cfg ks, ready ks, scheduled ks, leased ks, lease_meta ks, workers_last_seen ks,
            workers_config ks, workers_leases ks]
           ([worker_id config, show_int (micros (chrono S) now), show_nat capacity,
             show_int (duration_micros (lease_duration config)), retry_policy_key config,
             pack_worker_config_record config] @ tokens))"

lemma reserve_unfold:
  "capacity \<noteq> 0 \<Longrightarrow> reserve S L ns config capacity now tokens =
    io_bind (reserve_command S L ns config capacity now tokens) (\<lambda>response.
      io_bind (io_return (parse_reserve_response (chrono S) (worker_id config) response))
        (\<lambda>batch db. (fst (remember_namespace S (L 1) ns db), Ok batch)))"
  by (simp add: reserve_def reserve_command_def Let_def)

lemma reserve_command_outcome:
  "no_lease_outcome (snd (reserve_command S L ns config capacity now tokens db))"
  unfolding reserve_command_def Let_def by (rule eval_outcome)

lemma reserve_command_reply:
  assumes "reserve_command S L ns config capacity now tokens db = (db', Ok rs)"
  shows "rs = [''err'', ''invalid_config'', ''retry_policy_mismatch''] \<or>
    (\<exists>next d jobs. length jobs \<le> length tokens \<and> rs = ''ok'' # next # granted d jobs tokens)"
  using eval_reply [OF assms [unfolded reserve_command_def Let_def]]
  unfolding append.simps by (rule reserve_script_reply)

lemma bind_final:
  "snd (io_bind (io_return r) (\<lambda>a db. (f db, Ok a)) db) = r"
  by (cases r) (simp_all add: io_bind_def)

lemma redis_reserve_outcome: "no_lease_outcome (snd (reserve S L ns config capacity now tokens db))"
proof (cases "capacity = 0")
  case True
  then show ?thesis by (simp add: reserve_def no_lease_outcome_def)
next
  case False
  show ?thesis
    unfolding reserve_unfold [OF False]
  proof (rule bind_no_lease [OF reserve_command_outcome])
    fix rs db'
    assume "reserve_command S L ns config capacity now tokens db = (db', Ok rs)"
    from reserve_command_reply [OF this] have "no_lease_outcome (parse_reserve_response (chrono S) (worker_id config) rs)"
      using parse_reserve_granted(1) by (auto simp: no_lease_outcome_def)
    then show "no_lease_outcome (snd (io_bind
        (io_return (parse_reserve_response (chrono S) (worker_id config) rs))
        (\<lambda>batch db. (fst (remember_namespace S (L 1) ns db), Ok batch)) db'))"
      by (simp only: bind_final)
  qed
qed

lemma redis_reserve_tokens:
  assumes ok: "snd (reserve S L ns config capacity now tokens db) = Ok batch"
  shows "\<exists>k \<le> length tokens. map rj_lease_token (rb_jobs batch) = take k tokens"
proof (cases "capacity = 0")
  case True
  with ok show ?thesis by (auto simp: reserve_def)
next
  case False
  obtain db1 r where m_db: "reserve_command S L ns config capacity now tokens db = (db1, r)"
    by (metis surj_pair)
  from ok obtain rs where rs: "r = Ok rs"
    unfolding reserve_unfold [OF False] by (cases r) (simp_all add: m_db)
  have "parse_reserve_response (chrono S) (worker_id config) rs = Ok batch"
    using ok unfolding reserve_unfold [OF False] by (simp add: m_db rs bind_final)
  note parsed = this
  have "\<exists>next d jobs. length jobs \<le> length tokens \<and> rs = ''ok'' # next # granted d jobs tokens"
    using reserve_command_reply [OF m_db [unfolded rs]] parsed by (elim disjE) simp_all
  then obtain next_at d jobs where jobs: "length jobs \<le> length tokens"
    "rs = ''ok'' # next_at # granted d jobs tokens" by (elim exE conjE)
  from parsed have "map rj_lease_token (rb_jobs batch) = map snd (zip jobs tokens)"
    unfolding jobs(2) by (rule parse_reserve_granted(2))
  then have "map rj_lease_token (rb_jobs batch) = take (length jobs) tokens"
    by (simp add: map_snd_zip_take min_def)
  with jobs(1) show ?thesis by blast
qed

lemma redis_reap_outcome: "no_lease_outcome (snd (reap_expired S L ns now limit db))"
proof (cases "limit = 0")
  case True
  then show ?thesis by (simp add: reap_expired_def no_lease_outcome_def)
next
  case False
  show ?thesis
    unfolding reap_expired_def Let_def if_not_P [OF False]
  proof (rule bind_no_lease [OF eval_outcome])
    fix rs db'
    assume "eval S ''reap_expired'' (L 0) (reap_expired_lua (redis S))
      [leased (store_keys S ns), lease_meta (store_keys S ns), ready (store_keys S ns),
       workers_leases (store_keys S ns), rerun (store_keys S ns)]
      [show_int (micros (chrono S) now), show_nat limit] db = (db', Ok rs)"
    from eval_reply [OF this] have "get_at rs 0 = Some ''ok''"
      by (auto simp: split_def Let_def)
    then show "no_lease_outcome (snd (io_return (parse_reap_response ns rs) db'))"
      by (simp add: parse_reap_outcome)
  qed
qed

text \<open>The Redis store is a store the worker can rely on, whatever Redis does.\<close>

interpretation redis_store: worker_store "redis_queue_store S" for S :: "'db redis_store"
proof unfold_locales
  fix L ns config capacity now tokens db batch
  assume "snd (qs_reserve (redis_queue_store S) L ns config capacity now tokens db) = Ok batch"
  then show "\<exists>k \<le> length tokens. map rj_lease_token (rb_jobs batch) = take k tokens"
    by (simp add: redis_reserve_tokens)
qed (simp_all add: redis_reserve_outcome redis_reap_outcome heartbeat_def ack_def
    complete_and_reschedule_def fail_or_retry_def Let_def
    bind_outcome [OF eval_outcome] parse_lease_outcome parse_failure_outcome)

end
