(* ===== verification/Demo.thy ===== *)
theory Demo
  imports Machine Contract
begin

text \<open>
  A small queue in the in-memory Redis, on which the properties are applied: job \<open>a\<close> leased by
  worker \<open>w\<close> with a rerun request, \<open>b\<close> ready, \<open>c\<close> scheduled, \<open>d\<close> failed.
\<close>

definition demo_store :: "mem_db redis_store" where
  "demo_store =
     \<lparr>redis = mem_redis, chrono = chrono_range,
      store_config = \<lparr>deployment = Standalone ''redis://localhost'', key_prefix = ''app'',
                      command_timeout = 5000000000\<rparr>\<rparr>"

definition demo_handle :: "mem_db namespace_handle" where
  "demo_handle = \<lparr>nh_store = redis_queue_store demo_store, nh_namespace = ''mail''\<rparr>"

definition demo_keys :: namespace_keys where
  "demo_keys = store_keys demo_store ''mail''"

definition demo_queue :: "string \<Rightarrow> job" where
  "demo_queue =
     (\<lambda>_. fresh Absent)
       (''a'' := \<lparr>place = At_leased 9000 ''w'' ''t'', fails = 1, again = True\<rparr>,
        ''b'' := fresh (At_ready 100),
        ''c'' := fresh (At_scheduled 400),
        ''d'' := \<lparr>place = At_failed 200, fails = 3, again = False\<rparr>)"

definition demo_db :: mem_db where
  "demo_db =
     \<lparr>mz = (\<lambda>_. [])(ready demo_keys := [(''b'', 100)], scheduled demo_keys := [(''c'', 400)],
             leased demo_keys := [(''a'', 9000)], failed demo_keys := [(''d'', 200)]),
      mh = (\<lambda>_ _. None)
        (lease_meta demo_keys := [''a'' \<mapsto> pack_meta ''w'' ''t''],
         failures demo_keys := [''a'' \<mapsto> show_nat 1, ''d'' \<mapsto> show_nat 3],
         workers_leases demo_keys := [''w'' \<mapsto> show_nat 1]),
      ms = (\<lambda>_. [])(rerun demo_keys := [''a''])\<rparr>"

lemma demo_good [simp]: "good_store demo_store"
  by (simp add: good_store_def demo_store_def mem.redis_service_axioms
      chrono_range.chrono_service_axioms)

lemma demo_store_sel [simp]:
  "redis demo_store = mem_redis" "chrono demo_store = chrono_range"
  by (simp_all add: demo_store_def)

lemma demo_keys_ok [simp]: "keys_ok demo_keys"
  by (simp add: demo_keys_def)

lemma demo_stored [simp]: "stored demo_store ''mail'' demo_db demo_queue"
  unfolding stored_def demo_keys_def [symmetric] represents_def
  by (simp add: demo_db_def demo_queue_def mem_zscore_def keys_okD [OF demo_keys_ok] count_text_def)

lemma demo_exact [simp]: "exact demo_store ''mail'' demo_db demo_queue"
proof -
  have "{j. leased_by (place (demo_queue j)) w} = (if w = ''w'' then {''a''} else {})" for w
    by (auto simp: demo_queue_def split: if_splits)
  then show ?thesis
    by (simp add: exact_def counts_leases_def held_def demo_db_def demo_keys_def [symmetric]
        count_text_def)
qed

lemma empty_unused [simp]: "unused demo_store ns empty_db"
  by (simp add: unused_def empty_db_def mem_zscore_def)

lemma demo_place:
  "place (demo_queue ''a'') = At_leased 9000 ''w'' ''t''" "again (demo_queue ''a'')"
  "fails (demo_queue ''a'') = 1"
  "place (demo_queue ''b'') = At_ready 100" "place (demo_queue ''c'') = At_scheduled 400"
  "place (demo_queue ''d'') = At_failed 200" "fails (demo_queue ''d'') = 3"
  "place (demo_queue ''z'') = Absent"
  by (simp_all add: demo_queue_def)


section \<open>Reserving\<close>

text \<open>A second worker on the same queue, and what a reserve of two jobs gives it.\<close>

lemma demo_turn_of:
  "turn_of 500 j (place (demo_queue j)) =
     (if j = ''b'' then Some (100, False, ''b'') else if j = ''c'' then Some (400, True, ''c'') else None)"
  by (simp add: demo_queue_def)

lemma demo_turn_set: "turns 500 demo_queue = {(100, False, ''b''), (400, True, ''c'')}"
proof
  show "turns 500 demo_queue \<subseteq> {(100, False, ''b''), (400, True, ''c'')}"
    unfolding turns_def demo_turn_of by (auto split: if_splits)
  have "(100, False, ''b'') \<in> turns 500 demo_queue" "(400, True, ''c'') \<in> turns 500 demo_queue"
    by (simp_all add: turns_iff demo_turn_of)
  then show "{(100, False, ''b''), (400, True, ''c'')} \<subseteq> turns 500 demo_queue" by blast
qed

lemma demo_turns: "turn_order 500 demo_queue = [(100, False, ''b''), (400, True, ''c'')]"
  by (simp add: turn_order_def demo_turn_set)

definition demo_config :: worker_config where
  "demo_config =
     \<lparr>worker_id = ''v'', concurrency = 2, retry_policy = Policy_never, lease_duration = 30000000,
      heartbeat_interval = 10000000, reap_interval = 10000000, poll_interval_min = 1000000,
      poll_interval_max = 8000000\<rparr>"

lemma demo_worker: "worker_id demo_config = ''v''"
  by (simp add: demo_config_def)

lemma demo_policy: "mh demo_db (cfg demo_keys) f = None"
  by (simp add: demo_db_def keys_okD [OF demo_keys_ok])

lemma demo_not_scheduled:
  "place (lease_all ''v'' 30500 [(''b'', ''t1''), (''c'', ''t2'')] demo_queue j) \<noteq> At_scheduled s"
  by (simp add: lease_all_def lease_job_def demo_queue_def)

lemma demo_reserve_both:
  defines "J \<equiv> lease_all ''v'' 30500 [(''b'', ''t1''), (''c'', ''t2'')] demo_queue"
  shows "snd (reserve demo_store quiet ''mail'' demo_config 2 500000 [''t1'', ''t2''] demo_db) =
      Ok (reserved_batch (g14 500) J [(''b'', ''t1''), (''c'', ''t2'')]) \<and>
    stored demo_store ''mail'' (fst (reserve demo_store quiet ''mail'' demo_config 2 500000 [''t1'', ''t2''] demo_db)) J"
proof -
  have stored: "stored demo_store ''mail'' (others (quiet 0) demo_db) demo_queue" by simp
  have J: "J = lease_all (worker_id demo_config) 30500 [(''b'', ''t1''), (''c'', ''t2'')] demo_queue"
    by (simp add: J_def demo_worker)
  have future: "future_scores b J = {}" for b
    using demo_not_scheduled by (auto simp: future_scores_def J_def)
  note applied = reserve_applies [where L = quiet and db = demo_db and now = 500 and d = 30500,
    OF demo_good stored _ _ _ _ _ _ _ _ _ _ _ J _ prod.collapse [symmetric]]
  show ?thesis
    using applied(1,2)
    by (simp add: demo_policy demo_keys_def [symmetric] safe_int_def micros_def demo_config_def
        duration_micros_def as_micros_def i64_min_def i64_max_def demo_turns future)
qed

lemma demo_reserve:
  "snd (reserve demo_store quiet ''mail'' demo_config 2 500000 [''t1'', ''t2''] demo_db) =
     Ok \<lparr>rb_jobs = [\<lparr>rj_job_id = ''b'', rj_lease_token = ''t1''\<rparr>,
                    \<lparr>rj_job_id = ''c'', rj_lease_token = ''t2''\<rparr>],
         rb_next_schedule_at = None\<rparr>"
  using demo_reserve_both demo_not_scheduled
  by (simp add: reserved_batch_def next_schedule_def future_scores_def)

end
