(* ===== verification/Safety_Properties.thy ===== *)
theory Safety_Properties
  imports Machine_Effects Demo
begin

text \<open>
  The two promises a job queue is used for: no job is lost, and no two workers hold a job at the
  same time. Both are stated of one step of the queue machine from any database that stores a
  queue, as every reachable one does (\<^verbatim>\<open>reachable_stored\<close>).
\<close>

text \<open>
  C3. No step of the queue loses a job: not a crash, a lost reply, a failed run, an expired lease,
  a heartbeat, a reserve or the cleanup of workers. A job that was stored and is not any more was
  acknowledged by the worker that held it while nobody had asked for another run, was removed by
  one of the operator commands cancel and force_ack, or was a failed job that was purged.
\<close>

theorem no_job_lost:
  assumes "good_store S" and "stored S ns db J" and "queue_step S ns idle db db'"
    and "known S ns db j" and "\<not> known S ns db' j" and "ks = store_keys S ns"
  shows "(\<exists>L now w t. others (L 0) = (\<lambda>db. db) \<and> db' = fst (ack S L now ns w j t db) \<and>
      hget (redis S) db (lease_meta ks) j = Some (pack_meta w t) \<and> sis (redis S) db (rerun ks) j = False) \<or>
    (\<exists>L now. others (L 0) = (\<lambda>db. db) \<and> db' = fst (force_ack S L now ns j db) \<and>
      sis (redis S) db (rerun ks) j = False) \<or>
    (\<exists>L now. others (L 0) = (\<lambda>db. db) \<and> db' = fst (cancel S L now ns j db)) \<or>
    (\<exists>jobs. db' = purge_jobs (redis S) ks jobs db \<and> j \<in> set jobs \<and>
      zscore (redis S) db (failed ks) j \<noteq> None)"
proof -
  obtain J' where J': "stored S ns db' J'" "change S ns db db' j (J j) (J' j)"
    using step_changes [OF assms(1,3,2)] by (auto simp: changes_def)
  have gone: "place (J j) \<noteq> Absent" "place (J' j) = Absent"
    using assms(4,5) known_iff [OF assms(2)] known_iff [OF J'(1)] by auto
  have run: "sis (redis S) db (rerun ks) j = again (J j)"
    "zscore (redis S) db (failed ks) j = failed_at (place (J j))"
    "hget (redis S) db (lease_meta ks) j = Some (pack_meta w t) \<longleftrightarrow> leased_to (place (J j)) w t" for w t
    using representsD(4,7) [OF assms(2) [unfolded stored_def], of j] lease_meta_iff [OF assms(2)]
    by (simp_all add: assms(6))
  have acks: "fst (force_ack S L t ns j db) =
      fst (operator_transition_at S L ns (operator_name Op_force_ack) j t db)"
    "fst (cancel S L t ns j db) =
      fst (operator_transition_at S L ns (operator_name Op_cancel) j t db)" for L t
    by (simp_all add: force_ack_def cancel_def)
  from J'(2) show ?thesis
  proof cases
    case kept
    with gone show ?thesis by (simp add: harmless_def)
  next
    case (acked L w t now)
    with gone run show ?thesis by blast
  next
    case (forced L c now)
    with gone run(1) show ?thesis unfolding acks by blast
  next
    case (cancelled L now)
    then show ?thesis unfolding acks by blast
  next
    case (purged jobs)
    with run(2) show ?thesis unfolding assms(6) by metis
  qed (use gone in simp_all)
qed

definition demo_cancelled :: mem_db where
  "demo_cancelled = fst (cancel demo_store quiet 500000 ''mail'' ''c'' demo_db)"

lemma demo_cancel_step: "queue_step demo_store ''mail'' idle demo_db demo_cancelled"
  using step_operator [where L = quiet and S = demo_store and c = Op_cancel and job = "''c''"]
  by (simp add: demo_cancelled_def cancel_def)

lemma demo_cancel_known:
  "known demo_store ''mail'' demo_db ''c''" "\<not> known demo_store ''mail'' demo_cancelled ''c''"
proof -
  have quiet: "stored demo_store ''mail'' (others (quiet 0) demo_db) demo_queue" by simp
  from applies_answered(2) [OF operator_applies [where L = quiet and db = demo_db and c = Op_cancel
      and j = "''c''" and now = 500000, OF demo_good quiet]]
  have "stored demo_store ''mail'' demo_cancelled
      (demo_queue(''c'' := operator_effect Op_cancel (dbl (micros (chrono demo_store) 500000)) (demo_queue ''c'')))"
    by (simp add: demo_cancelled_def cancel_def)
  from known_iff [OF this] show "\<not> known demo_store ''mail'' demo_cancelled ''c''"
    by (simp add: operator_effect_def demo_place)
  show "known demo_store ''mail'' demo_db ''c''" by (simp add: known_iff [OF demo_stored] demo_place)
qed

theorem no_job_lost_witness:
  "(\<exists>L now w t. others (L 0) = (\<lambda>db. db) \<and>
      demo_cancelled = fst (ack demo_store L now ''mail'' w ''c'' t demo_db) \<and>
      hget mem_redis demo_db (lease_meta demo_keys) ''c'' = Some (pack_meta w t) \<and>
      sis mem_redis demo_db (rerun demo_keys) ''c'' = False) \<or>
    (\<exists>L now. others (L 0) = (\<lambda>db. db) \<and>
      demo_cancelled = fst (force_ack demo_store L now ''mail'' ''c'' demo_db) \<and>
      sis mem_redis demo_db (rerun demo_keys) ''c'' = False) \<or>
    (\<exists>L now. others (L 0) = (\<lambda>db. db) \<and>
      demo_cancelled = fst (cancel demo_store L now ''mail'' ''c'' demo_db)) \<or>
    (\<exists>jobs. demo_cancelled = purge_jobs mem_redis demo_keys jobs demo_db \<and> ''c'' \<in> set jobs \<and>
      zscore mem_redis demo_db (failed demo_keys) ''c'' \<noteq> None)"
  using no_job_lost [OF demo_good demo_stored demo_cancel_step demo_cancel_known demo_keys_def]
  unfolding demo_store_sel .

text \<open>
  C4. A lease is exclusive. The lease metadata of a job, which name the worker and the token of the
  one that holds it, change or go away only by a call of that worker with that token that ends the
  run, by a reap at a time not before the deadline of the lease, or by one of the operator commands
  force_ack and force_fail.
\<close>

theorem lease_exclusive:
  assumes "good_store S" and "stored S ns db J" and "queue_step S ns idle db db'"
    and "ks = store_keys S ns"
    and "hget (redis S) db (lease_meta ks) j = Some (pack_meta w t)"
    and "hget (redis S) db' (lease_meta ks) j \<noteq> Some (pack_meta w t)"
  shows "(\<exists>L now. others (L 0) = (\<lambda>db. db) \<and> db' = fst (ack S L now ns w j t db)) \<or>
    (\<exists>L now schedule_at. others (L 0) = (\<lambda>db. db) \<and>
      db' = fst (complete_and_reschedule S L ns w j t schedule_at now db)) \<or>
    (\<exists>L request. others (L 0) = (\<lambda>db. db) \<and> db' = fst (fail_or_retry S L ns request db) \<and>
      fr_job_id request = j \<and> fr_worker_id request = w \<and> fr_lease_token request = t) \<or>
    (\<exists>L now limit d. others (L 0) = (\<lambda>db. db) \<and> db' = fst (reap_expired S L ns now limit db) \<and>
      zscore (redis S) db (leased ks) j = Some d \<and> d \<le> dbl (micros (chrono S) now)) \<or>
    (\<exists>L now. others (L 0) = (\<lambda>db. db) \<and> db' = fst (force_ack S L now ns j db)) \<or>
    (\<exists>L now request. others (L 0) = (\<lambda>db. db) \<and> ff_job_id request = j \<and>
      db' = fst (force_fail S L ns request now db))"
proof -
  obtain J' where J': "stored S ns db' J'" "change S ns db db' j (J j) (J' j)"
    using step_changes [OF assms(1,3,2)] by (auto simp: changes_def)
  have lost: "leased_to (place (J j)) w t" "\<not> leased_to (place (J' j)) w t"
    using assms(4-6) lease_meta_iff [OF assms(2)] lease_meta_iff [OF J'(1)] by auto
  then obtain d where place: "place (J j) = At_leased d w t" by (cases "place (J j)") auto
  have deadline: "zscore (redis S) db (leased ks) j = leased_until (place (J j))"
    using representsD(3) [OF assms(2) [unfolded stored_def]] by (simp add: assms(4))
  obtain request :: force_fail_request where request: "ff_job_id request = j"
    by (rule that [OF force_fail_request.select_convs(1)])
  have acks: "fst (force_ack S L t ns j db) =
      fst (operator_transition_at S L ns (operator_name Op_force_ack) j t db)"
    "fst (force_fail S L ns request t db) =
      fst (operator_transition_at S L ns (operator_name Op_force_fail) j t db)" for L t
    by (simp_all add: force_ack_def force_fail_def request)
  from J'(2) show ?thesis
  proof cases
    case kept
    with lost show ?thesis by (simp add: harmless_def)
  next
    case (acked L w' t' now)
    with place have "w' = w" "t' = t" by simp_all
    with acked show ?thesis by blast
  next
    case (completed L w' t' schedule_at now)
    with place have "w' = w" "t' = t" by simp_all
    with completed show ?thesis by blast
  next
    case (run_failed L failure)
    with place have "w = fr_worker_id failure" "t = fr_lease_token failure" by simp_all
    with run_failed show ?thesis by blast
  next
    case (reaped L d' now limit)
    with deadline show ?thesis by metis
  next
    case (forced L c now)
    with request acks show ?thesis by metis
  qed (use place in simp_all)
qed

definition demo_acked :: mem_db where
  "demo_acked = fst (ack demo_store quiet 500000 ''mail'' ''w'' ''a'' ''t'' demo_db)"

lemma demo_ack_step: "queue_step demo_store ''mail'' idle demo_db demo_acked"
  unfolding demo_acked_def by (rule step_ack) simp

lemma demo_ack_meta:
  "hget (redis demo_store) demo_db (lease_meta demo_keys) ''a'' = Some (pack_meta ''w'' ''t'')"
  "hget (redis demo_store) demo_acked (lease_meta demo_keys) ''a'' \<noteq> Some (pack_meta ''w'' ''t'')"
proof -
  have quiet: "stored demo_store ''mail'' (others (quiet 0) demo_db) demo_queue" by simp
  from applies_answered(2) [OF ack_applies [where L = quiet and db = demo_db and j = "''a''"
      and w = "''w''" and t = "''t''" and now = 500000, OF demo_good quiet]]
  have stored: "stored demo_store ''mail'' demo_acked (demo_queue(''a'' := fst (ack_spec ''w'' ''t''
      (dbl (micros (chrono demo_store) 500000)) (demo_queue ''a''))))"
    by (simp add: demo_acked_def)
  show "hget (redis demo_store) demo_db (lease_meta demo_keys) ''a'' = Some (pack_meta ''w'' ''t'')"
    unfolding demo_keys_def lease_meta_iff [OF demo_stored] by (simp add: demo_place)
  show "hget (redis demo_store) demo_acked (lease_meta demo_keys) ''a'' \<noteq> Some (pack_meta ''w'' ''t'')"
    unfolding demo_keys_def lease_meta_iff [OF stored] by (simp add: ack_spec_def demo_place)
qed

theorem lease_exclusive_witness:
  "(\<exists>L now. others (L 0) = (\<lambda>db. db) \<and>
      demo_acked = fst (ack demo_store L now ''mail'' ''w'' ''a'' ''t'' demo_db)) \<or>
    (\<exists>L now schedule_at. others (L 0) = (\<lambda>db. db) \<and>
      demo_acked = fst (complete_and_reschedule demo_store L ''mail'' ''w'' ''a'' ''t'' schedule_at now demo_db)) \<or>
    (\<exists>L request. others (L 0) = (\<lambda>db. db) \<and>
      demo_acked = fst (fail_or_retry demo_store L ''mail'' request demo_db) \<and>
      fr_job_id request = ''a'' \<and> fr_worker_id request = ''w'' \<and> fr_lease_token request = ''t'') \<or>
    (\<exists>L now limit d. others (L 0) = (\<lambda>db. db) \<and>
      demo_acked = fst (reap_expired demo_store L ''mail'' now limit demo_db) \<and>
      zscore mem_redis demo_db (leased demo_keys) ''a'' = Some d \<and> d \<le> dbl (micros chrono_range now)) \<or>
    (\<exists>L now. others (L 0) = (\<lambda>db. db) \<and>
      demo_acked = fst (force_ack demo_store L now ''mail'' ''a'' demo_db)) \<or>
    (\<exists>L now request. others (L 0) = (\<lambda>db. db) \<and> ff_job_id request = ''a'' \<and>
      demo_acked = fst (force_fail demo_store L ''mail'' request now demo_db))"
  using lease_exclusive [OF demo_good demo_stored demo_ack_step demo_keys_def demo_ack_meta]
  unfolding demo_store_sel .

end
