(* ===== verification/Queue_Properties.thy ===== *)
theory Queue_Properties
  imports Demo
begin

text \<open>
  The properties of the queue, each with its statement in words and an application on the small
  queue of theory Demo.
\<close>

section \<open>Invariants of the machine\<close>

text \<open>
  C2. In every database that any interleaving of client operations, lost or answered, can reach
  from an unused namespace, a job is in at most one of the four sorted sets; it has lease metadata
  exactly while it is leased; and only a leased job has a rerun request.
\<close>

theorem queue_invariant:
  assumes "good_store S" and "reachable S ns idle db" and "ks = store_keys S ns"
  shows "length (filter (\<lambda>k. zscore (redis S) db k j \<noteq> None)
      [ready ks, scheduled ks, leased ks, failed ks]) \<le> 1 \<and>
    (hget (redis S) db (lease_meta ks) j \<noteq> None \<longleftrightarrow> zscore (redis S) db (leased ks) j \<noteq> None) \<and>
    (sis (redis S) db (rerun ks) j \<longrightarrow> zscore (redis S) db (leased ks) j \<noteq> None)"
proof -
  obtain J where "stored S ns db J" using reachable_stored [OF assms(1,2)] by blast
  then have rep: "represents (redis S) ks db J" by (simp add: stored_def assms(3))
  have "is_leased (place (J j)) \<longleftrightarrow> leased_until (place (J j)) \<noteq> None"
    "meta_of (place (J j)) \<noteq> None \<longleftrightarrow> leased_until (place (J j)) \<noteq> None"
    by (cases "place (J j)"; simp)+
  with represents_single [OF rep, of j] representsD [OF rep, of j] show ?thesis by simp
qed

definition demo_request :: enqueue_request where
  "demo_request = builder_into_batch_item \<lparr>jb_namespace = demo_handle, jb_job_id = ''z''\<rparr>"

definition demo_reached :: mem_db where
  "demo_reached = fst (enqueue demo_store quiet 7000 ''mail'' demo_request empty_db)"

lemma demo_reachable: "reachable demo_store ''mail'' idle demo_reached"
  unfolding demo_reached_def
  by (rule reach_step [OF reach_unused [OF empty_unused] step_enqueue]) simp

theorem queue_invariant_witness:
  "length (filter (\<lambda>k. zscore mem_redis demo_reached k ''z'' \<noteq> None)
      [ready demo_keys, scheduled demo_keys, leased demo_keys, failed demo_keys]) \<le> 1 \<and>
    (hget mem_redis demo_reached (lease_meta demo_keys) ''z'' \<noteq> None \<longleftrightarrow>
      zscore mem_redis demo_reached (leased demo_keys) ''z'' \<noteq> None)"
  using queue_invariant [OF demo_good demo_reachable demo_keys_def, of "''z''"]
  unfolding demo_store_sel by blast

text \<open>
  C22. As long as only workers without a counted lease are forgotten, the lease counter of every
  worker is the number of jobs whose metadata name that worker, and it is absent at zero.
\<close>

theorem lease_counters_exact:
  assumes "good_store S" and "reachable S ns True db" and "ks = store_keys S ns"
  shows "hget (redis S) db (workers_leases ks) w =
    count_text (card {j. \<exists>m. hget (redis S) db (lease_meta ks) j = Some m \<and> worker_from_meta m = Some w})"
proof -
  obtain J where J: "stored S ns db J" "exact S ns db J"
    using reachable_stored [OF assms(1,2)] by blast
  have "(\<exists>m. hget (redis S) db (lease_meta ks) j = Some m \<and> worker_from_meta m = Some w) \<longleftrightarrow>
      leased_by (place (J j)) w" for j
    using representsD(5) [OF J(1) [unfolded stored_def], of j] assms(3)
    by (cases "place (J j)") auto
  with J(2) assms(3) show ?thesis by (simp add: exact_def counts_leases_def held_def)
qed

theorem lease_counters_exact_witness:
  "hget mem_redis demo_reached (workers_leases demo_keys) ''w'' =
    count_text (card {j. \<exists>m. hget mem_redis demo_reached (lease_meta demo_keys) j = Some m \<and>
      worker_from_meta m = Some ''w''})"
  using lease_counters_exact [OF demo_good demo_reachable demo_keys_def, of "''w''"]
  unfolding demo_store_sel .


section \<open>Reserve\<close>

text \<open>
  C7. A reserve of an answered worker with a matching retry policy leases exactly the first
  \<open>capacity\<close> runnable jobs in turn (by activation time, ready before scheduled, then by id), one
  token each, until now plus the lease duration; it changes no other job, keeps the failure
  counters and the lease counters right, and announces the next activation it saw.
\<close>

theorem reserve_in_turn:
  assumes "good_store S" and "stored S ns (others (L 0) db) J"
    and "delivery (L 0) = Answered" and "alone (L 1)"
    and "hget (redis S) (others (L 0) db) (cfg (store_keys S ns)) ''retry_policy'' \<in>
      {None, Some (retry_policy_key config)}"
    and "0 < capacity" and "safe_int (int capacity)" and "length tokens = capacity"
    and "now = dbl (micros (chrono S) t)"
    and "d = dbl (now + dbl (duration_micros (lease_duration config)))"
    and "i64_min \<le> d" and "d \<le> i64_max"
    and "gs = zip (map turn_job (take capacity (turn_order now J))) tokens"
    and "J' = (\<lambda>j. case map_of gs j of
        None \<Rightarrow> J j | Some tok \<Rightarrow> (J j)\<lparr>place := At_leased d (worker_id config) tok\<rparr>)"
    and "\<forall>s \<in> future_scores (g14 now) J'. safe_int s \<and> s \<noteq> 0"
    and "reserve S L ns config capacity t tokens db = (db', r)"
  shows "r = Ok (reserved_batch (g14 now) J' gs) \<and> stored S ns db' J' \<and>
    (exact S ns (others (L 0) db) J \<longrightarrow> exact S ns db' J')"
proof -
  have "distinct (map turn_job (turn_order now J))"
    by (rule turn_jobs_distinct [OF assms(1,2)])
  then have "distinct (map fst gs)"
    by (simp add: assms(13) map_fst_zip_take distinct_take flip: take_map)
  then have "lease_all (worker_id config) d gs J = J'"
    unfolding assms(14)
    by (intro ext) (auto simp: lease_all_other lease_all_member dest: map_of_SomeD
        split: option.splits simp: map_of_eq_None_iff)
  then show ?thesis
    using reserve_applies [OF assms(1-8) assms(9) assms(10-12) assms(13) refl _ assms(16)] assms(15)
    by simp
qed

definition demo_leased :: "string \<Rightarrow> job" where
  "demo_leased = (\<lambda>j. case map_of [(''b'', ''t1''), (''c'', ''t2'')] j of
     None \<Rightarrow> demo_queue j | Some tok \<Rightarrow> (demo_queue j)\<lparr>place := At_leased 30500 ''v'' tok\<rparr>)"

lemma demo_no_future: "future_scores b demo_leased = {}"
proof -
  have "place (demo_leased j) \<noteq> At_scheduled s" for j s
    by (simp add: demo_leased_def demo_queue_def)
  then show ?thesis by (simp add: future_scores_def)
qed

theorem reserve_in_turn_witness:
  "snd (reserve demo_store quiet ''mail'' demo_config 2 500000 [''t1'', ''t2''] demo_db) =
     Ok \<lparr>rb_jobs = [\<lparr>rj_job_id = ''b'', rj_lease_token = ''t1''\<rparr>,
                    \<lparr>rj_job_id = ''c'', rj_lease_token = ''t2''\<rparr>],
         rb_next_schedule_at = None\<rparr>"
proof -
  have policy: "hget (redis demo_store) (others (quiet 0) demo_db)
      (cfg (store_keys demo_store ''mail'')) ''retry_policy'' \<in> {None, Some (retry_policy_key demo_config)}"
    by (simp add: demo_policy demo_keys_def [symmetric])
  have now: "dbl (micros (chrono demo_store) 500000) = 500"
    by (simp add: micros_def safe_int_def)
  have d: "(30500 :: int) = dbl (500 + dbl (duration_micros (lease_duration demo_config)))"
    by (simp add: demo_config_def duration_micros_def as_micros_def i64_max_def safe_int_def)
  have gs: "[(''b'', ''t1''), (''c'', ''t2'')] =
      zip (map turn_job (take 2 (turn_order 500 demo_queue))) [''t1'', ''t2'']"
    by (simp add: demo_turns)
  have J': "demo_leased = (\<lambda>j. case map_of [(''b'', ''t1''), (''c'', ''t2'')] j of
      None \<Rightarrow> demo_queue j
    | Some tok \<Rightarrow> (demo_queue j)\<lparr>place := At_leased 30500 (worker_id demo_config) tok\<rparr>)"
    unfolding demo_leased_def demo_worker by (rule refl)
  have stored: "stored demo_store ''mail'' (others (quiet 0) demo_db) demo_queue" by simp
  have "snd (reserve demo_store quiet ''mail'' demo_config 2 500000 [''t1'', ''t2''] demo_db) =
      Ok (reserved_batch (g14 500) demo_leased [(''b'', ''t1''), (''c'', ''t2'')])"
    using reserve_in_turn [where L = quiet and db = demo_db, OF demo_good stored _ _ policy _ _ _ now [symmetric] d _ _ gs J' _
      prod.collapse [symmetric]]
    by (simp add: safe_int_def i64_min_def i64_max_def demo_no_future)
  then show ?thesis by (simp add: reserved_batch_def next_schedule_def demo_no_future)
qed

text \<open>
  C12. The batch a worker gets is as large as the capacity and the runnable jobs allow, in order of
  activation, and nobody is overtaken: a runnable job that was left behind has a later turn than
  every job in the batch.
\<close>

theorem reserve_fair:
  assumes "good_store S" and "stored S ns (others (L 0) db) J"
    and "delivery (L 0) = Answered" and "alone (L 1)"
    and "hget (redis S) (others (L 0) db) (cfg (store_keys S ns)) ''retry_policy'' \<in>
      {None, Some (retry_policy_key config)}"
    and "0 < capacity" and "safe_int (int capacity)" and "length tokens = capacity"
    and "now = dbl (micros (chrono S) t)"
    and "safe_int (now + dbl (duration_micros (lease_duration config)))"
    and "\<forall>s j. place (J j) = At_scheduled s \<longrightarrow> safe_int s \<and> s \<noteq> 0"
    and "snd (reserve S L ns config capacity t tokens db) = r"
  shows "\<exists>batch chosen. r = Ok batch \<and> map rj_job_id (rb_jobs batch) = map turn_job chosen \<and>
    length chosen = min capacity (card (turns now J)) \<and> sorted chosen \<and> distinct chosen \<and>
    set chosen \<subseteq> turns now J \<and>
    (\<forall>u \<in> turns now J - set chosen. \<forall>v \<in> set chosen. v < u)"
proof -
  define d where "d = dbl (now + dbl (duration_micros (lease_duration config)))"
  define chosen where "chosen = take capacity (turn_order now J)"
  define gs where "gs = zip (map turn_job chosen) tokens"
  define J' where "J' = lease_all (worker_id config) d gs J"
  have d_ok: "i64_min \<le> d" "d \<le> i64_max"
    using assms(10) by (auto simp: d_def safe_int_def i64_min_def i64_max_def)
  have future: "\<forall>s \<in> future_scores (g14 now) J'. safe_int s \<and> s \<noteq> 0"
    using assms(11) by (auto simp: future_scores_def J'_def dest!: lease_all_scheduled)
  obtain db' where run: "reserve S L ns config capacity t tokens db = (db', r)"
    using assms(12) by (metis prod.collapse)
  have r: "r = Ok (reserved_batch (g14 now) J' gs)"
    by (rule reserve_applies(1) [OF assms(1-9) d_def d_ok _ J'_def future run])
       (simp add: gs_def chosen_def)
  note fin = redis_service.finite_turns [OF good_storeD(1) [OF assms(1)]
    assms(2) [unfolded stored_def], of now]
  have order: "sorted (turn_order now J)" "distinct (turn_order now J)"
    "set (turn_order now J) = turns now J" "length (turn_order now J) = card (turns now J)"
    by (simp_all add: turn_order_def fin)
  have "length chosen \<le> length tokens" by (simp add: chosen_def assms(8))
  then have "map rj_job_id (rb_jobs (reserved_batch (g14 now) J' gs)) = map turn_job chosen"
    by (simp add: reserved_batch_def gs_def split_def comp_def map_fst_zip_take
        flip: map_map [of rj_job_id])
  moreover have "\<forall>u \<in> turns now J - set chosen. \<forall>v \<in> set chosen. v < u"
  proof (intro ballI)
    fix u v
    assume u: "u \<in> turns now J - set chosen" and v: "v \<in> set chosen"
    have split: "turn_order now J = chosen @ drop capacity (turn_order now J)"
      by (simp add: chosen_def)
    with u order(3) have "u \<in> set (drop capacity (turn_order now J))"
      by (metis Diff_iff Un_iff set_append)
    with v order(1) split have "v \<le> u" by (metis sorted_append)
    with u v show "v < u" by (metis Diff_iff order.not_eq_order_implies_strict)
  qed
  ultimately show ?thesis
    using r order
    by (intro exI [of _ "reserved_batch (g14 now) J' gs"] exI [of _ chosen])
       (auto simp: chosen_def min.commute sorted_wrt_take dest: in_set_takeD)
qed

theorem reserve_fair_witness:
  "\<exists>batch. snd (reserve demo_store quiet ''mail'' demo_config 1 500000 [''t1''] demo_db) = Ok batch \<and>
    map rj_job_id (rb_jobs batch) = [''b'']"
proof -
  have policy: "hget (redis demo_store) (others (quiet 0) demo_db)
      (cfg (store_keys demo_store ''mail'')) ''retry_policy'' \<in> {None, Some (retry_policy_key demo_config)}"
    by (simp add: demo_policy demo_keys_def [symmetric])
  have now: "500 = dbl (micros (chrono demo_store) 500000)"
    by (simp add: micros_def safe_int_def)
  have safe: "safe_int (500 + dbl (duration_micros (lease_duration demo_config)))"
    by (simp add: demo_config_def duration_micros_def as_micros_def i64_max_def safe_int_def)
  have stored: "stored demo_store ''mail'' (others (quiet 0) demo_db) demo_queue" by simp
  have sched: "\<forall>s j. place (demo_queue j) = At_scheduled s \<longrightarrow> safe_int s \<and> s \<noteq> 0"
    by (auto simp: demo_queue_def safe_int_def split: if_splits)
  have "\<exists>batch chosen. snd (reserve demo_store quiet ''mail'' demo_config 1 500000 [''t1''] demo_db) =
      Ok batch \<and> map rj_job_id (rb_jobs batch) = map turn_job chosen \<and>
      length chosen = min 1 (card (turns 500 demo_queue)) \<and> sorted chosen \<and> distinct chosen \<and>
      set chosen \<subseteq> turns 500 demo_queue \<and>
      (\<forall>u \<in> turns 500 demo_queue - set chosen. \<forall>v \<in> set chosen. v < u)"
    by (rule reserve_fair [where L = quiet and db = demo_db, OF demo_good stored _ _ policy _ _ _
        now safe sched refl]) (simp_all add: safe_int_def)
  then obtain batch chosen where batch:
      "snd (reserve demo_store quiet ''mail'' demo_config 1 500000 [''t1''] demo_db) = Ok batch"
      "map rj_job_id (rb_jobs batch) = map turn_job chosen" and "length chosen = 1"
      "set chosen \<subseteq> {(100, False, ''b''), (400, True, ''c'')}"
      "\<forall>u \<in> {(100, False, ''b''), (400, True, ''c'')} - set chosen. \<forall>v \<in> set chosen. v < u"
    unfolding demo_turn_set by auto
  then have "chosen = [(100, False, ''b'')]" by (auto simp: length_Suc_conv insert_Diff_if)
  with batch show ?thesis by simp
qed

text \<open>
  C30. A worker whose retry policy is not the one the namespace was created with gets an error and
  the database is left as it was.
\<close>

theorem reserve_wrong_policy:
  assumes "delivery (L 0) = Answered"
    and "hget (redis S) (others (L 0) db) (cfg (store_keys S ns)) ''retry_policy'' = Some p"
    and "p \<noteq> retry_policy_key config" and "0 < capacity"
  shows "reserve S L ns config capacity t tokens db =
    (others (L 0) db, Err (InvalidConfig RetryPolicyMismatch))"
  by (rule reserve_policy_mismatch [where L = L and db = db, OF assms])

definition demo_pinned :: mem_db where
  "demo_pinned = mem_hset empty_db (cfg demo_keys) ''retry_policy'' ''never''"

theorem reserve_wrong_policy_witness:
  "reserve demo_store quiet ''mail'' (demo_config\<lparr>retry_policy := Policy_infinite Backoff_none\<rparr>)
     1 0 [''t1''] demo_pinned = (demo_pinned, Err (InvalidConfig RetryPolicyMismatch))"
proof -
  have "reserve demo_store quiet ''mail'' (demo_config\<lparr>retry_policy := Policy_infinite Backoff_none\<rparr>)
     1 0 [''t1''] demo_pinned = (others (quiet 0) demo_pinned, Err (InvalidConfig RetryPolicyMismatch))"
    by (rule reserve_wrong_policy [where p = "''never''"])
       (simp_all add: demo_pinned_def mem_hset_def demo_keys_def [symmetric] retry_policy_key_def)
  then show ?thesis by simp
qed


section \<open>Leases\<close>

text \<open>
  C10. An acknowledgement by the holder of the lease ends the run: the job is gone, or ready again
  if somebody asked for another run meanwhile, its failure counter is cleared and the worker's
  lease count drops. Anybody else gets a lease mismatch and changes nothing. If the reply is lost,
  the server has done this once or not at all and the caller gets a runtime error.
\<close>

theorem ack_ends_run:
  assumes "good_store S" and "stored S ns (others (L 0) db) J"
    and "now = dbl (micros (chrono S) t)" and "holds = leased_to (place (J j)) w tok"
    and "x = fresh (if again (J j) then At_ready now else Absent)"
  shows "applies S ''ack'' ns (L 0) J db (J(j := if holds then x else J j))
    (if holds then Ok () else Err (LeaseMismatch j)) (ack S L t ns w j tok db)"
  using ack_applies [where L = L and db = db, OF assms(1,2), of j w tok t]
  by (simp add: assms(3-5) ack_spec_def lease_result_def split: if_splits)

theorem ack_ends_run_witness:
  "snd (ack demo_store quiet 700000 ''mail'' ''w'' ''a'' ''t'' demo_db) = Ok () \<and>
   stored demo_store ''mail'' (fst (ack demo_store quiet 700000 ''mail'' ''w'' ''a'' ''t'' demo_db))
     (demo_queue(''a'' := fresh (At_ready 700)))"
proof -
  have now: "700 = dbl (micros (chrono demo_store) 700000)" by (simp add: micros_def safe_int_def)
  have stored: "stored demo_store ''mail'' (others (quiet 0) demo_db) demo_queue" by simp
  note run = ack_ends_run [where L = quiet and db = demo_db and w = "''w''" and tok = "''t''" and
    j = "''a''", OF demo_good stored now refl refl]
  show ?thesis
    using applies_answered(1,2) [OF run] by (simp add: demo_place)
qed

text \<open>
  C27. Completing with a schedule ends the run the same way and stores the job at its new time, or
  ready at once when the time is past, missing, or another run was asked for.
\<close>

theorem complete_reschedules:
  assumes "good_store S" and "stored S ns (others (L 0) db) J"
    and "now = dbl (micros (chrono S) t)" and "at = dbl (schedule_micros (chrono S) schedule_at)"
    and "holds = leased_to (place (J j)) w tok"
    and "x = fresh (if again (J j) then At_ready now else target now at)"
  shows "applies S ''complete_and_reschedule'' ns (L 0) J db (J(j := if holds then x else J j))
    (if holds then Ok () else Err (LeaseMismatch j))
    (complete_and_reschedule S L ns w j tok schedule_at t db)"
proof -
  have "fst (complete_spec w tok now at (J j)) = (if holds then x else J j)"
    by (auto simp: assms(5,6) complete_spec_def target_def)
  then show ?thesis
    using complete_applies [where L = L and db = db, OF assms(1,2), of j w tok t schedule_at]
    by (simp add: assms(3-5) lease_result_def)
qed

theorem complete_reschedules_witness:
  "stored demo_store ''mail''
     (fst (complete_and_reschedule demo_store quiet ''mail'' ''w'' ''a'' ''t'' (Some 900000) 700000 demo_db))
     (demo_queue(''a'' := fresh (At_ready 700)))"
proof -
  have now: "700 = dbl (micros (chrono demo_store) 700000)" by (simp add: micros_def safe_int_def)
  have stored: "stored demo_store ''mail'' (others (quiet 0) demo_db) demo_queue" by simp
  note run = complete_reschedules [where L = quiet and db = demo_db and w = "''w''" and
    tok = "''t''" and j = "''a''" and schedule_at = "Some 900000",
    OF demo_good stored now refl refl refl]
  show ?thesis
    using applies_answered(2) [OF run] by (simp add: demo_place)
qed

text \<open>
  C26. A heartbeat of the holder moves the deadline of the lease to now plus the lease duration (in
  saturating microseconds) and records that the worker was seen now. These two scores are all it
  writes, in the whole database, and it writes both or neither; when it has been answered, it has
  run. The heartbeat of anybody else writes nothing and never revives a lost lease.
\<close>

theorem heartbeat_extends:
  assumes "good_store S" and "stored S ns (others (L 0) db) J"
    and "d = dbl (clamp_i64 (micros (chrono S) t + duration_micros duration))"
    and "holds = leased_to (place (J j)) w tok"
    and "heartbeat S L ns w j tok t duration db = (db', r)"
    and "db0 = others (L 0) db" and "R = redis S" and "ks = store_keys S ns"
  shows "applies S ''heartbeat'' ns (L 0) J db
      (J(j := if holds then (J j)\<lparr>place := At_leased d w tok\<rparr> else J j))
      (if holds then Ok () else Err (LeaseMismatch j)) (db', r) \<and>
    (\<exists>ran. (delivery (L 0) = Answered \<longrightarrow> ran) \<and>
      (\<forall>k m. zscore R db' k m =
        (if ran \<and> holds \<and> k = leased ks \<and> m = j then Some d
         else if ran \<and> holds \<and> k = workers_last_seen ks \<and> m = w then Some (dbl (micros (chrono S) t))
         else zscore R db0 k m)) \<and>
      hget R db' = hget R db0 \<and> sis R db' = sis R db0)"
proof
  show "applies S ''heartbeat'' ns (L 0) J db
      (J(j := if holds then (J j)\<lparr>place := At_leased d w tok\<rparr> else J j))
      (if holds then Ok () else Err (LeaseMismatch j)) (db', r)"
    using heartbeat_applies [where L = L and db = db, OF assms(1,2) assms(3), of j w tok] assms(5)
    by (simp add: assms(4) heartbeat_spec_def lease_result_def split: if_splits)
  have R: "redis_service R" using good_storeD(1) [OF assms(1)] by (simp add: assms(7))
  have rep: "represents R ks db0 J" using assms(2) by (simp add: stored_def assms(6-8))
  obtain ran where ran: "delivery (L 0) = Answered \<longrightarrow> ran"
    and run: "fst (heartbeat S L ns w j tok t duration db) =
      (if ran \<and> holds_lease (redis S) (leased (store_keys S ns)) (lease_meta (store_keys S ns))
            (others (L 0) db) j w tok
       then zadd (redis S) (zadd (redis S) (others (L 0) db) (leased (store_keys S ns))
           (dbl (clamp_i64 (micros (chrono S) t + duration_micros duration))) j)
         (workers_last_seen (store_keys S ns)) (dbl (micros (chrono S) t)) w
       else others (L 0) db)"
    using heartbeat_db [where S = S and L = L and namespace = ns and w = w and j = j and t = tok and
        now = t and duration = duration and db = db] by (elim exE conjE)
  have db': "db' = (if ran \<and> holds
      then zadd R (zadd R db0 (leased ks) d j) (workers_last_seen ks) (dbl (micros (chrono S) t)) w else db0)"
    using run unfolding assms(5) fst_conv assms(6-8) [symmetric] assms(3) [symmetric]
      redis_service.holds_lease_iff [OF R rep] assms(4) [symmetric] .
  have keys: "workers_last_seen ks \<noteq> leased ks" "leased ks \<noteq> workers_last_seen ks"
    using keys_okD [OF keys_ok_store [of S ns]] by (simp_all add: assms(8))
  show "\<exists>ran. (delivery (L 0) = Answered \<longrightarrow> ran) \<and>
      (\<forall>k m. zscore R db' k m =
        (if ran \<and> holds \<and> k = leased ks \<and> m = j then Some d
         else if ran \<and> holds \<and> k = workers_last_seen ks \<and> m = w then Some (dbl (micros (chrono S) t))
         else zscore R db0 k m)) \<and>
      hget R db' = hget R db0 \<and> sis R db' = sis R db0"
    using ran keys by (intro exI [of _ ran]) (auto simp: db' redis_service.zscore_laws [OF R]
        redis_service.hget_laws [OF R] redis_service.sis_laws [OF R] fun_eq_iff)
qed

theorem heartbeat_extends_witness:
  "snd (heartbeat demo_store quiet ''mail'' ''w'' ''a'' ''t'' 700000 5000000 demo_db) = Ok () \<and>
   stored demo_store ''mail''
     (fst (heartbeat demo_store quiet ''mail'' ''w'' ''a'' ''t'' 700000 5000000 demo_db))
     (demo_queue(''a'' := (demo_queue ''a'')\<lparr>place := At_leased 5700 ''w'' ''t''\<rparr>)) \<and>
   zscore mem_redis (fst (heartbeat demo_store quiet ''mail'' ''w'' ''a'' ''t'' 700000 5000000 demo_db))
     (workers_last_seen demo_keys) ''w'' = Some 700 \<and>
   zscore mem_redis (fst (heartbeat demo_store quiet ''mail'' ''w'' ''a'' ''t'' 700000 5000000 demo_db))
     (leased demo_keys) ''a'' = Some 5700"
proof -
  have stored: "stored demo_store ''mail'' (others (quiet 0) demo_db) demo_queue" by simp
  have d: "5700 = dbl (clamp_i64 (micros (chrono demo_store) 700000 + duration_micros 5000000))"
    by (simp add: micros_def duration_micros_def as_micros_def clamp_i64_def i64_min_def i64_max_def safe_int_def)
  have holds: "True = leased_to (place (demo_queue ''a'')) ''w'' ''t''" by (simp add: demo_place)
  obtain db' r where run: "heartbeat demo_store quiet ''mail'' ''w'' ''a'' ''t'' 700000 5000000 demo_db = (db', r)"
    by (metis surj_pair)
  note result = heartbeat_extends [OF demo_good stored d holds run refl refl refl]
  have now: "dbl (micros (chrono demo_store) 700000) = 700" by (simp add: micros_def safe_int_def)
  have keys: "workers_last_seen demo_keys \<noteq> leased demo_keys" "leased demo_keys \<noteq> workers_last_seen demo_keys"
    using keys_okD [OF demo_keys_ok] by simp_all
  obtain ran where ran: "delivery (quiet 0 :: mem_db link) = Answered \<longrightarrow> ran"
    and scores: "\<forall>k m. zscore (redis demo_store) db' k m =
        (if ran \<and> True \<and> k = leased (store_keys demo_store ''mail'') \<and> m = ''a'' then Some 5700
         else if ran \<and> True \<and> k = workers_last_seen (store_keys demo_store ''mail'') \<and> m = ''w''
         then Some (dbl (micros (chrono demo_store) 700000))
         else zscore (redis demo_store) (others (quiet 0) demo_db) k m)"
    using conjunct2 [OF result] by blast
  have "zscore mem_redis db' (workers_last_seen demo_keys) ''w'' = Some 700"
    "zscore mem_redis db' (leased demo_keys) ''a'' = Some 5700"
    using ran spec [OF spec [OF scores], of "workers_last_seen demo_keys" "''w''"]
      spec [OF spec [OF scores], of "leased demo_keys" "''a''"] keys now
    by (simp_all add: demo_keys_def [symmetric] del: mem_redis_sel)
  then show ?thesis
    using applies_answered(1,2) [OF conjunct1 [OF result]] by (simp add: run)
qed

text \<open>
  C9. A failed run of the holder raises the failure counter by one and places the job by the retry
  policy: failed for a terminal error or when the retries are used up, otherwise ready or scheduled
  after the backoff delay. The answer is the new count.
\<close>

theorem failure_follows_policy:
  assumes "good_store S" and "stored S ns (others (L 0) db) J"
    and "j = fr_job_id request" and "now = dbl (micros (chrono S) (fr_now request))"
    and "holds = leased_to (place (J j)) (fr_worker_id request) (fr_lease_token request)"
    and "n = Suc (fails (J j))" and "n < 2 ^ 32"
    and "p = (case fr_action request of Action_terminal \<Rightarrow> At_failed now
      | Action_retryable \<Rightarrow> retry_policy_placement now n (fr_retry_policy request))"
    and "readable_placement p"
  shows "applies S ''fail_or_retry'' ns (L 0) J db
    (J(j := if holds then \<lparr>place = p, fails = n, again = False\<rparr> else J j))
    (if holds then Ok n else Err (LeaseMismatch j))
    (fail_or_retry S L ns request db)"
proof -
  have x: "failed_job now (fr_action request) (fr_retry_policy request) (J j) =
      \<lparr>place = p, fails = n, again = False\<rparr>"
    unfolding failed_job_def failure_placement_def assms(6,8) ..
  have "fails (failed_job now (fr_action request) (fr_retry_policy request) (J j)) < 2 ^ 32"
    "readable_placement (place (failed_job now (fr_action request) (fr_retry_policy request) (J j)))"
    using assms(7,9) by (simp_all add: x)
  from fail_applies [where L = L and db = db, OF assms(1,2,3) refl refl assms(4) refl this] show ?thesis
    by (simp only: x assms(5) job.select_convs)
qed

definition demo_failure :: failure_request where
  "demo_failure =
     \<lparr>fr_worker_id = ''w'', fr_job_id = ''a'', fr_lease_token = ''t'', fr_action = Action_retryable,
      fr_retry_policy = Policy_count 5 (Backoff_exponential 100 2 150), fr_now = 700000\<rparr>"

theorem failure_follows_policy_witness:
  "snd (fail_or_retry demo_store quiet ''mail'' demo_failure demo_db) = Ok 2 \<and>
   stored demo_store ''mail'' (fst (fail_or_retry demo_store quiet ''mail'' demo_failure demo_db))
     (demo_queue(''a'' := \<lparr>place = At_scheduled 150700, fails = 2, again = False\<rparr>))"
proof -
  have now: "700 = dbl (micros (chrono demo_store) (fr_now demo_failure))"
    by (simp add: demo_failure_def micros_def safe_int_def)
  have stored: "stored demo_store ''mail'' (others (quiet 0) demo_db) demo_queue" by simp
  have j: "''a'' = fr_job_id demo_failure" by (simp add: demo_failure_def)
  have n: "2 = Suc (fails (demo_queue ''a''))" by (simp add: demo_place)
  have p: "At_scheduled 150700 = (case fr_action demo_failure of Action_terminal \<Rightarrow> At_failed 700
      | Action_retryable \<Rightarrow> retry_policy_placement 700 2 (fr_retry_policy demo_failure))"
    by (simp add: demo_failure_def after_delay_def safe_int_def numeral_2_eq_2)
  note run = failure_follows_policy [where L = quiet and db = demo_db,
    OF demo_good stored j now refl n _ p]
  have "leased_to (place (demo_queue ''a'')) (fr_worker_id demo_failure) (fr_lease_token demo_failure)"
    by (simp add: demo_place demo_failure_def)
  then show ?thesis
    using applies_answered(1,2) [OF run] by (simp add: readable_placement_def safe_int_def)
qed

end
