(* ===== verification/Store_Properties.thy ===== *)
theory Store_Properties
  imports Demo Client
begin

text \<open>
  The properties of the client side of the queue: enqueue, reschedule, operator commands, reaping,
  reads, cleanup and the batch interface.
\<close>

section \<open>Enqueue and reschedule\<close>

text \<open>
  C16. Enqueueing a job for now creates it, makes a scheduled or failed job ready, leaves a ready
  job alone, and asks a running job for another run; the answer says which. A lost reply means it
  happened once or not at all.
\<close>

theorem enqueue_now:
  assumes "good_store S" and "stored S ns (others (L 0) db) J"
    and "now = dbl (micros (chrono S) t)"
    and "out = (\<lambda>state status. Ok \<lparr>er_job_id = j, er_state = state, er_status = status\<rparr>)"
    and "(x, r) = (case place (J j) of
        Absent \<Rightarrow> ((J j)\<lparr>place := At_ready now\<rparr>, out Ready Created)
      | At_ready s \<Rightarrow> (J j, out Ready Unchanged)
      | At_scheduled s \<Rightarrow> ((J j)\<lparr>place := At_ready now, again := False\<rparr>, out Ready Updated)
      | At_leased d w tok \<Rightarrow> ((J j)\<lparr>again := True\<rparr>, out Leased (if again (J j) then Unchanged else Updated))
      | At_failed s \<Rightarrow> (fresh (At_ready now), out Ready Updated))"
  shows "applies S ''enqueue_or_schedule'' ns (L 0) J db (J(j := x)) r
    (enqueue S L t ns (builder_into_batch_item \<lparr>jb_namespace = h, jb_job_id = j\<rparr>) db)"
proof -
  let ?request = "builder_into_batch_item \<lparr>jb_namespace = h, jb_job_id = j\<rparr>"
  have "fst (enqueue_spec ?request now (dbl (schedule_micros (chrono S) (eq_schedule_at ?request))) (J j)) = x"
    "enqueue_answer ?request now (dbl (schedule_micros (chrono S) (eq_schedule_at ?request))) (J j) = r"
    using assms(4,5)
    by (cases "place (J j)"; simp add: enqueue_spec_def enqueue_answer_def builder_into_batch_item_def
        enqueue_now_spec_def enqueue_now_result_def enqueued_def)+
  with enqueue_applies [where L = L and db = db, OF assms(1-3) refl, of j ?request] show ?thesis
    by (simp add: builder_into_batch_item_def)
qed

theorem enqueue_now_witness:
  "snd (enqueue demo_store quiet 700000 ''mail'' (builder_into_batch_item \<lparr>jb_namespace = demo_handle, jb_job_id = ''c''\<rparr>) demo_db) =
     Ok \<lparr>er_job_id = ''c'', er_state = Ready, er_status = Updated\<rparr> \<and>
   stored demo_store ''mail''
     (fst (enqueue demo_store quiet 700000 ''mail'' (builder_into_batch_item \<lparr>jb_namespace = demo_handle, jb_job_id = ''c''\<rparr>) demo_db))
     (demo_queue(''c'' := (demo_queue ''c'')\<lparr>place := At_ready 700, again := False\<rparr>))"
proof -
  have now: "700 = dbl (micros (chrono demo_store) 700000)" by (simp add: micros_def safe_int_def)
  have stored: "stored demo_store ''mail'' (others (quiet 0) demo_db) demo_queue" by simp
  have xr: "((demo_queue ''c'')\<lparr>place := At_ready 700, again := False\<rparr>,
      Ok \<lparr>er_job_id = ''c'', er_state = Ready, er_status = Updated\<rparr>) =
    (case place (demo_queue ''c'') of
        Absent \<Rightarrow> ((demo_queue ''c'')\<lparr>place := At_ready 700\<rparr>, Ok \<lparr>er_job_id = ''c'', er_state = Ready, er_status = Created\<rparr>)
      | At_ready s \<Rightarrow> (demo_queue ''c'', Ok \<lparr>er_job_id = ''c'', er_state = Ready, er_status = Unchanged\<rparr>)
      | At_scheduled s \<Rightarrow> ((demo_queue ''c'')\<lparr>place := At_ready 700, again := False\<rparr>, Ok \<lparr>er_job_id = ''c'', er_state = Ready, er_status = Updated\<rparr>)
      | At_leased d w tok \<Rightarrow> ((demo_queue ''c'')\<lparr>again := True\<rparr>, Ok \<lparr>er_job_id = ''c'', er_state = Leased, er_status = if again (demo_queue ''c'') then Unchanged else Updated\<rparr>)
      | At_failed s \<Rightarrow> (fresh (At_ready 700), Ok \<lparr>er_job_id = ''c'', er_state = Ready, er_status = Updated\<rparr>))"
    by (simp add: demo_place)
  note run = enqueue_now [where L = quiet and db = demo_db and h = demo_handle, OF demo_good stored now refl xr]
  show ?thesis using applies_answered(1,2) [OF run] by simp
qed

text \<open>
  C17. Scheduling a job puts it at the requested time, or in the ready set when that time is past or
  zero. A waiting job moves only when the replace mode allows it, a leased job is refused, a failed
  job starts afresh.
\<close>

theorem enqueue_scheduled:
  assumes "good_store S" and "stored S ns (others (L 0) db) J"
    and "now = dbl (micros (chrono S) t)" and "at = dbl (micros (chrono S) schedule_at)"
    and "new = (if at = 0 \<or> at \<le> now then At_ready now else At_scheduled at)"
    and "request = scheduled_into_batch_item
      \<lparr>sb_namespace = h, sb_job_id = j, sb_schedule_at = schedule_at, sb_replace_mode = mode\<rparr>"
    and "stays = (place (J j) = new \<or> (case mode of Always \<Rightarrow> False
      | IfEarlier \<Rightarrow> \<not> score_of new < score_of (place (J j))
      | IfLater \<Rightarrow> \<not> score_of (place (J j)) < score_of new))"
    and "out = (\<lambda>p status. Ok \<lparr>er_job_id = j, er_state = state_of p, er_status = status\<rparr>)"
    and "(x, r) = (case place (J j) of
        Absent \<Rightarrow> ((J j)\<lparr>place := new, again := False\<rparr>, out new Created)
      | At_leased d w tok \<Rightarrow> (J j, Err (InvalidState j Leased))
      | At_failed s \<Rightarrow> (fresh new, out new Updated)
      | old \<Rightarrow> if stays then (J j, out old Unchanged)
               else ((J j)\<lparr>place := new, again := False\<rparr>, out new Updated))"
  shows "applies S ''enqueue_or_schedule'' ns (L 0) J db (J(j := x)) r (enqueue S L t ns request db)"
proof -
  have at: "at = dbl (schedule_micros (chrono S) (eq_schedule_at request))"
    by (simp add: assms(4,6) scheduled_into_batch_item_def schedule_micros_def)
  have new: "new = target now at" by (simp add: assms(5) target_def)
  have keeps: "keeps_place mode new (place (J j)) = stays"
    unfolding assms(7) keeps_place_def by (cases mode) auto
  have "fst (enqueue_spec request now at (J j)) = x" "enqueue_answer request now at (J j) = r"
    using assms(8,9) keeps unfolding new
    by (cases "place (J j)"; auto simp: assms(6) enqueue_spec_def enqueue_answer_def
        scheduled_into_batch_item_def schedule_spec_def schedule_result_def enqueued_def Let_def
        keeps_place_def keep_spec_def move_spec_def split: if_splits)+
  with enqueue_applies [where L = L and db = db, OF assms(1-3) at, of j] show ?thesis
    by (simp add: assms(6) scheduled_into_batch_item_def)
qed

theorem enqueue_scheduled_witness:
  "snd (enqueue demo_store quiet 700000 ''mail'' (scheduled_into_batch_item
     \<lparr>sb_namespace = demo_handle, sb_job_id = ''c'', sb_schedule_at = 900000, sb_replace_mode = IfEarlier\<rparr>) demo_db) =
     Ok \<lparr>er_job_id = ''c'', er_state = Scheduled, er_status = Unchanged\<rparr>"
proof -
  have now: "700 = dbl (micros (chrono demo_store) 700000)" by (simp add: micros_def safe_int_def)
  have at: "900 = dbl (micros (chrono demo_store) 900000)" by (simp add: micros_def safe_int_def)
  have stored: "stored demo_store ''mail'' (others (quiet 0) demo_db) demo_queue" by simp
  note run = enqueue_scheduled [where L = quiet and db = demo_db and h = demo_handle and j = "''c''" and mode = IfEarlier,
    OF demo_good stored now at refl refl refl refl prod.collapse]
  show ?thesis using applies_answered(1) [OF run] by (simp add: demo_place)
qed

text \<open>
  C31. Rescheduling moves a waiting job to the new time, or to now without one; it refuses a job
  that is leased, failed or unknown and then changes nothing.
\<close>

theorem reschedule_waiting_job:
  assumes "good_store S" and "stored S ns (others (L 0) db) J"
    and "now = dbl (micros (chrono S) t)" and "at = dbl (schedule_micros (chrono S) schedule_at)"
    and "new = (if at = 0 \<or> at \<le> now then At_ready now else At_scheduled at)"
    and "readable_placement new"
    and "(x, r) = (case place (J j) of
        Absent \<Rightarrow> (J j, Err (NotFound j))
      | At_leased d w tok \<Rightarrow> (J j, Err (InvalidState j Leased))
      | At_failed s \<Rightarrow> (J j, Err (InvalidState j Failed))
      | old \<Rightarrow> (if old = new then J j else (J j)\<lparr>place := new, again := False\<rparr>,
          Ok \<lparr>rr_job_id = j, rr_state = state_of new,
              rr_schedule_at = (case new of At_scheduled s \<Rightarrow> Some (s * 1000) | _ \<Rightarrow> None)\<rparr>))"
  shows "applies S ''reschedule'' ns (L 0) J db (J(j := x)) r (reschedule S L t ns j schedule_at db)"
proof -
  have new: "new = target now at" by (simp add: assms(5) target_def)
  have "reply_schedule new = (case new of At_scheduled s \<Rightarrow> Some (s * 1000) | _ \<Rightarrow> None)"
    by (simp add: assms(5))
  then have "fst (reschedule_spec ''replace'' now at (J j)) = x" "reschedule_answer now at j (J j) = r"
    using assms(7) unfolding new
    by (cases "place (J j)"; auto simp: reschedule_spec_def reschedule_answer_def Let_def keep_spec_def
        move_spec_def split: if_splits)+
  with reschedule_applies [where L = L and db = db, OF assms(1-4), of j] assms(6) show ?thesis
    by (simp add: new)
qed

theorem reschedule_waiting_job_witness:
  "snd (reschedule demo_store quiet 700000 ''mail'' ''b'' (Some 900000) demo_db) =
     Ok \<lparr>rr_job_id = ''b'', rr_state = Scheduled, rr_schedule_at = Some 900000\<rparr>"
proof -
  have now: "700 = dbl (micros (chrono demo_store) 700000)" by (simp add: micros_def safe_int_def)
  have at: "900 = dbl (schedule_micros (chrono demo_store) (Some 900000))"
    by (simp add: schedule_micros_def micros_def safe_int_def)
  have stored: "stored demo_store ''mail'' (others (quiet 0) demo_db) demo_queue" by simp
  note run = reschedule_waiting_job [where L = quiet and db = demo_db and j = "''b''",
    OF demo_good stored now at refl _ prod.collapse]
  show ?thesis using applies_answered(1) [OF run] by (simp add: demo_place readable_placement_def safe_int_def)
qed


section \<open>Operators and reaping\<close>

text \<open>The operator commands as the store offers them.\<close>

definition operator_call ::
    "operator_command \<Rightarrow> 'db redis_store \<Rightarrow> 'db links \<Rightarrow> timestamp \<Rightarrow> string \<Rightarrow> string \<Rightarrow> ('db, unit) io" where
  "operator_call c S L t ns j =
     (case c of
        Op_cancel \<Rightarrow> cancel S L t ns j
      | Op_requeue \<Rightarrow> requeue S L ns j t
      | Op_retry_now \<Rightarrow> retry_now S L ns j t
      | Op_force_retry \<Rightarrow> force_retry S L ns j t
      | Op_force_ack \<Rightarrow> force_ack S L t ns j
      | Op_force_fail \<Rightarrow> force_fail S L ns \<lparr>ff_job_id = j, ff_message = []\<rparr> t)"

lemma operator_call_at: "operator_call c S L t ns j = operator_transition_at S L ns (operator_name c) j t"
  by (cases c) (simp_all add: operator_call_def cancel_def requeue_def retry_now_def force_retry_def
      force_ack_def force_fail_def)

text \<open>
  C18. Every operator command either applies to the state the job is in, with the documented effect,
  or answers with the state it found and changes nothing: cancel removes a scheduled or failed job,
  requeue and retry-now make a waiting or failed job ready, force-retry a failed one; force-ack ends
  the run of a leased job, force-fail moves it to failed and counts the failure.
\<close>

theorem operator_commands:
  assumes "good_store S" and "stored S ns (others (L 0) db) J"
    and "now = dbl (micros (chrono S) t)" and "p = place (J j)"
    and "(ok, x) = (case c of
        Op_cancel \<Rightarrow> ((\<exists>s. p = At_scheduled s \<or> p = At_failed s), fresh Absent)
      | Op_force_retry \<Rightarrow> ((\<exists>s. p = At_failed s), fresh (At_ready now))
      | Op_force_ack \<Rightarrow> (is_leased p, fresh (if again (J j) then At_ready now else Absent))
      | Op_force_fail \<Rightarrow>
          (is_leased p, \<lparr>place = At_failed now, fails = Suc (fails (J j)), again = False\<rparr>)
      | _ \<Rightarrow> (\<not> is_leased p, case p of
          At_scheduled s \<Rightarrow> (J j)\<lparr>place := At_ready now, again := False\<rparr>
        | At_failed s \<Rightarrow> fresh (At_ready now)
        | _ \<Rightarrow> J j))"
    and "r = (if p = Absent then Err (NotFound j) else if ok then Ok () else Err (InvalidState j (state_of p)))"
  shows "applies S ''operator_transition'' ns (L 0) J db
    (J(j := if p = Absent \<or> \<not> ok then J j else x)) r (operator_call c S L t ns j db)"
proof -
  have "operator_effect c now (J j) = (if p = Absent \<or> \<not> ok then J j else x)"
    "accepts (operator_accepts c) j (place (J j)) = r"
    using assms(4-6) by (cases c; simp add: operator_effect_def accepts_def)+
  with operator_applies [where L = L and db = db and c = c and now = t and j = j, OF assms(1,2)] show ?thesis
    by (simp add: operator_call_at assms(3))
qed

theorem operator_commands_witness:
  "snd (cancel demo_store quiet 700000 ''mail'' ''a'' demo_db) = Err (InvalidState ''a'' Leased) \<and>
   stored demo_store ''mail'' (fst (cancel demo_store quiet 700000 ''mail'' ''a'' demo_db)) demo_queue"
proof -
  have now: "700 = dbl (micros (chrono demo_store) 700000)" by (simp add: micros_def safe_int_def)
  have stored: "stored demo_store ''mail'' (others (quiet 0) demo_db) demo_queue" by simp
  have effect: "(False, fresh Absent) = (case Op_cancel of
        Op_cancel \<Rightarrow> ((\<exists>s. place (demo_queue ''a'') = At_scheduled s \<or> place (demo_queue ''a'') = At_failed s), fresh Absent)
      | Op_force_retry \<Rightarrow> ((\<exists>s. place (demo_queue ''a'') = At_failed s), fresh (At_ready 700))
      | Op_force_ack \<Rightarrow> (is_leased (place (demo_queue ''a'')), fresh (if again (demo_queue ''a'') then At_ready 700 else Absent))
      | Op_force_fail \<Rightarrow>
          (is_leased (place (demo_queue ''a'')), \<lparr>place = At_failed 700, fails = Suc (fails (demo_queue ''a'')), again = False\<rparr>)
      | _ \<Rightarrow> (\<not> is_leased (place (demo_queue ''a'')), case place (demo_queue ''a'') of
          At_scheduled s \<Rightarrow> (demo_queue ''a'')\<lparr>place := At_ready 700, again := False\<rparr>
        | At_failed s \<Rightarrow> fresh (At_ready 700)
        | _ \<Rightarrow> demo_queue ''a''))"
    by (simp add: demo_place)
  note run = operator_commands [where L = quiet and db = demo_db and c = Op_cancel,
    OF demo_good stored now refl effect refl]
  show ?thesis using applies_answered(1,2) [OF run] by (simp add: demo_place operator_call_def)
qed

text \<open>
  C19. Reaping takes the leases that have expired, the oldest deadline first and at most the limit,
  and makes their jobs ready; failure counts stay, requests for another run are dropped, and no
  other job changes. The answer is how many.
\<close>

theorem reap_takes_expired:
  assumes "good_store S" and "stored S ns (others (L 0) db) J"
    and "0 < limit" and "safe_int (int limit)" and "now = dbl (micros (chrono S) t)"
    and "js = take limit (map snd (sorted_list_of_set
      {(d, j). leased_until (place (J j)) = Some d \<and> d \<le> now}))"
    and "length js < 10 ^ 14"
  shows "applies S ''reap_expired'' ns (L 0) J db
    (\<lambda>j. if j \<in> set js then (J j)\<lparr>place := At_ready now, again := False\<rparr> else J j)
    (Ok (length js)) (reap_expired S L ns t limit db)"
proof -
  have "{(d, j). leased_until (place (J j)) = Some d \<and> d \<le> now} = expired now J"
    by (auto simp: expired_def)
  then have js: "js = take limit (reap_order now J)" by (simp add: assms(6) reap_order_def)
  have "expire_all now js J = (\<lambda>j. if j \<in> set js then (J j)\<lparr>place := At_ready now, again := False\<rparr> else J j)"
    by (intro ext) (rule expire_all_iff)
  with reap_applies [where L = L and db = db, OF assms(1-5) js assms(7)] show ?thesis by simp
qed

lemma demo_expired:
  "{(d, j). leased_until (place (demo_queue j)) = Some d \<and> d \<le> 9500} = {(9000, ''a'')}"
  by (auto simp: demo_queue_def split: if_splits)

theorem reap_takes_expired_witness:
  "snd (reap_expired demo_store quiet ''mail'' 9500000 5 demo_db) = Ok 1 \<and>
   stored demo_store ''mail'' (fst (reap_expired demo_store quiet ''mail'' 9500000 5 demo_db))
     (\<lambda>j. if j = ''a'' then (demo_queue j)\<lparr>place := At_ready 9500, again := False\<rparr> else demo_queue j)"
proof -
  have now: "9500 = dbl (micros (chrono demo_store) 9500000)" by (simp add: micros_def safe_int_def)
  have stored: "stored demo_store ''mail'' (others (quiet 0) demo_db) demo_queue" by simp
  have js: "[''a''] = take 5 (map snd (sorted_list_of_set
      {(d, j). leased_until (place (demo_queue j)) = Some d \<and> d \<le> 9500}))"
    by (simp add: demo_expired)
  note run = reap_takes_expired [where L = quiet and db = demo_db, OF demo_good stored _ _ now js]
  show ?thesis using applies_answered(1,2) [OF run] by (simp add: safe_int_def)
qed


section \<open>Backoff\<close>

lemma bit_length_lower: "0 < n \<Longrightarrow> 2 ^ (bit_length n - 1) \<le> n"
proof (induction n rule: bit_length.induct)
  case (1 n)
  have unfold: "bit_length n = Suc (bit_length (n div 2))"
    using 1(2) by (simp add: bit_length.simps [of n])
  show ?case
  proof (cases "n div 2 = 0")
    case True
    with 1(2) show ?thesis by (simp add: unfold bit_length.simps [of 0])
  next
    case False
    then have "bit_length (n div 2) = Suc (bit_length (n div 2) - 1)"
      by (simp add: bit_length.simps [of "n div 2"])
    then have "2 ^ bit_length (n div 2) = 2 * (2 ^ (bit_length (n div 2) - 1) :: nat)"
      by (metis power_Suc)
    moreover have "2 ^ (bit_length (n div 2) - 1) \<le> n div 2" using 1 False by simp
    ultimately have "2 ^ bit_length (n div 2) \<le> n" by linarith
    then show ?thesis by (simp add: unfold)
  qed
qed

lemma bit_length_upper: "n < 2 ^ bit_length n"
proof (induction n rule: bit_length.induct)
  case (1 n)
  show ?case
  proof (cases "n = 0")
    case False
    with 1 have "n div 2 < 2 ^ bit_length (n div 2)" by simp
    then have "n < 2 * 2 ^ bit_length (n div 2)" by linarith
    with False show ?thesis by (simp add: bit_length.simps [of n])
  qed (simp add: bit_length.simps [of 0])
qed

text \<open>A number too large for a double does not round below the largest safe integer.\<close>

lemma dbl_large:
  assumes "2 ^ 53 \<le> n"
  shows "2 ^ 53 \<le> dbl n"
proof (cases "safe_int n")
  case True
  with assms show ?thesis by simp
next
  case False
  let ?a = "nat n"
  let ?u = "2 ^ (bit_length ?a - 53) :: nat"
  have big: "2 ^ 53 < ?a" using False assms by (simp add: safe_int_def)
  have len: "53 < bit_length ?a"
  proof (rule ccontr)
    assume "\<not> 53 < bit_length ?a"
    then have "(2 :: nat) ^ bit_length ?a \<le> 2 ^ 53" by (intro power_increasing) simp_all
    with bit_length_upper [of ?a] big show False by linarith
  qed
  have "bit_length ?a - 1 = 52 + (bit_length ?a - 53)" using len by simp
  then have "2 ^ (bit_length ?a - 1) = (2 ^ 52 * ?u :: nat)" by (simp only: power_add)
  moreover have "2 ^ (bit_length ?a - 1) \<le> ?a" using big by (intro bit_length_lower) simp
  ultimately have "2 ^ 52 \<le> ?a div ?u" by (simp add: less_eq_div_iff_mult_less_eq)
  moreover have "(2 :: nat) \<le> ?u"
    using len power_increasing [of 1 "bit_length ?a - 53" "2 :: nat"] by simp
  ultimately have "2 ^ 52 * 2 \<le> ?a div ?u * ?u" by (rule mult_le_mono)
  also have "\<dots> \<le> round_to ?u ?a" by (simp add: round_to_def Let_def)
  finally have "2 ^ 53 \<le> int (round_to ?u ?a)" by simp
  with False assms show ?thesis by (simp add: dbl_def)
qed

text \<open>
  C23. The exponential backoff: the first retry waits the initial delay, whatever the maximum; the
  \<open>n\<close>-th retry waits the initial delay times the multiplier to the \<open>n - 1\<close>, and at most the maximum.
  This is exact for delays up to two to the 53 milliseconds, although the script multiplies doubles.
\<close>

theorem exponential_backoff:
  assumes "initial_ms \<le> 2 ^ 53" and "multiplier \<le> 2 ^ 53" and "max_ms \<le> 2 ^ 53" and "0 < n"
  shows "retry_delay n (Backoff_exponential initial_ms multiplier max_ms) =
    (if n = 1 then int initial_ms else int (min (initial_ms * multiplier ^ (n - 1)) max_ms))"
proof -
  let ?i = "int initial_ms" and ?m = "int multiplier" and ?c = "int max_ms"
  have step: "min (dbl (d * ?m)) ?c = min (d * ?m) ?c" if "0 \<le> d" for d
  proof (cases "d * ?m \<le> 2 ^ 53")
    case True
    moreover have "0 \<le> d * ?m" using that by simp
    ultimately have "safe_int (d * ?m)" by (simp add: safe_int_def)
    then show ?thesis by simp
  next
    case False
    then show ?thesis using dbl_large [of "d * ?m"] assms(3) by (simp add: min_def)
  qed
  have loop: "backoff_loop k (min (d * ?m) ?c) ?m ?c = min (d * ?m ^ Suc k) ?c" if "0 \<le> d" for k d
    using that
  proof (induction k arbitrary: d)
    case (Suc k)
    have "min (min (d * ?m) ?c * ?m) ?c = min (d * ?m * ?m) ?c"
    proof (cases "?c < d * ?m")
      case True
      then have m: "1 \<le> ?m" using Suc.prems by (cases multiplier) auto
      have "?c \<le> ?c * ?m" "d * ?m \<le> d * ?m * ?m"
        using m Suc.prems mult_left_mono [OF m, of ?c] mult_left_mono [OF m, of "d * ?m"] by simp_all
      with True show ?thesis by (simp add: min_def)
    qed (simp add: min_def)
    then have "backoff_loop (Suc k) (min (d * ?m) ?c) ?m ?c = backoff_loop k (min (d * ?m * ?m) ?c) ?m ?c"
      using step [of "min (d * ?m) ?c"] Suc.prems by simp
    also have "\<dots> = min (d * ?m * ?m ^ Suc k) ?c" using Suc.IH [of "d * ?m"] Suc.prems by simp
    finally show ?case by (simp add: mult.assoc)
  qed simp
  have exact: "dbl ?i = ?i" "dbl ?m = ?m" "dbl ?c = ?c"
    using assms by (simp_all add: safe_int_def)
  show ?thesis
  proof (cases "n = 1")
    case False
    then obtain k where k: "n = Suc (Suc k)" using assms(4) by (metis One_nat_def not0_implies_Suc not_gr_zero)
    have "retry_delay n (Backoff_exponential initial_ms multiplier max_ms) =
        backoff_loop k (min (?i * ?m) ?c) ?m ?c"
      using step [of ?i] by (simp add: k exact)
    also have "\<dots> = min (?i * ?m ^ Suc k) ?c" by (rule loop) simp
    finally show ?thesis using False by (simp add: k of_nat_min)
  qed (simp add: exact)
qed

theorem exponential_backoff_witness:
  "map (\<lambda>n. retry_delay n (Backoff_exponential 500 2 3000)) [1, 2, 3, 4, 5] = [500, 1000, 2000, 3000, 3000]"
  using exponential_backoff [of 500 2 3000 1] exponential_backoff [of 500 2 3000 2]
    exponential_backoff [of 500 2 3000 3] exponential_backoff [of 500 2 3000 4]
    exponential_backoff [of 500 2 3000 5]
  by simp


section \<open>Reads\<close>

text \<open>
  C24. Looking a job up returns exactly its state: which set it is in, the time that belongs to that
  state, its failure count and, for a leased job, who holds the lease. It changes nothing. No other
  client acts between its reads (see \<^verbatim>\<open>Findings\<close> for one that does).
\<close>

theorem get_job_exact:
  assumes "good_store S" and "stored S ns db J" and "readable_job (J j)"
    and "record = (\<lambda>state ready sched lease failed_since.
      \<lparr>jr_job_id = j, jr_state = state, jr_ready_at = ready, jr_schedule_at = sched,
       jr_failure_count = fails (J j), jr_leased_by = lease, jr_failed_at = failed_since\<rparr>)"
  shows "get_job S quiet ns j db = (db, Ok (case place (J j) of
      Absent \<Rightarrow> None
    | At_ready s \<Rightarrow> Some (record Ready (Some (s * 1000)) None None None)
    | At_scheduled s \<Rightarrow> Some (record Scheduled None (Some (s * 1000)) None None)
    | At_leased d w tok \<Rightarrow> Some (record Leased None None
        (Some \<lparr>lh_worker_id = w, lh_lease_token = tok, lh_leased_until = d * 1000\<rparr>) None)
    | At_failed s \<Rightarrow> Some (record Failed None None None (Some (s * 1000)))))"
  using get_job_quiet [OF assms(1-3)] assms(4)
  by (cases "place (J j)") (simp_all add: job_record_of_def Let_def)

theorem get_job_exact_witness:
  "get_job demo_store quiet ''mail'' ''d'' demo_db =
     (demo_db, Ok (Some \<lparr>jr_job_id = ''d'', jr_state = Failed, jr_ready_at = None, jr_schedule_at = None,
        jr_failure_count = 3, jr_leased_by = None, jr_failed_at = Some 200000\<rparr>))"
proof -
  have readable: "readable_job (demo_queue ''d'')"
    by (simp add: readable_job_def demo_place safe_int_def)
  from get_job_exact [OF demo_good demo_stored readable refl] show ?thesis by (simp add: demo_place)
qed

text \<open>
  C25. What is scheduled can be read back: a new job enqueued for a later time is found scheduled at
  that time, to the microsecond, when no other client acts in between.
\<close>

theorem scheduled_job_found:
  assumes "good_store S" and "stored S ns db J" and "place (J j) = Absent" and "fails (J j) < 2 ^ 32"
    and "at = micros (chrono S) schedule_at" and "safe_int at" and "dbl (micros (chrono S) t) < at"
    and "at \<noteq> 0"
    and "db' = fst (enqueue S quiet t ns (scheduled_into_batch_item
      \<lparr>sb_namespace = h, sb_job_id = j, sb_schedule_at = schedule_at, sb_replace_mode = mode\<rparr>) db)"
  shows "get_job S quiet ns j db' = (db', Ok (Some
    \<lparr>jr_job_id = j, jr_state = Scheduled, jr_ready_at = None, jr_schedule_at = Some (at * 1000),
     jr_failure_count = fails (J j), jr_leased_by = None, jr_failed_at = None\<rparr>))"
proof -
  let ?request = "scheduled_into_batch_item
      \<lparr>sb_namespace = h, sb_job_id = j, sb_schedule_at = schedule_at, sb_replace_mode = mode\<rparr>"
  let ?x = "(J j)\<lparr>place := At_scheduled at, again := False\<rparr>"
  have at: "at = dbl (schedule_micros (chrono S) (eq_schedule_at ?request))"
    using assms(5,6) by (simp add: scheduled_into_batch_item_def schedule_micros_def)
  have stored: "stored S ns (others (quiet 0) db) J" using assms(2) by simp
  have "fst (enqueue_spec ?request (dbl (micros (chrono S) t)) at (J j)) = ?x"
    using assms(3,7,8)
    by (simp add: enqueue_spec_def scheduled_into_batch_item_def schedule_spec_def Let_def target_def)
  then have "stored S ns db' (J(j := ?x))"
    using applies_answered(2) [OF enqueue_applies [where L = quiet and db = db and system_now = t,
        OF assms(1) stored refl at refl]] assms(9)
    by (simp add: scheduled_into_batch_item_def)
  moreover have "readable_job ((J(j := ?x)) j)" using assms(4,6) by (simp add: readable_job_def)
  ultimately show ?thesis
    using get_job_quiet [OF assms(1)] by (simp add: job_record_of_def Let_def)
qed

theorem scheduled_job_found_witness:
  "\<exists>db'. get_job demo_store quiet ''mail'' ''z'' db' = (db', Ok (Some
    \<lparr>jr_job_id = ''z'', jr_state = Scheduled, jr_ready_at = None, jr_schedule_at = Some 900000,
     jr_failure_count = 0, jr_leased_by = None, jr_failed_at = None\<rparr>))"
proof -
  have at: "900 = micros (chrono demo_store) 900000" by (simp add: micros_def)
  have z: "place (demo_queue ''z'') = Absent" "fails (demo_queue ''z'') = 0"
    by (simp_all add: demo_queue_def)
  have "dbl (micros (chrono demo_store) 700000) < 900" by (simp add: micros_def safe_int_def)
  from scheduled_job_found [OF demo_good demo_stored z(1) _ at _ this _ refl, of demo_handle Always] z(2)
  show ?thesis by (auto simp: safe_int_def)
qed

text \<open>
  C35. The counts are the sizes of the four sets, with the scheduled jobs divided at the present: due
  ones and later ones. Together they count every job once, when no other client acts between the reads.
\<close>

theorem counts_exact:
  assumes "good_store S" and "stored S ns db J" and "now = dbl (micros (chrono S) t)"
  shows "\<exists>c. store_counts S quiet ns t db = (db, Ok c) \<and>
    ready_count c = card {j. \<exists>s. place (J j) = At_ready s} \<and>
    scheduled_due_count c = card {j. \<exists>s. place (J j) = At_scheduled s \<and> s \<le> now} \<and>
    scheduled_future_count c = card {j. \<exists>s. place (J j) = At_scheduled s \<and> now < s} \<and>
    leased_count c = card {j. is_leased (place (J j))} \<and>
    failed_count c = card {j. \<exists>s. place (J j) = At_failed s}"
proof -
  have cases: "ready_at p \<noteq> None \<longleftrightarrow> (\<exists>s. p = At_ready s)"
    "scheduled_at p = Some s \<longleftrightarrow> p = At_scheduled s"
    "leased_until p \<noteq> None \<longleftrightarrow> is_leased p" "failed_at p \<noteq> None \<longleftrightarrow> (\<exists>s. p = At_failed s)" for p s
    by (cases p; simp)+
  show ?thesis
    using store_counts_quiet [OF assms(1,2), of t]
    by (simp add: counts_of_def assms(3) cases del: not_None_eq)
qed

theorem counts_exact_witness:
  "\<exists>c. store_counts demo_store quiet ''mail'' 200000 demo_db = (demo_db, Ok c) \<and>
    ready_count c = 1 \<and> scheduled_due_count c = 0 \<and> scheduled_future_count c = 1 \<and> leased_count c = 1"
proof -
  have now: "200 = dbl (micros (chrono demo_store) 200000)" by (simp add: micros_def safe_int_def)
  have sets: "{j. \<exists>s. place (demo_queue j) = At_ready s} = {''b''}"
    "{j. \<exists>s. place (demo_queue j) = At_scheduled s \<and> s \<le> 200} = {}"
    "{j. \<exists>s. place (demo_queue j) = At_scheduled s \<and> 200 < s} = {''c''}"
    "{j. is_leased (place (demo_queue j))} = {''a''}"
    by (auto simp: demo_queue_def split: if_splits)
  from counts_exact [OF demo_good demo_stored now] show ?thesis unfolding sets by auto
qed

text \<open>
  C34. A page of failed jobs is a slice of all of them in order of failure (then by id), and there is
  a cursor exactly when more follow; it is the offset at which the next page begins. No other client
  acts between the reads.
\<close>

theorem list_failed_pages:
  assumes "good_store S" and "stored S ns db J" and "\<forall>j. readable_job (J j)"
    and "case fq_cursor query of None \<Rightarrow> offset = 0 | Some c \<Rightarrow> parse_usize c = Some offset"
    and "0 < fq_limit query" and "offset + fq_limit query < 2 ^ 63"
    and "order = sorted_list_of_set {(s, j). place (J j) = At_failed s}"
  shows "\<exists>page. list_failed S quiet ns query db = (db, Ok page) \<and>
    map (\<lambda>r. (jr_job_id r, jr_failed_at r, jr_failure_count r)) (fp_jobs page) =
      map (\<lambda>(s, j). (j, Some (s * 1000), fails (J j))) (take (fq_limit query) (drop offset order)) \<and>
    fp_next_cursor page = (if offset + fq_limit query < length order
      then Some (show_nat (offset + fq_limit query)) else None)"
proof -
  have failed: "failed_at p = Some s \<longleftrightarrow> p = At_failed s" for p s by (cases p) auto
  have order: "order = failed_order J" by (simp add: assms(7) failed_order_def failed)
  have rows: "place (J j) = At_failed s" if "(s, j) \<in> set (take k (drop offset order))" for s j k
    using that failed_row [OF good_storeD(1) [OF assms(1)] assms(2) [unfolded stored_def]]
    unfolding order by (blast dest: in_set_takeD in_set_dropD)
  have "map (\<lambda>r. (jr_job_id r, jr_failed_at r, jr_failure_count r))
      (map (\<lambda>(s, j). the (job_record_of j (J j))) (take k (drop offset order))) =
    map (\<lambda>(s, j). (j, Some (s * 1000), fails (J j))) (take k (drop offset order))" for k
    by (auto simp: job_record_of_def Let_def dest!: rows)
  with list_failed_quiet [OF assms(1-6)] show ?thesis by (simp add: failed_page_def order)
qed

theorem list_failed_pages_witness:
  "\<exists>page. list_failed demo_store quiet ''mail'' \<lparr>fq_cursor = None, fq_limit = 10\<rparr> demo_db = (demo_db, Ok page) \<and>
    map jr_job_id (fp_jobs page) = [''d''] \<and> fp_next_cursor page = None"
proof -
  have readable: "\<forall>j. readable_job (demo_queue j)"
    by (simp add: readable_job_def demo_queue_def safe_int_def is_char_boundary_def)
  have failed: "{(s, j). place (demo_queue j) = At_failed s} = {(200, ''d'')}"
    by (auto simp: demo_queue_def split: if_splits)
  have "\<exists>page. list_failed demo_store quiet ''mail'' \<lparr>fq_cursor = None, fq_limit = 10\<rparr> demo_db = (demo_db, Ok page) \<and>
    map (\<lambda>r. (jr_job_id r, jr_failed_at r, jr_failure_count r)) (fp_jobs page) = [(''d'', Some 200000, 3)] \<and>
    fp_next_cursor page = None"
    using list_failed_pages [where query = "\<lparr>fq_cursor = None, fq_limit = 10\<rparr>" and offset = 0,
      OF demo_good demo_stored readable _ _ _ refl]
    by (simp add: failed demo_place)
  then show ?thesis by auto
qed

end
