(* ===== verification/Admin_Properties.thy ===== *)
theory Admin_Properties
  imports Demo Client
begin

text \<open>
  The properties of cleanup, the worker list, the batch interface, the key layout and the codecs.
\<close>

section \<open>Cleanup\<close>

text \<open>
  C32. Purging removes exactly the failed jobs the selector names, one job, those that failed before
  an instant, or all, together with their failure counts, and answers how many there were, when no
  other client acts between its two round trips (see \<^verbatim>\<open>Findings\<close> for one that does).
\<close>

theorem purge_removes_selected:
  assumes "good_store S" and "stored S ns db J"
    and "gone = {j. \<exists>s. place (J j) = At_failed s \<and> (case selector of
        Sel_JobId i \<Rightarrow> j = i | Sel_OlderThan t \<Rightarrow> s < dbl (micros (chrono S) t) | Sel_All \<Rightarrow> True)}"
  shows "snd (purge_failed S quiet ns selector db) = Ok (card gone) \<and>
    stored S ns (fst (purge_failed S quiet ns selector db)) (\<lambda>j. if j \<in> gone then fresh Absent else J j)"
proof -
  have "selects (chrono S) selector J = (\<lambda>j. j \<in> gone)"
  proof
    fix j
    show "selects (chrono S) selector J j = (j \<in> gone)"
      by (cases "place (J j)") (simp_all add: selects_def assms(3) split: failed_selector.splits)
  qed
  with purge_failed_quiet(1,2) [OF assms(1,2) refl, of selector]
  show ?thesis by simp
qed

theorem purge_removes_selected_witness:
  "snd (purge_failed demo_store quiet ''mail'' (Sel_OlderThan 300000) demo_db) = Ok 1"
proof -
  have "{j. \<exists>s. place (demo_queue j) = At_failed s \<and> s < dbl (micros (chrono demo_store) 300000)} = {''d''}"
    by (auto simp: demo_queue_def micros_def safe_int_def split: if_splits)
  then show ?thesis
    using purge_removes_selected [OF demo_good demo_stored refl, of "Sel_OlderThan 300000"] by simp
qed

text \<open>
  C33. The worker list holds the registered workers in the order in which they were last seen, each
  with its concurrency and the number of leases it holds; workers that are stale (not seen for a day
  nor for ten times their lease duration) are left out. No other client acts in between, and the lease
  counters are exact.
\<close>

theorem list_workers_exact:
  assumes "good_store S" and "exact S ns db J" and "ks = store_keys S ns"
    and "registered (redis S) ks db conf" and "\<forall>w. held J w < 2 ^ 64"
    and "info = (\<lambda>w s. \<lparr>wi_worker_id = w, wi_concurrency = concurrency (conf w),
      wi_leased_count = held J w, wi_last_heartbeat_at = s * 1000\<rparr>)"
    and "stale = (\<lambda>w s. max (clamp_i64 (clamp_i64 (u64_as_i64 (as_millis (lease_duration (conf w))) * 10) * 1000))
      86400000000 < clamp_i64 (micros (chrono S) t - s))"
  shows "snd (list_workers S quiet ns t db) =
    Ok (map (\<lambda>e. info (zmember e) (zscore_of e))
      (filter (\<lambda>e. \<not> stale (zmember e) (zscore_of e)) (zall (redis S) db (workers_last_seen ks))))"
proof -
  let ?es = "zall (redis S) db (workers_last_seen ks)"
  have "stale_worker (redis S) ks (micros (chrono S) t) db (zmember e) = stale (zmember e) (zscore_of e)"
    if "e \<in> set ?es" for e
  proof -
    have e: "zscore (redis S) db (workers_last_seen ks) (zmember e) = Some (zscore_of e)"
      using that by (auto simp: redis_service.zall_set [OF good_storeD(1) [OF assms(1)]])
    then have "hget (redis S) db (workers_config ks) (zmember e) = Some (pack_worker_config_record (conf (zmember e)))"
      "concurrency (conf (zmember e)) < 2 ^ 64" "as_millis (lease_duration (conf (zmember e))) < 2 ^ 64"
      using assms(4) by (auto simp: registered_def)
    then show ?thesis
      by (simp add: stale_worker_def e is_stale_def parse_pack_worker_record stale_after_us_def assms(7))
  qed
  then have "filter (\<lambda>e. \<not> stale_worker (redis S) ks (micros (chrono S) t) db (zmember e)) ?es =
      filter (\<lambda>e. \<not> stale (zmember e) (zscore_of e)) ?es"
    by (intro filter_cong) simp_all
  then show ?thesis
    using list_workers_quiet [OF assms(1-5) refl, of t] by (simp add: assms(6) worker_info_of_def)
qed

definition demo_staffed :: mem_db where
  "demo_staffed =
     mem_hset (mem_zadd demo_db (workers_last_seen demo_keys) 600 ''w'') (workers_config demo_keys) ''w''
       (pack_worker_config_record demo_config)"

lemma demo_staffed_exact: "exact demo_store ''mail'' demo_staffed demo_queue"
  using demo_exact
  by (simp add: exact_def counts_leases_def demo_staffed_def mem_hset_def mem_zadd_def
      demo_keys_def [symmetric] keys_okD [OF demo_keys_ok])

lemma demo_staffed_seen: "mem_zall demo_staffed (workers_last_seen demo_keys) = [ZEntry 600 ''w'']"
  by (simp add: demo_staffed_def mem_hset_def mem_zadd_def mem_zall_def
      demo_db_def keys_okD [OF demo_keys_ok])

theorem list_workers_exact_witness:
  "snd (list_workers demo_store quiet ''mail'' 700000 demo_staffed) =
     Ok [\<lparr>wi_worker_id = ''w'', wi_concurrency = 2, wi_leased_count = 1, wi_last_heartbeat_at = 600000\<rparr>]"
proof -
  have reg: "registered (redis demo_store) demo_keys demo_staffed (\<lambda>_. demo_config)"
    by (simp add: registered_def demo_staffed_def mem_hset_def mem_zadd_def mem_zscore_def
        demo_db_def keys_okD [OF demo_keys_ok] demo_config_def as_millis_def safe_int_def)
  have leases: "held demo_queue w = (if w = ''w'' then 1 else 0)" for w
  proof -
    have "{j. leased_by (place (demo_queue j)) w} = (if w = ''w'' then {''a''} else {})"
      by (auto simp: demo_queue_def split: if_splits)
    then show ?thesis by (simp add: held_def)
  qed
  from list_workers_exact [OF demo_good demo_staffed_exact demo_keys_def reg _ refl refl, of 700000]
  show ?thesis
    by (simp add: leases demo_staffed_seen micros_def clamp_i64_def i64_min_def i64_max_def demo_config_def
        as_millis_def u64_as_i64_def)
qed


section \<open>The client\<close>

lemma bind_OkE:
  assumes "io_bind m f db = (db', Ok b)"
  obtains a db1 where "m db = (db1, Ok a)" "f a db1 = (db', Ok b)"
  using assms by (auto simp: io_bind_def split: prod.splits rresult.splits)

lemma enqueue_answers_job:
  assumes "enqueue S L t ns request db = (db', Ok r)"
  shows "er_job_id r = eq_job_id request"
  using assms by (auto simp: enqueue_def Let_def parse_enqueue_response_def elim!: bind_OkE split: if_splits)

lemma enqueue_request_job:
  assumes "enqueue_request (redis_queue_store S) L L' t ns request db = (db', Ok r)"
  shows "er_job_id r = eq_job_id request"
  using assms
  by (auto simp: enqueue_request_def validated_def dest: enqueue_answers_job elim!: bind_OkE)

lemma batch_from_jobs:
  assumes "enqueue_batch_from (redis_queue_store S) E ns i requests db = (db', Ok rs)"
  shows "map er_job_id rs = map eq_job_id requests"
  using assms
proof (induction requests arbitrary: i db rs)
  case (Cons request requests)
  obtain L L' t where E: "E i = (L, L', t)" by (metis prod_cases3)
  obtain r db1 rest where r: "enqueue_request (redis_queue_store S) L L' t ns request db = (db1, Ok r)"
    and rest: "enqueue_batch_from (redis_queue_store S) E ns (Suc i) requests db1 = (db', Ok rest)"
    and "rs = r # rest"
    using Cons.prems by (auto simp: E elim!: bind_OkE)
  with Cons.IH [OF rest] enqueue_request_job [OF r] show ?case by simp
qed simp

lemma batch_from_append:
  "enqueue_batch_from Q E ns i (xs @ ys) db =
     io_bind (enqueue_batch_from Q E ns i xs) (\<lambda>rs.
       io_bind (enqueue_batch_from Q E ns (i + length xs) ys) (\<lambda>rs'. io_return (Ok (rs @ rs')))) db"
proof (induction xs arbitrary: i db)
  case (Cons x xs)
  obtain L L' t where E: "E i = (L, L', t)" by (metis prod_cases3)
  show ?case
    by (cases "enqueue_request Q L L' t ns x db"; cases "snd (enqueue_request Q L L' t ns x db)")
       (auto simp: E Cons.IH io_bind_def split: prod.splits rresult.splits)
qed (simp add: io_bind_def split: prod.splits rresult.splits)

text \<open>
  C36. A batch enqueues its requests in order, one result each for its own job. It stops at the first
  request that fails: what came before stays enqueued, nothing after is sent.
\<close>

theorem batch_in_order:
  assumes "enqueue_batch_from (redis_queue_store S) E ns 0 xs db = (db1, Ok rs)"
    and "E (length xs) = (L, L', t)"
    and "enqueue_request (redis_queue_store S) L L' t ns y db1 = (db2, Err e)"
  shows "map er_job_id rs = map eq_job_id xs \<and>
    enqueue_batch (redis_queue_store S) E ns xs db = (db1, Ok \<lparr>items = rs\<rparr>) \<and>
    enqueue_batch (redis_queue_store S) E ns (xs @ y # ys) db = (db2, Err e)"
  using assms batch_from_jobs [OF assms(1)]
  by (simp add: enqueue_batch_def batch_from_append io_bind_def)

theorem batch_in_order_witness:
  "enqueue_batch (redis_queue_store demo_store) (\<lambda>_. (quiet, quiet, 0)) ''mail''
     [builder_into_batch_item \<lparr>jb_namespace = demo_handle, jb_job_id = replicate 300 (CHR ''x'')\<rparr>, builder_into_batch_item \<lparr>jb_namespace = demo_handle, jb_job_id = ''z''\<rparr>] empty_db =
   (empty_db, Err (JobIdTooLong 300))"
proof -
  have run: "enqueue_request (redis_queue_store demo_store) quiet quiet 0 ''mail''
      (builder_into_batch_item \<lparr>jb_namespace = demo_handle, jb_job_id = replicate 300 (CHR ''x'')\<rparr>) empty_db =
    (empty_db, Err (JobIdTooLong 300))"
    by (simp add: enqueue_request_def builder_into_batch_item_def validated_long)
  have none: "enqueue_batch_from (redis_queue_store demo_store) (\<lambda>_. (quiet, quiet, 0)) ''mail'' 0 [] empty_db =
      (empty_db, Ok [])" by simp
  from batch_in_order [OF none refl run] show ?thesis by simp
qed

text \<open>
  A job id of more than 256 bytes is refused by every operation of the namespace handle that
  takes one, before anything is sent.
\<close>

lemma long_job_ids_refused:
  assumes "256 < length j"
  shows "client_get_job Q L ns j db = (db, Err (JobIdTooLong (length j))) \<and>
    client_reschedule Q L L' t ns j at db = (db, Err (JobIdTooLong (length j))) \<and>
    client_cancel Q L t ns j db = (db, Err (JobIdTooLong (length j))) \<and>
    client_force_ack Q L t ns j db = (db, Err (JobIdTooLong (length j))) \<and>
    client_force_fail Q L t ns \<lparr>ff_job_id = j, ff_message = m\<rparr> db = (db, Err (JobIdTooLong (length j))) \<and>
    client_requeue Q L t ns j db = (db, Err (JobIdTooLong (length j))) \<and>
    client_retry_now Q L t ns j db = (db, Err (JobIdTooLong (length j))) \<and>
    client_force_retry Q L t ns j db = (db, Err (JobIdTooLong (length j))) \<and>
    enqueue_request Q L L' t ns (builder_into_batch_item \<lparr>jb_namespace = h, jb_job_id = j\<rparr>) db =
      (db, Err (JobIdTooLong (length j)))"
  using assms
  by (simp add: client_get_job_def client_reschedule_def client_cancel_def client_force_ack_def
      client_force_fail_def client_requeue_def client_retry_now_def client_force_retry_def
      enqueue_request_def builder_into_batch_item_def validated_long)

lemma long_job_ids_refused_witness:
  "client_cancel (redis_queue_store demo_store) quiet 0 ''mail'' (replicate 257 (CHR ''x'')) demo_db =
     (demo_db, Err (JobIdTooLong 257))"
proof -
  have "256 < length (replicate 257 (CHR ''x''))" by simp
  from long_job_ids_refused [where Q = "redis_queue_store demo_store" and L = quiet and t = 0 and
      ns = "''mail''" and db = demo_db and h = demo_handle, OF this]
  show ?thesis by simp
qed


section \<open>Keys\<close>

text \<open>
  All keys of a namespace carry the same Redis Cluster hash tag, the hex form of the namespace.
\<close>

lemma one_slot_per_namespace:
  assumes "CHR ''{'' \<notin> set prefix" and "ns \<noteq> []"
  shows "hash_tag ` set (all_keys (namespace_keys prefix ns)) = {hex_slot ns}"
  using hash_tag_scoped [OF assms] by (simp add: all_keys_namespace)

text \<open>
  C37. No key of one namespace is a key of another namespace or of another prefix, the eleven keys of
  a namespace differ, and none of them is a catalogue key. All of them carry the hex form of the
  namespace as their hash tag, so that a script may touch them together on a Redis Cluster, provided
  the namespace is not empty and the prefix has no opening brace.
\<close>

theorem namespaces_apart:
  assumes "(prefix, ns) \<noteq> (prefix', ns')"
  shows "set (all_keys (namespace_keys prefix ns)) \<inter> set (all_keys (namespace_keys prefix' ns')) = {} \<and>
    distinct (all_keys (namespace_keys prefix ns)) \<and>
    namespaces_key prefix' \<notin> set (all_keys (namespace_keys prefix ns)) \<and>
    (CHR ''{'' \<notin> set prefix \<longrightarrow> ns \<noteq> [] \<longrightarrow>
      hash_tag ` set (all_keys (namespace_keys prefix ns)) = {hex_slot ns})"
  using assms all_keys_disjoint [of prefix prefix' ns ns'] distinct_all_keys namespaces_key_notin
    one_slot_per_namespace [of prefix ns] by auto

theorem namespaces_apart_witness:
  "set (all_keys (namespace_keys ''app'' ''mail'')) \<inter> set (all_keys (namespace_keys ''app'' ''mai'')) = {} \<and>
   hash_tag ` set (all_keys (namespace_keys ''app'' ''mail'')) = {hex_slot ''mail''}"
  using namespaces_apart [of "''app''" "''mail''" "''app''" "''mai''"] by simp


section \<open>Codecs and configuration\<close>

text \<open>
  C38. The registration of a worker and the metadata of a lease are read back as they were written;
  the scripts read the same worker out of the metadata.
\<close>

theorem records_round_trip:
  assumes "concurrency c < 2 ^ 64" and "as_millis (lease_duration c) < 2 ^ 64"
    and "length w < 2 ^ 64" and "is_char_boundary (w @ tok) (length w)"
  shows "parse_worker_config_record (pack_worker_config_record c) =
      Ok \<lparr>sw_concurrency = concurrency c, sw_lease_duration_ms = as_millis (lease_duration c)\<rparr> \<and>
    parse_lease_meta (pack_meta w tok) = Ok (w, tok) \<and> worker_from_meta (pack_meta w tok) = Some w"
  using parse_pack_worker_record [OF assms(1,2)] parse_pack_meta [OF assms(3,4)] by simp

theorem records_round_trip_witness:
  "parse_lease_meta (pack_meta ''worker:1'' ''tok'') = Ok (''worker:1'', ''tok'') \<and>
   parse_worker_config_record (pack_worker_config_record demo_config) =
     Ok \<lparr>sw_concurrency = 2, sw_lease_duration_ms = 30\<rparr>"
  using records_round_trip [of demo_config "''worker:1''" "''tok''"]
  by (simp add: demo_config_def as_millis_def is_char_boundary_def)

end
