(* ===== verification/Worker.thy ===== *)
theory Worker
  imports Client "HOL-Library.AList"
begin

text \<open>
  The helpers of the worker runtime: lease bookkeeping (\<^verbatim>\<open>worker/leases.rs\<close>), recovery
  (\<^verbatim>\<open>worker/recovery.rs\<close>), the handler adapter (\<^verbatim>\<open>worker/handler.rs\<close>), completion
  (\<^verbatim>\<open>worker/completion.rs\<close>) and heartbeats (\<^verbatim>\<open>worker/heartbeat.rs\<close>). A \<^verbatim>\<open>HashMap\<close> is an
  association list with distinct keys; where the code iterates over one, the order of the keys is
  an argument.
\<close>

section \<open>Leases\<close>

record lease_attempt_key =
  lk_job_id :: string
  lk_lease_token :: string

record active_lease =
  al_job_id :: string
  al_lease_token :: string
  al_heartbeat_enabled :: bool

text \<open>The result of a handler: an error message or an outcome.\<close>

type_synonym handled = "string + job_outcome"

record completed_lease =
  cl_job_id :: string
  cl_lease_token :: string
  cl_result :: handled

definition lease_attempt_key_new :: "string \<Rightarrow> string \<Rightarrow> lease_attempt_key" where
  "lease_attempt_key_new job token = \<lparr>lk_job_id = job, lk_lease_token = token\<rparr>"

definition active_lease_new :: "string \<Rightarrow> string \<Rightarrow> active_lease" where
  "active_lease_new job token =
     \<lparr>al_job_id = job, al_lease_token = token, al_heartbeat_enabled = True\<rparr>"

definition active_attempt_key :: "active_lease \<Rightarrow> lease_attempt_key" where
  "active_attempt_key l = lease_attempt_key_new (al_job_id l) (al_lease_token l)"

definition disable_heartbeat :: "active_lease \<Rightarrow> active_lease" where
  "disable_heartbeat l = l\<lparr>al_heartbeat_enabled := False\<rparr>"

definition completed_attempt_key :: "completed_lease \<Rightarrow> lease_attempt_key" where
  "completed_attempt_key c = lease_attempt_key_new (cl_job_id c) (cl_lease_token c)"

text \<open>\<^verbatim>\<open>Uuid::now_v7().to_string()\<close>: \<open>uuid i\<close> is the \<open>i\<close>-th identifier the call generates.\<close>

definition new_lease_tokens :: "(nat \<Rightarrow> string) \<Rightarrow> nat \<Rightarrow> string list" where
  "new_lease_tokens uuid count = map uuid [0..<count]"

text \<open>\<^verbatim>\<open>Duration::MAX\<close>, in nanoseconds.\<close>

definition duration_max :: duration where
  "duration_max = (2 ^ 64 - 1) * 1000000000 + 999999999"

definition next_poll_delay :: "duration \<Rightarrow> duration \<Rightarrow> duration" where
  "next_poll_delay current limit = min (min (current * 2) duration_max) limit"

definition sleep_duration :: "timestamp \<Rightarrow> duration \<Rightarrow> timestamp option \<Rightarrow> duration" where
  "sleep_duration now delay next_at =
     (case next_at of
        Some schedule_at \<Rightarrow>
          (if schedule_at > now then min (nat (schedule_at - now)) delay else delay)
      | None \<Rightarrow> delay)"


section \<open>Recovery\<close>

fun recoverable_runtime_result :: "unit result \<Rightarrow> bool result" where
  "recoverable_runtime_result (Ok _) = Ok False"
| "recoverable_runtime_result (Err e) =
     (if is_recoverable_worker_runtime e then Ok True else Err e)"
| "recoverable_runtime_result Panic = Panic"

text \<open>
  A monotonic \<^verbatim>\<open>Instant\<close>, in nanoseconds; the clock of the platform counts seconds in an
  \<^verbatim>\<open>i64\<close>, and \<^verbatim>\<open>checked_add\<close> fails beyond that.
\<close>

type_synonym instant = nat

definition instant_max :: instant where
  "instant_max = (2 ^ 63 - 1) * 1000000000 + 999999999"

definition checked_add :: "instant \<Rightarrow> duration \<Rightarrow> instant option" where
  "checked_add t d = (if t + d \<le> instant_max then Some (t + d) else None)"

text \<open>The clock may be read twice: \<open>t'\<close> is the second reading.\<close>

definition runtime_backoff_deadline :: "instant \<Rightarrow> instant \<Rightarrow> duration \<Rightarrow> instant" where
  "runtime_backoff_deadline t t' d =
     (case checked_add t d of Some deadline \<Rightarrow> deadline | None \<Rightarrow> t')"

definition runtime_backoff_ready :: "instant \<Rightarrow> instant option \<Rightarrow> bool" where
  "runtime_backoff_ready t deadline = (case deadline of Some d \<Rightarrow> t \<ge> d | None \<Rightarrow> True)"

definition runtime_backoff_remaining :: "instant \<Rightarrow> instant option \<Rightarrow> duration" where
  "runtime_backoff_remaining t deadline = (case deadline of Some d \<Rightarrow> d - t | None \<Rightarrow> 0)"


section \<open>Handlers\<close>

text \<open>\<^verbatim>\<open>TraitHandlerAdapter\<close>: the error of the job handler is reduced to its message.\<close>

definition trait_handler_adapter :: "(string \<Rightarrow> job_error + job_outcome) \<Rightarrow> string \<Rightarrow> handled" where
  "trait_handler_adapter inner job =
     (case inner job of
        Inl error \<Rightarrow> Inl (case error of Retryable_error message \<Rightarrow> message)
      | Inr result \<Rightarrow> Inr result)"


section \<open>Completion\<close>

text \<open>One call into the store: its links, the system time and the reading of the worker's clock.\<close>

record 'db store_call =
  sc_links :: "'db links"
  sc_system_now :: timestamp
  sc_now :: timestamp

definition worker_failure :: "worker_config \<Rightarrow> completed_lease \<Rightarrow> failure_action \<Rightarrow> timestamp \<Rightarrow> failure_request" where
  "worker_failure config c action now =
     \<lparr>fr_worker_id = worker_id config, fr_job_id = cl_job_id c, fr_lease_token = cl_lease_token c,
      fr_action = action, fr_retry_policy = retry_policy config, fr_now = now\<rparr>"

definition io_unit :: "('db, 'a) io \<Rightarrow> ('db, unit) io" where
  "io_unit op = io_bind op (\<lambda>_. io_return (Ok ()))"

definition resolve_completed ::
    "'db queue_store \<Rightarrow> 'db store_call \<Rightarrow> string \<Rightarrow> worker_config \<Rightarrow> completed_lease \<Rightarrow> ('db, unit) io" where
  "resolve_completed Q call namespace config c =
     (case cl_result c of
        Inr Complete \<Rightarrow>
          qs_ack Q (sc_links call) (sc_system_now call) namespace (worker_id config)
            (cl_job_id c) (cl_lease_token c)
      | Inr (Reschedule schedule_at) \<Rightarrow>
          qs_complete_and_reschedule Q (sc_links call) namespace (worker_id config)
            (cl_job_id c) (cl_lease_token c) schedule_at (sc_now call)
      | Inr (Fail _) \<Rightarrow>
          io_unit (qs_fail_or_retry Q (sc_links call) namespace
            (worker_failure config c Action_terminal (sc_now call)))
      | Inl message \<Rightarrow>
          io_unit (qs_fail_or_retry Q (sc_links call) namespace
            (worker_failure config c Action_retryable (sc_now call))))"


section \<open>Heartbeats\<close>

type_synonym active_leases = "(lease_attempt_key \<times> active_lease) list"

text \<open>
  The leases to renew are collected first, in the order of the map; \<open>links i\<close> are the links of the
  \<open>i\<close>-th call.
\<close>

definition enabled_leases :: "lease_attempt_key list \<Rightarrow> active_leases \<Rightarrow> active_lease list" where
  "enabled_leases order leases =
     filter al_heartbeat_enabled (List.map_filter (map_of leases) order)"

fun heartbeat_from ::
    "'db queue_store \<Rightarrow> (nat \<Rightarrow> 'db links) \<Rightarrow> string \<Rightarrow> worker_config \<Rightarrow> timestamp \<Rightarrow> nat \<Rightarrow>
     active_lease list \<Rightarrow> active_leases \<Rightarrow> 'db \<Rightarrow> 'db \<times> active_leases \<times> unit result" where
  "heartbeat_from Q links namespace config now i [] leases db = (db, leases, Ok ())"
| "heartbeat_from Q links namespace config now i (l # ls) leases db =
     (case qs_heartbeat Q (links i) namespace (worker_id config) (al_job_id l) (al_lease_token l)
             now (lease_duration config) db of
        (db', Ok _) \<Rightarrow> heartbeat_from Q links namespace config now (Suc i) ls leases db'
      | (db', Err (LeaseMismatch _)) \<Rightarrow>
          heartbeat_from Q links namespace config now (Suc i) ls
            (case map_of leases (active_attempt_key l) of
               Some held \<Rightarrow> AList.update (active_attempt_key l) (disable_heartbeat held) leases
             | None \<Rightarrow> leases) db'
      | (db', Err e) \<Rightarrow> (db', leases, Err e)
      | (db', Panic) \<Rightarrow> (db', leases, Panic))"

definition heartbeat_active ::
    "'db queue_store \<Rightarrow> (nat \<Rightarrow> 'db links) \<Rightarrow> string \<Rightarrow> worker_config \<Rightarrow> timestamp \<Rightarrow>
     lease_attempt_key list \<Rightarrow> active_leases \<Rightarrow> 'db \<Rightarrow> 'db \<times> active_leases \<times> unit result" where
  "heartbeat_active Q links namespace config now order leases db =
     heartbeat_from Q links namespace config now 0 (enabled_leases order leases) leases db"

end
