(* ===== verification/Worker_Run.thy ===== *)
theory Worker_Run
  imports Worker
begin

text \<open>
  The worker loop of \<^verbatim>\<open>worker/run.rs\<close>, with \<^verbatim>\<open>worker/spawning.rs\<close>. One iteration of the loop is
  the part before \<^verbatim>\<open>select!\<close> followed by one of its arms. What the environment decides in an
  iteration is an argument: which tasks have finished and how, the order in which a map is
  traversed, the readings of the clocks, the fate of every store call, and the arm that is taken
  among those whose precondition holds.
\<close>

record 'db worker =
  wk_namespace :: string
  wk_store :: "'db queue_store"
  wk_config :: worker_config

text \<open>
  The local variables of the loop. The join set holds the leases whose handler tasks have been
  spawned and not yet been joined.
\<close>

record worker_state =
  ws_join_set :: "reserved_job list"
  ws_active :: active_leases
  ws_pending :: "(lease_attempt_key \<times> completed_lease) list"
  ws_poll_delay :: duration
  ws_next_schedule_at :: "timestamp option"
  ws_reserve_sleep :: "(duration \<times> bool) option"
  ws_backoff_until :: "instant option"

definition initial_state :: "worker_config \<Rightarrow> worker_state" where
  "initial_state config =
     \<lparr>ws_join_set = [], ws_active = [], ws_pending = [],
      ws_poll_delay = poll_interval_min config, ws_next_schedule_at = None,
      ws_reserve_sleep = None, ws_backoff_until = None\<rparr>"


section \<open>Tasks\<close>

text \<open>A task returns what the handler returned, or it panics.\<close>

datatype task_end = Returned handled | Task_lost join_error

definition lease_key :: "reserved_job \<Rightarrow> lease_attempt_key" where
  "lease_key job = lease_attempt_key_new (rj_job_id job) (rj_lease_token job)"

definition spawn_job :: "reserved_job \<Rightarrow> worker_state \<Rightarrow> worker_state" where
  "spawn_job job st =
     (let l = active_lease_new (rj_job_id job) (rj_lease_token job)
      in st\<lparr>ws_active := AList.update (active_attempt_key l) l (ws_active st),
            ws_join_set := ws_join_set st @ [job]\<rparr>)"

text \<open>What joining the task of a lease yields.\<close>

fun task_result :: "reserved_job \<Rightarrow> task_end \<Rightarrow> join_error + completed_lease" where
  "task_result job (Returned result) =
     Inr \<lparr>cl_job_id = rj_job_id job, cl_lease_token = rj_lease_token job, cl_result = result\<rparr>"
| "task_result job (Task_lost source) = Inl source"

definition record_join_result ::
    "join_error + completed_lease \<Rightarrow> worker_state \<Rightarrow> worker_state \<times> unit result" where
  "record_join_result joined st =
     (case joined of
        Inl source \<Rightarrow> (st, Err (WorkerTaskJoin source))
      | Inr c \<Rightarrow>
          (st\<lparr>ws_pending := AList.update (completed_attempt_key c) c (ws_pending st)\<rparr>, Ok ()))"

text \<open>The \<open>i\<close>-th task of the join set is joined.\<close>

definition join_task :: "nat \<Rightarrow> task_end \<Rightarrow> worker_state \<Rightarrow> worker_state \<times> unit result" where
  "join_task i result st =
     record_join_result (task_result (ws_join_set st ! i) result)
       (st\<lparr>ws_join_set := take i (ws_join_set st) @ drop (Suc i) (ws_join_set st)\<rparr>)"

text \<open>The tasks that have finished, in the order in which they are joined; the others go on.\<close>

fun drain_joined_jobs ::
    "(nat \<times> task_end) list \<Rightarrow> worker_state \<Rightarrow> worker_state \<times> unit result" where
  "drain_joined_jobs [] st = (st, Ok ())"
| "drain_joined_jobs ((i, result) # rest) st =
     (case join_task i result st of
        (st', Ok _) \<Rightarrow> drain_joined_jobs rest st'
      | (st', Err e) \<Rightarrow> (st', Err e)
      | (st', Panic) \<Rightarrow> (st', Panic))"


section \<open>Completions\<close>

text \<open>\<open>calls i\<close> is the \<open>i\<close>-th store call; the answer says whether to back off.\<close>

fun resolve_pending_from ::
    "'db worker \<Rightarrow> (nat \<Rightarrow> 'db store_call) \<Rightarrow> nat \<Rightarrow> lease_attempt_key list \<Rightarrow> worker_state \<Rightarrow> 'db \<Rightarrow>
     'db \<times> worker_state \<times> bool result" where
  "resolve_pending_from W calls i [] st db = (db, st, Ok False)"
| "resolve_pending_from W calls i (key # keys) st db =
     (case map_of (ws_pending st) key of
        None \<Rightarrow> resolve_pending_from W calls (Suc i) keys st db
      | Some c \<Rightarrow>
          (let taken = st\<lparr>ws_pending := AList.delete key (ws_pending st)\<rparr>;
               key' = completed_attempt_key c;
               dropped = taken\<lparr>ws_active := AList.delete key' (ws_active taken)\<rparr>
           in case resolve_completed (wk_store W) (calls i) (wk_namespace W) (wk_config W) c db of
                (db', Ok _) \<Rightarrow> resolve_pending_from W calls (Suc i) keys dropped db'
              | (db', Err (LeaseMismatch _)) \<Rightarrow>
                  resolve_pending_from W calls (Suc i) keys dropped db'
              | (db', Err e) \<Rightarrow>
                  (if is_recoverable_worker_runtime e
                   then (db', taken\<lparr>ws_pending := AList.update key' c (ws_pending taken)\<rparr>, Ok True)
                   else (db', taken, Err e))
              | (db', Panic) \<Rightarrow> (db', taken, Panic)))"


section \<open>Before the select\<close>

text \<open>
  What the environment decides before the select: the finished tasks, the instant at which the
  backoff is looked at, the order of the pending completions with their store calls, and two
  readings of the clock for a new backoff deadline.
\<close>

record 'db prelude_input =
  pi_finished :: "(nat \<times> task_end) list"
  pi_instant :: instant
  pi_order :: "lease_attempt_key list"
  pi_calls :: "nat \<Rightarrow> 'db store_call"
  pi_deadline :: "instant \<times> instant"

definition backoff_for :: "worker_config \<Rightarrow> instant \<times> instant \<Rightarrow> instant option" where
  "backoff_for config t =
     Some (runtime_backoff_deadline (fst t) (snd t) (poll_interval_min config))"

definition clear_backoff :: "instant \<Rightarrow> worker_state \<Rightarrow> worker_state" where
  "clear_backoff t st =
     (if runtime_backoff_ready t (ws_backoff_until st) then st\<lparr>ws_backoff_until := None\<rparr> else st)"

definition resolve_unless_backing_off ::
    "'db worker \<Rightarrow> 'db prelude_input \<Rightarrow> worker_state \<Rightarrow> 'db \<Rightarrow> 'db \<times> worker_state \<times> unit result" where
  "resolve_unless_backing_off W inp st db =
     (if ws_backoff_until st \<noteq> None then (db, st, Ok ())
      else case resolve_pending_from W (pi_calls inp) 0 (pi_order inp) st db of
             (db', st', Ok backoff) \<Rightarrow>
               (db', if backoff
                     then st'\<lparr>ws_backoff_until := backoff_for (wk_config W) (pi_deadline inp)\<rparr>
                     else st', Ok ())
           | (db', st', Err e) \<Rightarrow> (db', st', Err e)
           | (db', st', Panic) \<Rightarrow> (db', st', Panic))"

definition before_select ::
    "'db worker \<Rightarrow> 'db prelude_input \<Rightarrow> worker_state \<Rightarrow> 'db \<Rightarrow> 'db \<times> worker_state \<times> unit result" where
  "before_select W inp st db =
     (case drain_joined_jobs (pi_finished inp) st of
        (st', Ok _) \<Rightarrow> resolve_unless_backing_off W inp (clear_backoff (pi_instant inp) st') db
      | (st', Err e) \<Rightarrow> (db, st', Err e)
      | (st', Panic) \<Rightarrow> (db, st', Panic))"

text \<open>What the loop computes for the arms.\<close>

definition free_capacity :: "worker_config \<Rightarrow> worker_state \<Rightarrow> nat" where
  "free_capacity config st = concurrency config - length (ws_active st)"

definition sleep_for :: "timestamp \<Rightarrow> worker_state \<Rightarrow> duration" where
  "sleep_for now st =
     (case ws_reserve_sleep st of
        Some (d, _) \<Rightarrow> d
      | None \<Rightarrow> sleep_duration now (ws_poll_delay st) (ws_next_schedule_at st))"


section \<open>The arms of the select\<close>

record 'db reserve_call =
  rc_links :: "'db links"
  rc_now :: timestamp
  rc_uuid :: "nat \<Rightarrow> string"

datatype 'db arm =
    Task_joined nat task_end
  | Heartbeat_ticked "lease_attempt_key list" "nat \<Rightarrow> 'db links" timestamp "instant \<times> instant"
  | Reap_ticked "'db store_call" "instant \<times> instant"
  | Backoff_slept
  | Reserve_returned "'db reserve_call" timestamp
  | Reserve_slept

text \<open>The precondition of each arm; a task that is joined is a task of the join set.\<close>

fun arm_enabled :: "worker_config \<Rightarrow> worker_state \<Rightarrow> 'db arm \<Rightarrow> bool" where
  "arm_enabled config st (Task_joined i result) = (i < length (ws_join_set st))"
| "arm_enabled config st (Heartbeat_ticked order links now t) = (ws_active st \<noteq> [])"
| "arm_enabled config st (Reap_ticked call t) = (ws_backoff_until st = None)"
| "arm_enabled config st Backoff_slept = (ws_backoff_until st \<noteq> None)"
| "arm_enabled config st (Reserve_returned call now) =
     (free_capacity config st > 0 \<and> ws_reserve_sleep st = None \<and> ws_backoff_until st = None)"
| "arm_enabled config st Reserve_slept = (free_capacity config st > 0 \<and> ws_reserve_sleep st \<noteq> None)"

text \<open>The call a worker makes to reserve jobs.\<close>

definition reserve_jobs :: "'db worker \<Rightarrow> 'db reserve_call \<Rightarrow> worker_state \<Rightarrow> ('db, reserve_batch) io" where
  "reserve_jobs W call st =
     (let capacity = free_capacity (wk_config W) st
      in qs_reserve (wk_store W) (rc_links call) (wk_namespace W) (wk_config W) capacity
           (rc_now call) (new_lease_tokens (rc_uuid call) capacity))"

definition reserve_arm ::
    "'db worker \<Rightarrow> 'db reserve_call \<Rightarrow> timestamp \<Rightarrow> worker_state \<Rightarrow> 'db \<Rightarrow>
     'db \<times> worker_state \<times> unit result" where
  "reserve_arm W call now st db =
     (case reserve_jobs W call st db of
        (db', Ok batch) \<Rightarrow>
          (let st1 = st\<lparr>ws_next_schedule_at := rb_next_schedule_at batch\<rparr>
           in if rb_jobs batch \<noteq> []
              then (db', fold spawn_job (rb_jobs batch)
                      (st1\<lparr>ws_poll_delay := poll_interval_min (wk_config W)\<rparr>), Ok ())
              else (db', st1\<lparr>ws_reserve_sleep :=
                      Some (sleep_duration now (ws_poll_delay st1) (ws_next_schedule_at st1), True)\<rparr>,
                    Ok ()))
      | (db', Err e) \<Rightarrow>
          (if is_recoverable_worker_runtime e
           then (db', st\<lparr>ws_reserve_sleep := Some (ws_poll_delay st, False),
                         ws_poll_delay := next_poll_delay (ws_poll_delay st)
                           (poll_interval_max (wk_config W))\<rparr>, Ok ())
           else (db', st, Err e))
      | (db', Panic) \<Rightarrow> (db', st, Panic))"

text \<open>An operation whose recoverable errors only start a backoff.\<close>

definition back_off ::
    "worker_config \<Rightarrow> instant \<times> instant \<Rightarrow> 'db \<times> worker_state \<times> unit result \<Rightarrow>
     'db \<times> worker_state \<times> unit result" where
  "back_off config t out =
     (case out of (db, st, r) \<Rightarrow>
        (case recoverable_runtime_result r of
           Ok backoff \<Rightarrow>
             (db, if backoff then st\<lparr>ws_backoff_until := backoff_for config t\<rparr> else st, Ok ())
         | Err e \<Rightarrow> (db, st, Err e)
         | Panic \<Rightarrow> (db, st, Panic)))"

fun take_arm ::
    "'db worker \<Rightarrow> 'db arm \<Rightarrow> worker_state \<Rightarrow> 'db \<Rightarrow> 'db \<times> worker_state \<times> unit result" where
  "take_arm W (Task_joined i result) st db = (case join_task i result st of (st', r) \<Rightarrow> (db, st', r))"
| "take_arm W (Heartbeat_ticked order links now t) st db =
     back_off (wk_config W) t
       (case heartbeat_active (wk_store W) links (wk_namespace W) (wk_config W) now order
               (ws_active st) db of
          (db', leases, r) \<Rightarrow> (db', st\<lparr>ws_active := leases\<rparr>, r))"
| "take_arm W (Reap_ticked call t) st db =
     back_off (wk_config W) t
       (case io_unit (qs_reap_expired (wk_store W) (sc_links call) (wk_namespace W) (sc_now call)
               (concurrency (wk_config W))) db of
          (db', r) \<Rightarrow> (db', st, r))"
| "take_arm W Backoff_slept st db = (db, st\<lparr>ws_backoff_until := None\<rparr>, Ok ())"
| "take_arm W (Reserve_returned call now) st db = reserve_arm W call now st db"
| "take_arm W Reserve_slept st db =
     (db, (case ws_reserve_sleep st of
             Some (_, advance) \<Rightarrow>
               (if advance
                then st\<lparr>ws_reserve_sleep := None,
                        ws_poll_delay := next_poll_delay (ws_poll_delay st)
                          (poll_interval_max (wk_config W))\<rparr>
                else st\<lparr>ws_reserve_sleep := None\<rparr>)
           | None \<Rightarrow> st\<lparr>ws_reserve_sleep := None\<rparr>), Ok ())"


section \<open>The loop\<close>

text \<open>
  When another arm wins, a reserve in flight is dropped: what it has done to the database stays,
  its answer is lost.
\<close>

definition drop_reserve ::
    "'db worker \<Rightarrow> 'db reserve_call option \<Rightarrow> worker_state \<Rightarrow> 'db \<Rightarrow> 'db" where
  "drop_reserve W dropped st db =
     (case dropped of None \<Rightarrow> db | Some call \<Rightarrow> fst (reserve_jobs W call st db))"

definition reserve_in_flight :: "worker_config \<Rightarrow> worker_state \<Rightarrow> 'db arm \<Rightarrow> bool" where
  "reserve_in_flight config st arm \<longleftrightarrow>
     free_capacity config st > 0 \<and> ws_reserve_sleep st = None \<and> ws_backoff_until st = None \<and>
     (\<forall>call now. arm \<noteq> Reserve_returned call now)"

text \<open>One iteration: the input before the select, the dropped reserve and the arm.\<close>

type_synonym 'db turn_input = "'db prelude_input \<times> 'db reserve_call option \<times> 'db arm"

definition iteration ::
    "'db worker \<Rightarrow> 'db turn_input \<Rightarrow> worker_state \<Rightarrow> 'db \<Rightarrow> 'db \<times> worker_state \<times> unit result" where
  "iteration W inp st db =
     (case inp of (pre, dropped, arm) \<Rightarrow>
        (case before_select W pre st db of
           (db', st', Ok _) \<Rightarrow> take_arm W arm st' (drop_reserve W dropped st' db')
         | (db', st', Err e) \<Rightarrow> (db', st', Err e)
         | (db', st', Panic) \<Rightarrow> (db', st', Panic)))"

text \<open>The loop over given inputs; it ends early with the error that stops the worker.\<close>

fun run_loop ::
    "'db worker \<Rightarrow> 'db turn_input list \<Rightarrow> worker_state \<Rightarrow> 'db \<Rightarrow> 'db \<times> worker_state \<times> unit result" where
  "run_loop W [] st db = (db, st, Ok ())"
| "run_loop W (inp # inps) st db =
     (case iteration W inp st db of
        (db', st', Ok _) \<Rightarrow> run_loop W inps st' db'
      | (db', st', Err e) \<Rightarrow> (db', st', Err e)
      | (db', st', Panic) \<Rightarrow> (db', st', Panic))"

definition run_internal ::
    "'db worker \<Rightarrow> 'db turn_input list \<Rightarrow> 'db \<Rightarrow> 'db \<times> worker_state \<times> unit result" where
  "run_internal W inps db =
     (case worker_config_validate (wk_config W) of
        Ok _ \<Rightarrow> run_loop W inps (initial_state (wk_config W)) db
      | Err e \<Rightarrow> (db, initial_state (wk_config W), Err e)
      | Panic \<Rightarrow> (db, initial_state (wk_config W), Panic))"

end
