(* ===== verification/Worker_Facts.thy ===== *)
theory Worker_Facts
  imports Worker_Run Contract "HOL-Library.Multiset"
begin

text \<open>
  The invariant of the worker loop: every lease it holds is either still running or waiting for its
  completion to be stored, exactly once; it holds no more leases than its concurrency; and its
  delays stay in the configured range. The proofs rest on the contract of the store
  (\<^verbatim>\<open>worker_store\<close>) and are carried over to the Redis store by its interpretation.
\<close>

section \<open>Association lists\<close>

lemma keys_update:
  "map fst (AList.update k v xs) = (if k \<in> fst ` set xs then map fst xs else map fst xs @ [k])"
  by (induction xs) auto

lemma update_new: "k \<notin> fst ` set xs \<Longrightarrow> AList.update k v xs = xs @ [(k, v)]"
  by (induction xs) auto

lemma keys_delete: "map fst (AList.delete k xs) = removeAll k (map fst xs)"
  by (induction xs) (auto simp: AList.delete_eq)

lemma length_update: "length (AList.update k v xs) = length xs + (if k \<in> fst ` set xs then 0 else 1)"
  by (induction xs) auto

lemma mset_delete:
  assumes "distinct (map fst xs)"
  shows "mset (map fst (AList.delete k xs)) = mset (map fst xs) - {#k#}"
  by (simp add: keys_delete distinct_remove1_removeAll [OF assms, symmetric] mset_remove1
      del: mset_map)

lemma mset_take_drop:
  "i < length xs \<Longrightarrow> mset (take i xs @ drop (Suc i) xs) = mset xs - {#xs ! i#}"
proof -
  assume "i < length xs"
  from id_take_nth_drop [OF this] have "mset xs = mset (take i xs @ xs ! i # drop (Suc i) xs)" by simp
  then show ?thesis by simp
qed

lemma set_update_subset: "set (AList.update k v xs) \<subseteq> insert (k, v) (set xs)"
  by (induction xs) auto

lemma set_delete_subset: "set (AList.delete k xs) \<subseteq> set xs"
  by (auto simp: AList.delete_eq)


section \<open>The invariant\<close>

definition active_keys :: "worker_state \<Rightarrow> lease_attempt_key list" where
  "active_keys st = map fst (ws_active st)"

definition accounts :: "worker_state \<Rightarrow> bool" where
  "accounts st \<longleftrightarrow>
     distinct (active_keys st) \<and>
     mset (active_keys st) = mset (map lease_key (ws_join_set st)) + mset (map fst (ws_pending st)) \<and>
     (\<forall>(k, l) \<in> set (ws_active st). active_attempt_key l = k) \<and>
     (\<forall>(k, c) \<in> set (ws_pending st). completed_attempt_key c = k)"

definition delays_ok :: "worker_config \<Rightarrow> worker_state \<Rightarrow> bool" where
  "delays_ok config st \<longleftrightarrow>
     poll_interval_min config \<le> ws_poll_delay st \<and> ws_poll_delay st \<le> poll_interval_max config \<and>
     (\<forall>d advance. ws_reserve_sleep st = Some (d, advance) \<longrightarrow> d \<le> poll_interval_max config)"

definition worker_ok :: "worker_config \<Rightarrow> worker_state \<Rightarrow> bool" where
  "worker_ok config st \<longleftrightarrow>
     accounts st \<and> length (ws_active st) \<le> concurrency config \<and> delays_ok config st"

lemma accountsD:
  assumes "accounts st"
  shows "distinct (map fst (ws_active st))"
    and "distinct (map fst (ws_pending st))"
    and "set (active_keys st) = lease_key ` set (ws_join_set st) \<union> fst ` set (ws_pending st)"
    and "lease_key ` set (ws_join_set st) \<inter> fst ` set (ws_pending st) = {}"
    and "distinct (map lease_key (ws_join_set st))"
    and "length (ws_active st) = length (ws_join_set st) + length (ws_pending st)"
proof -
  let ?js = "map lease_key (ws_join_set st)" and ?ps = "map fst (ws_pending st)"
  have eq: "mset (active_keys st) = mset (?js @ ?ps)" and d: "distinct (active_keys st)"
    using assms by (simp_all add: accounts_def)
  have "distinct (?js @ ?ps)" using d eq by (metis mset_eq_imp_distinct_iff)
  then show "distinct (map fst (ws_pending st))" "distinct (map lease_key (ws_join_set st))"
    "lease_key ` set (ws_join_set st) \<inter> fst ` set (ws_pending st) = {}" by auto
  show "distinct (map fst (ws_active st))" using d by (simp add: active_keys_def)
  show "set (active_keys st) = lease_key ` set (ws_join_set st) \<union> fst ` set (ws_pending st)"
    using mset_eq_setD [OF eq] by simp
  show "length (ws_active st) = length (ws_join_set st) + length (ws_pending st)"
    using mset_eq_length [OF eq] by (simp add: active_keys_def)
qed

lemma initial_ok:
  "worker_config_validate config = Ok () \<Longrightarrow> worker_ok config (initial_state config)"
  by (auto simp: worker_ok_def accounts_def delays_ok_def active_keys_def initial_state_def
      worker_config_validate_def split: if_splits)


section \<open>Tasks\<close>

text \<open>What the invariant says does not look at the other variables.\<close>

lemma accounts_cong:
  assumes "ws_join_set st' = ws_join_set st" "ws_active st' = ws_active st" "ws_pending st' = ws_pending st"
  shows "accounts st' = accounts st"
  using assms by (simp add: accounts_def active_keys_def)

lemma delays_cong:
  assumes "ws_poll_delay st' = ws_poll_delay st" "ws_reserve_sleep st' = ws_reserve_sleep st"
  shows "delays_ok config st' = delays_ok config st"
  using assms by (simp add: delays_ok_def)

lemma key_of_new [simp]:
  "active_attempt_key (active_lease_new (rj_job_id job) (rj_lease_token job)) = lease_key job"
  by (simp add: active_attempt_key_def active_lease_new_def lease_key_def)

lemma spawn_accounts:
  assumes "accounts st" "lease_key job \<notin> set (active_keys st)"
  shows "accounts (spawn_job job st)" "active_keys (spawn_job job st) = active_keys st @ [lease_key job]"
proof -
  show keys: "active_keys (spawn_job job st) = active_keys st @ [lease_key job]"
    using assms(2) by (simp add: active_keys_def spawn_job_def Let_def keys_update)
  have "\<forall>(k, l) \<in> set (ws_active (spawn_job job st)). active_attempt_key l = k"
    using assms(1) set_update_subset [of "lease_key job" _ "ws_active st"]
    by (fastforce simp: accounts_def spawn_job_def Let_def)
  with assms show "accounts (spawn_job job st)"
    unfolding accounts_def keys by (simp add: spawn_job_def Let_def)
qed

lemma spawn_delays [simp]: "delays_ok config (spawn_job job st) = delays_ok config st"
  by (rule delays_cong) (simp_all add: spawn_job_def Let_def)

lemma spawn_all_accounts:
  assumes "accounts st" "distinct (map lease_key jobs)"
    "lease_key ` set jobs \<inter> set (active_keys st) = {}"
  shows "accounts (fold spawn_job jobs st) \<and>
    active_keys (fold spawn_job jobs st) = active_keys st @ map lease_key jobs"
  using assms
proof (induction jobs arbitrary: st)
  case (Cons job jobs)
  have new: "lease_key job \<notin> set (active_keys st)" using Cons.prems(3) by auto
  note spawned = spawn_accounts [OF Cons.prems(1) new]
  have "accounts (fold spawn_job jobs (spawn_job job st)) \<and>
    active_keys (fold spawn_job jobs (spawn_job job st)) =
    active_keys (spawn_job job st) @ map lease_key jobs"
    by (rule Cons.IH) (use Cons.prems spawned in auto)
  then show ?case by (simp add: spawned(2))
qed simp

lemma spawn_all_delays [simp]: "delays_ok config (fold spawn_job jobs st) = delays_ok config st"
  by (induction jobs arbitrary: st) simp_all

lemma join_Ok:
  assumes "join_task i result st = (st', Ok u)"
  obtains h where "result = Returned h"
    and "st' = st\<lparr>ws_join_set := take i (ws_join_set st) @ drop (Suc i) (ws_join_set st),
      ws_pending := AList.update (lease_key (ws_join_set st ! i))
        \<lparr>cl_job_id = rj_job_id (ws_join_set st ! i), cl_lease_token = rj_lease_token (ws_join_set st ! i),
         cl_result = h\<rparr> (ws_pending st)\<rparr>"
  using assms
  by (cases result)
     (auto simp: join_task_def record_join_result_def completed_attempt_key_def lease_key_def)

lemma join_accounts:
  assumes st: "accounts st" and i: "i < length (ws_join_set st)"
    and run: "join_task i result st = (st', Ok u)"
  shows "accounts st' \<and> ws_active st' = ws_active st"
proof -
  let ?job = "ws_join_set st ! i"
  obtain h where st': "st' = st\<lparr>ws_join_set := take i (ws_join_set st) @ drop (Suc i) (ws_join_set st),
      ws_pending := AList.update (lease_key ?job)
        \<lparr>cl_job_id = rj_job_id ?job, cl_lease_token = rj_lease_token ?job, cl_result = h\<rparr> (ws_pending st)\<rparr>"
    by (rule join_Ok [OF run])
  have job: "?job \<in> set (ws_join_set st)" using i by simp
  then have new: "lease_key ?job \<notin> fst ` set (ws_pending st)"
    using accountsD(4) [OF st] by blast
  have js: "mset (map lease_key (ws_join_set st')) =
      mset (map lease_key (ws_join_set st)) - {#lease_key ?job#}"
    using mset_take_drop [of i "map lease_key (ws_join_set st)"] i by (simp add: st' take_map drop_map)
  have ps: "mset (map fst (ws_pending st')) = mset (map fst (ws_pending st)) + {#lease_key ?job#}"
    using new by (simp add: st' keys_update del: mset_map)
  have "lease_key ?job \<in># mset (map lease_key (ws_join_set st))" using job by simp
  then have total: "mset (map lease_key (ws_join_set st')) + mset (map fst (ws_pending st')) =
      mset (map lease_key (ws_join_set st)) + mset (map fst (ws_pending st))"
    unfolding js ps by (simp del: mset_map)
  have "\<forall>(k, c) \<in> set (ws_pending st'). completed_attempt_key c = k"
    using st set_update_subset [of "lease_key ?job" _ "ws_pending st"]
    by (fastforce simp: accounts_def st' completed_attempt_key_def lease_key_def)
  moreover have "ws_active st' = ws_active st" by (simp add: st')
  ultimately show ?thesis
    using st unfolding accounts_def active_keys_def total by simp
qed

lemma join_delays: "join_task i result st = (st', r) \<Longrightarrow> delays_ok config st' = delays_ok config st"
  by (rule delays_cong)
     (auto simp: join_task_def record_join_result_def split: sum.splits)

lemma join_outcome: "join_task i result st = (st', r) \<Longrightarrow> r = Ok () \<or> (\<exists>s. r = Err (WorkerTaskJoin s))"
  by (auto simp: join_task_def record_join_result_def split: sum.splits)


section \<open>Calls into the store\<close>

lemma io_unit_apply:
  "snd (io_unit op db) = map_ok (\<lambda>_. ()) (snd (op db))" "fst (io_unit op db) = fst (op db)"
  by (cases "op db"; cases "snd (op db)"; simp add: io_unit_def io_bind_def)+

lemma map_outcome: "lease_outcome job r \<Longrightarrow> lease_outcome job (map_ok f r)"
  by (cases r) (simp_all add: lease_outcome_def)

text \<open>An error that stops the worker: neither recoverable nor the loss of one lease.\<close>

definition fatal :: "error \<Rightarrow> bool" where
  "fatal e \<longleftrightarrow> \<not> is_recoverable_worker_runtime e \<and> (\<forall>j. e \<noteq> LeaseMismatch j)"

definition stops_only_fatally :: "'a result \<Rightarrow> bool" where
  "stops_only_fatally r \<longleftrightarrow> r \<noteq> Panic \<and> (\<forall>e. r = Err e \<longrightarrow> fatal e)"

lemma stops_only_fatally_simps [simp]:
  "stops_only_fatally (Ok a)" "stops_only_fatally (Err e) \<longleftrightarrow> fatal e" "\<not> stops_only_fatally Panic"
  by (simp_all add: stops_only_fatally_def)

text \<open>Answers of the store after which a completed lease is forgotten.\<close>

definition settles :: "'a result \<Rightarrow> bool" where
  "settles r \<longleftrightarrow> (\<exists>a. r = Ok a) \<or> (\<exists>j. r = Err (LeaseMismatch j))"

lemma settle_accounts:
  assumes st: "accounts st" and c: "map_of (ws_pending st) key = Some c"
  shows "accounts (st\<lparr>ws_pending := AList.delete key (ws_pending st),
      ws_active := AList.delete key (ws_active st)\<rparr>)"
proof -
  have "key \<in># mset (map fst (ws_pending st))"
    using map_of_SomeD [OF c] by (force simp del: mset_map)
  moreover have "\<forall>(k, l) \<in> set (AList.delete key (ws_active st)). active_attempt_key l = k"
    "\<forall>(k, c) \<in> set (AList.delete key (ws_pending st)). completed_attempt_key c = k"
    using st set_delete_subset [of key "ws_active st"] set_delete_subset [of key "ws_pending st"]
    by (auto simp: accounts_def)
  moreover have "distinct (map fst (AList.delete key (ws_active st)))"
    by (simp add: keys_delete distinct_removeAll accountsD(1) [OF st])
  ultimately show ?thesis
    using st mset_delete [OF accountsD(1) [OF st], of key] mset_delete [OF accountsD(2) [OF st], of key]
    by (simp add: accounts_def active_keys_def del: mset_map)
qed

lemma restore_pending:
  assumes st: "accounts st" and c: "map_of (ws_pending st) key = Some c"
  shows "accounts (st\<lparr>ws_pending := AList.update key c (AList.delete key (ws_pending st))\<rparr>)"
proof -
  have mem: "(key, c) \<in> set (ws_pending st)" using map_of_SomeD [OF c] .
  have in_mset: "key \<in># mset (map fst (ws_pending st))" using mem by (force simp del: mset_map)
  have "mset (map fst (AList.update key c (AList.delete key (ws_pending st)))) =
      mset (map fst (ws_pending st))"
  proof -
    have "key \<notin> set (map fst (AList.delete key (ws_pending st)))" by (simp add: keys_delete)
    then have "map fst (AList.update key c (AList.delete key (ws_pending st))) =
        map fst (AList.delete key (ws_pending st)) @ [key]"
      unfolding keys_update set_map [symmetric] by (rule if_not_P)
    then show ?thesis
      using in_mset mset_delete [OF accountsD(2) [OF st], of key] by (simp del: mset_map)
  qed
  moreover have "\<forall>(k, c) \<in> set (AList.update key c (AList.delete key (ws_pending st))).
      completed_attempt_key c = k"
    using st mem set_delete_subset [of key "ws_pending st"]
      set_update_subset [of key c "AList.delete key (ws_pending st)"]
    by (fastforce simp: accounts_def)
  ultimately show ?thesis
    using st by (simp add: accounts_def active_keys_def del: mset_map)
qed

text \<open>
  What resolving the pending completions leaves behind: the invariant, the running tasks, and every
  key whose lease is gone was settled by an answer of the store.
\<close>

definition settled ::
    "'db worker \<Rightarrow> (nat \<Rightarrow> 'db store_call) \<Rightarrow> completed_lease \<Rightarrow> bool" where
  "settled W calls c \<longleftrightarrow>
     (\<exists>i db. settles (snd (resolve_completed (wk_store W) (calls i) (wk_namespace W) (wk_config W) c db)))"

definition resolved ::
    "'db worker \<Rightarrow> (nat \<Rightarrow> 'db store_call) \<Rightarrow> worker_state \<Rightarrow> worker_state \<Rightarrow> bool" where
  "resolved W calls st st' \<longleftrightarrow>
     accounts st' \<and> ws_join_set st' = ws_join_set st \<and>
     ws_poll_delay st' = ws_poll_delay st \<and> ws_reserve_sleep st' = ws_reserve_sleep st \<and>
     ws_backoff_until st' = ws_backoff_until st \<and>
     set (ws_active st') \<subseteq> set (ws_active st) \<and> set (ws_pending st') \<subseteq> set (ws_pending st) \<and>
     length (ws_active st') \<le> length (ws_active st) \<and>
     (\<forall>(key, c) \<in> set (ws_pending st) - set (ws_pending st'). settled W calls c)"

lemma resolved_refl: "accounts st \<Longrightarrow> resolved W calls st st"
  by (simp add: resolved_def)

lemma resolved_trans: "resolved W calls st st' \<Longrightarrow> resolved W calls st' st'' \<Longrightarrow> resolved W calls st st''"
  unfolding resolved_def by (elim conjE, intro conjI) (simp, simp, simp, simp, simp, blast, blast, simp, blast)

lemma resolved_drop:
  assumes st: "accounts st" and c: "map_of (ws_pending st) key = Some c" and "settled W calls c"
  shows "resolved W calls st (st\<lparr>ws_pending := AList.delete key (ws_pending st),
      ws_active := AList.delete key (ws_active st)\<rparr>)"
proof -
  have "(k, c') \<in> set (ws_pending st) \<Longrightarrow> (k, c') \<notin> set (AList.delete key (ws_pending st)) \<Longrightarrow> c' = c"
    for k c'
  proof -
    assume k: "(k, c') \<in> set (ws_pending st)" "(k, c') \<notin> set (AList.delete key (ws_pending st))"
    then have "k = key" by (auto simp: AList.delete_eq)
    with k(1) c accountsD(2) [OF st] show "c' = c" by simp
  qed
  then show ?thesis
    using assms(3) settle_accounts [OF st c] set_delete_subset [of key "ws_active st"]
      set_delete_subset [of key "ws_pending st"]
    by (auto simp: resolved_def AList.delete_eq)
qed

lemma resolved_restore:
  assumes st: "accounts st" and c: "map_of (ws_pending st) key = Some c"
  shows "resolved W calls st (st\<lparr>ws_pending := AList.update key c (AList.delete key (ws_pending st))\<rparr>)"
proof -
  have "set (ws_pending st) \<subseteq> set (AList.update key c (AList.delete key (ws_pending st)))"
  proof
    fix x
    assume x: "x \<in> set (ws_pending st)"
    have upd: "AList.update key c (AList.delete key (ws_pending st)) = AList.delete key (ws_pending st) @ [(key, c)]"
      by (rule update_new) (simp add: keys_delete flip: set_map)
    show "x \<in> set (AList.update key c (AList.delete key (ws_pending st)))"
    proof (cases "fst x = key")
      case True
      have "map_of (ws_pending st) (fst x) = Some (snd x)"
        using x accountsD(2) [OF st] by (simp add: map_of_is_SomeI)
      with True c have "x = (key, c)" by (simp add: prod_eq_iff)
      then show ?thesis unfolding upd by simp
    next
      case False
      with x show ?thesis unfolding upd by (simp add: AList.delete_eq case_prod_unfold)
    qed
  qed
  then show ?thesis
    using restore_pending [OF st c] set_update_subset [of key c "AList.delete key (ws_pending st)"]
      set_delete_subset [of key "ws_pending st"] map_of_SomeD [OF c]
    by (auto simp: resolved_def)
qed

context worker_store
begin

lemma resolve_completed_outcome:
  "lease_outcome (cl_job_id c) (snd (resolve_completed Q call ns config c db))"
  using fail_outcome [of "worker_failure config c _ _"]
  by (auto simp: resolve_completed_def ack_outcome complete_outcome io_unit_apply
      worker_failure_def intro!: map_outcome split: sum.splits job_outcome.splits)

lemma resolve_pending_ok:
  assumes Q: "wk_store W = Q" and st: "accounts st"
    and run: "resolve_pending_from W calls i keys st db = (db', st', r)"
  shows "stops_only_fatally r \<and> (\<forall>b. r = Ok b \<longrightarrow> resolved W calls st st')"
  using st run
proof (induction keys arbitrary: i st db)
  case Nil
  then show ?case by (auto simp: resolved_refl)
next
  case (Cons key keys)
  show ?case
  proof (cases "map_of (ws_pending st) key")
    case None
    with Cons show ?thesis by simp
  next
    case (Some c)
    have key: "completed_attempt_key c = key"
      using Cons.prems(1) map_of_SomeD [OF Some] by (auto simp: accounts_def)
    obtain db1 r1 where call:
      "resolve_completed (wk_store W) (calls i) (wk_namespace W) (wk_config W) c db = (db1, r1)"
      by (metis surj_pair)
    have lease: "r1 \<noteq> Panic"
      using resolve_completed_outcome [of c "calls i" "wk_namespace W" "wk_config W" db]
      by (simp add: lease_outcome_def call [unfolded Q])
    let ?dropped = "st\<lparr>ws_pending := AList.delete key (ws_pending st),
      ws_active := AList.delete key (ws_active st)\<rparr>"
    show ?thesis
    proof (cases "settles r1")
      case True
      then have "settled W calls c" unfolding settled_def using call by (metis snd_conv)
      note drop = resolved_drop [OF Cons.prems(1) Some this]
      have "resolve_pending_from W calls (Suc i) keys ?dropped db1 = (db', st', r)"
        using Cons.prems(2) True Some key call
        by (auto simp: settles_def Let_def)
      from Cons.IH [OF _ this] drop show ?thesis
        using resolved_trans [OF drop] by (simp add: resolved_def [of W calls st ?dropped])
    next
      case False
      then obtain e where e: "r1 = Err e" "\<forall>j. e \<noteq> LeaseMismatch j"
        using lease by (cases r1) (auto simp: settles_def)
      show ?thesis
      proof (cases "is_recoverable_worker_runtime e")
        case True
        have "st' = st\<lparr>ws_pending := AList.update key c (AList.delete key (ws_pending st))\<rparr>" "r = Ok True"
          using Cons.prems(2) Some key call e True by (cases e; auto simp: Let_def)+
        then show ?thesis using resolved_restore [OF Cons.prems(1) Some, of W calls] by simp
      next
        case False
        have "r = Err e"
          using Cons.prems(2) Some key call e False by (cases e) (auto simp: Let_def)
        then show ?thesis using e False by (simp add: fatal_def)
      qed
    qed
  qed
qed

end

end
