(* ===== verification/Worker_Loop.thy ===== *)
theory Worker_Loop
  imports Worker_Facts
begin

text \<open>
  The worker as a state machine: the inputs an iteration can have, the states a worker can reach
  while other clients change the database, the proof that every iteration keeps the invariant of the
  worker or stops with a fatal error, and that a lease goes only when its own completion is settled.
\<close>

section \<open>Heartbeats\<close>

definition heartbeat_lost ::
    "'db queue_store \<Rightarrow> (nat \<Rightarrow> 'db links) \<Rightarrow> string \<Rightarrow> worker_config \<Rightarrow> timestamp \<Rightarrow> active_lease \<Rightarrow> bool" where
  "heartbeat_lost Q links ns config now l \<longleftrightarrow>
     (\<exists>i db j. snd (qs_heartbeat Q (links i) ns (worker_id config) (al_job_id l) (al_lease_token l)
        now (lease_duration config) db) = Err (LeaseMismatch j))"

text \<open>Only the heartbeats of leases with a property have been switched off.\<close>

definition switched_off :: "(active_lease \<Rightarrow> bool) \<Rightarrow> active_leases \<Rightarrow> active_leases \<Rightarrow> bool" where
  "switched_off P leases leases' \<longleftrightarrow>
     list_all2 (\<lambda>x y. fst y = fst x \<and> (snd y = snd x \<or> snd y = disable_heartbeat (snd x) \<and> P (snd x)))
       leases leases'"

lemma switched_off_refl [simp]: "switched_off P leases leases"
  by (simp add: switched_off_def list_all2_same)

lemma switched_off_trans:
  assumes "switched_off P a b" "switched_off P b c" and "\<And>l. P (disable_heartbeat l) = P l"
  shows "switched_off P a c"
proof -
  have twice: "disable_heartbeat (disable_heartbeat l) = disable_heartbeat l" for l
    by (simp add: disable_heartbeat_def)
  show ?thesis
    using assms(1,2) unfolding switched_off_def
    by (rule list_all2_trans [rotated]) (auto simp: assms(3) twice)
qed

lemma switched_off_update:
  assumes "map_of leases k = Some l" "P l"
  shows "switched_off P leases (AList.update k (disable_heartbeat l) leases)"
  using assms unfolding switched_off_def
proof (induction leases)
  case (Cons x xs)
  then show ?case by (cases x) (auto simp: list_all2_same)
qed simp

lemma switched_off_keys:
  assumes "switched_off P leases leases'"
  shows "map fst leases' = map fst leases" "length leases' = length leases"
    and "\<forall>(k, l) \<in> set leases. active_attempt_key l = k \<Longrightarrow>
      \<forall>(k, l) \<in> set leases'. active_attempt_key l = k"
  using assms unfolding switched_off_def
  by (induction rule: list_all2_induct)
     (auto simp: disable_heartbeat_def active_attempt_key_def)

text \<open>A result that is no panic and not the loss of a lease: what the loop gets from a heartbeat round.\<close>

context worker_store
begin

lemma heartbeat_from_ok:
  assumes run: "heartbeat_from Q links ns config now i ls leases db = (db', leases', r)"
    and keys: "\<forall>(k, l) \<in> set leases. active_attempt_key l = k"
  shows "no_lease_outcome r \<and> switched_off (heartbeat_lost Q links ns config now) leases leases'"
  using run keys
proof (induction ls arbitrary: i leases db)
  case Nil
  then show ?case by (auto simp: no_lease_outcome_def)
next
  case (Cons l ls)
  let ?lost = "heartbeat_lost Q links ns config now"
  obtain db1 r1 where call: "qs_heartbeat Q (links i) ns (worker_id config) (al_job_id l)
      (al_lease_token l) now (lease_duration config) db = (db1, r1)"
    by (metis surj_pair)
  have "r1 \<noteq> Panic"
    using heartbeat_outcome [of "al_job_id l" "links i" ns "worker_id config" "al_lease_token l" now
        "lease_duration config" db]
    by (simp add: lease_outcome_def call)
  then consider (ok) u where "r1 = Ok u" | (lost) j where "r1 = Err (LeaseMismatch j)"
    | (other) e where "r1 = Err e" "\<forall>j. e \<noteq> LeaseMismatch j"
    by (cases r1) auto
  then show ?case
  proof cases
    case ok
    with Cons call show ?thesis by simp
  next
    case lost
    let ?after = "case map_of leases (active_attempt_key l) of
        Some held \<Rightarrow> AList.update (active_attempt_key l) (disable_heartbeat held) leases
      | None \<Rightarrow> leases"
    have off: "switched_off ?lost leases ?after"
    proof (cases "map_of leases (active_attempt_key l)")
      case (Some held)
      have "active_attempt_key held = active_attempt_key l"
        using Cons.prems(2) map_of_SomeD [OF Some] by auto
      then have "al_job_id held = al_job_id l" "al_lease_token held = al_lease_token l"
        by (simp_all add: active_attempt_key_def lease_attempt_key_new_def)
      then have "?lost held"
        unfolding heartbeat_lost_def using call lost by (intro exI [of _ i] exI [of _ db] exI [of _ j]) simp
      with Some show ?thesis by (simp add: switched_off_update)
    qed simp
    have "heartbeat_from Q links ns config now (Suc i) ls ?after db1 = (db', leases', r)"
      using Cons.prems(1) call lost by simp
    from Cons.IH [OF this switched_off_keys(3) [OF off Cons.prems(2)]]
    have next_round: "no_lease_outcome r" "switched_off ?lost ?after leases'" by simp_all
    have "?lost (disable_heartbeat l) = ?lost l" for l
      by (simp add: heartbeat_lost_def disable_heartbeat_def)
    from switched_off_trans [OF off next_round(2) this] next_round(1) show ?thesis by simp
  next
    case other
    have "r = Err e \<and> leases' = leases" using Cons.prems(1) call other by (cases e) auto
    with other show ?thesis by (auto simp: no_lease_outcome_def)
  qed
qed

lemma heartbeat_active_ok:
  assumes "heartbeat_active Q links ns config now order leases db = (db', leases', r)"
    and "\<forall>(k, l) \<in> set leases. active_attempt_key l = k"
  shows "no_lease_outcome r" "switched_off (heartbeat_lost Q links ns config now) leases leases'"
  using heartbeat_from_ok [OF assms(1) [unfolded heartbeat_active_def] assms(2)] by simp_all

end


section \<open>Before the select\<close>

fun can_finish :: "(nat \<times> task_end) list \<Rightarrow> nat \<Rightarrow> bool" where
  "can_finish [] n = True"
| "can_finish ((i, result) # rest) n = (i < n \<and> can_finish rest (n - 1))"

definition joined :: "worker_state \<Rightarrow> worker_state \<Rightarrow> bool" where
  "joined st st' \<longleftrightarrow>
     accounts st' \<and> ws_active st' = ws_active st \<and> ws_poll_delay st' = ws_poll_delay st \<and>
     ws_reserve_sleep st' = ws_reserve_sleep st \<and> ws_backoff_until st' = ws_backoff_until st"

lemma join_joined:
  assumes "accounts st" "i < length (ws_join_set st)" "join_task i result st = (st', Ok u)"
  shows "joined st st'" "length (ws_join_set st') = length (ws_join_set st) - 1"
proof -
  obtain h where "st' = st\<lparr>ws_join_set := take i (ws_join_set st) @ drop (Suc i) (ws_join_set st),
      ws_pending := AList.update (lease_key (ws_join_set st ! i))
        \<lparr>cl_job_id = rj_job_id (ws_join_set st ! i), cl_lease_token = rj_lease_token (ws_join_set st ! i),
         cl_result = h\<rparr> (ws_pending st)\<rparr>"
    by (rule join_Ok [OF assms(3)])
  with join_accounts [OF assms] assms(2)
  show "joined st st'" "length (ws_join_set st') = length (ws_join_set st) - 1"
    by (simp_all add: joined_def)
qed

lemma drain_ok:
  assumes "accounts st" "can_finish fin (length (ws_join_set st))"
    and "drain_joined_jobs fin st = (st', r)"
  shows "(r = Ok () \<and> joined st st') \<or> (\<exists>s. r = Err (WorkerTaskJoin s))"
  using assms
proof (induction fin arbitrary: st)
  case Nil
  then show ?case by (simp add: joined_def)
next
  case (Cons f fin)
  obtain i result where f: "f = (i, result)" by (metis surj_pair)
  obtain st1 r1 where join: "join_task i result st = (st1, r1)" by (metis surj_pair)
  from join_outcome [OF join] show ?case
  proof
    assume r1: "r1 = Ok ()"
    have "i < length (ws_join_set st)" using Cons.prems(2) by (simp add: f)
    note step = join_joined [OF Cons.prems(1) this join [unfolded r1]]
    have "(r = Ok () \<and> joined st1 st') \<or> (\<exists>s. r = Err (WorkerTaskJoin s))"
      by (rule Cons.IH) (use Cons.prems step join r1 in \<open>simp_all add: f joined_def\<close>)
    with step(1) show ?thesis by (auto simp: joined_def)
  next
    assume "\<exists>s. r1 = Err (WorkerTaskJoin s)"
    with Cons.prems(3) join show ?thesis by (auto simp: f)
  qed
qed

lemma joined_ok: "joined st st' \<Longrightarrow> worker_ok config st \<Longrightarrow> worker_ok config st'"
  by (simp add: joined_def worker_ok_def delays_ok_def)

lemma resolved_ok: "resolved W calls st st' \<Longrightarrow> worker_ok config st \<Longrightarrow> worker_ok config st'"
  by (simp add: resolved_def worker_ok_def delays_ok_def)

lemma backoff_ok [simp]: "worker_ok config (st\<lparr>ws_backoff_until := b\<rparr>) = worker_ok config st"
  by (simp add: worker_ok_def accounts_def active_keys_def delays_ok_def)

lemma clear_backoff_ok [simp]: "worker_ok config (clear_backoff t st) = worker_ok config st"
  by (simp add: clear_backoff_def)

lemma worker_ok_accounts: "worker_ok config st \<Longrightarrow> accounts st"
  by (simp add: worker_ok_def)

lemma worker_task_fatal [simp]: "fatal (WorkerTaskJoin s)"
  by (simp add: fatal_def)

context worker_store
begin

lemma before_select_ok:
  assumes Q: "wk_store W = Q" and st: "worker_ok config st"
    and fin: "can_finish (pi_finished inp) (length (ws_join_set st))"
    and run: "before_select W inp st db = (db', st', r)"
  shows "stops_only_fatally r \<and> (r = Ok () \<longrightarrow> worker_ok config st')"
proof -
  obtain st1 r1 where drain: "drain_joined_jobs (pi_finished inp) st = (st1, r1)" by (metis surj_pair)
  from drain_ok [OF worker_ok_accounts [OF st] fin drain] show ?thesis
  proof
    assume r1: "r1 = Ok () \<and> joined st st1"
    let ?st2 = "clear_backoff (pi_instant inp) st1"
    have st2: "worker_ok config ?st2" using joined_ok [OF _ st] r1 by simp
    have run2: "resolve_unless_backing_off W inp ?st2 db = (db', st', r)"
      using run drain r1 by (simp add: before_select_def)
    show ?thesis
    proof (cases "ws_backoff_until ?st2 = None")
      case True
      obtain db3 st3 r3 where resolve:
        "resolve_pending_from W (pi_calls inp) 0 (pi_order inp) ?st2 db = (db3, st3, r3)"
        by (metis surj_pair)
      note ok = resolve_pending_ok [OF Q worker_ok_accounts [OF st2] resolve]
      show ?thesis
        using run2 ok True resolve resolved_ok [OF _ st2]
        by (cases r3) (auto simp: resolve_unless_backing_off_def)
    next
      case False
      with run2 st2 show ?thesis by (auto simp: resolve_unless_backing_off_def)
    qed
  next
    assume "\<exists>s. r1 = Err (WorkerTaskJoin s)"
    with run drain show ?thesis by (auto simp: before_select_def)
  qed
qed

end


section \<open>The arms\<close>

lemma next_poll_delay_bounds:
  assumes "lo \<le> d" "d \<le> hi" "lo \<le> hi" "hi \<le> duration_max"
  shows "lo \<le> next_poll_delay d hi" "next_poll_delay d hi \<le> hi"
  using assms by (simp_all add: next_poll_delay_def)

lemma sleep_duration_le: "sleep_duration now d at \<le> d"
  by (simp add: sleep_duration_def split: option.splits)

text \<open>
  Freshness of the identifiers a call generates: they differ from each other and from the tokens
  of the leases the worker holds.
\<close>

definition fresh_tokens :: "worker_config \<Rightarrow> 'db reserve_call \<Rightarrow> worker_state \<Rightarrow> bool" where
  "fresh_tokens config call st \<longleftrightarrow>
     (let tokens = new_lease_tokens (rc_uuid call) (free_capacity config st)
      in distinct tokens \<and> set tokens \<inter> lk_lease_token ` set (active_keys st) = {})"

definition config_ok :: "worker_config \<Rightarrow> bool" where
  "config_ok config \<longleftrightarrow>
     worker_config_validate config = Ok () \<and> poll_interval_max config \<le> duration_max"

lemma config_okD:
  assumes "config_ok config"
  shows "poll_interval_min config \<le> poll_interval_max config" "poll_interval_max config \<le> duration_max"
    "0 < concurrency config" "0 < poll_interval_min config"
  using assms by (auto simp: config_ok_def worker_config_validate_def split: if_splits)

lemma reserve_sleep_ok:
  assumes "worker_ok config st" "config_ok config"
    and "poll_interval_min config \<le> delay" "delay \<le> poll_interval_max config"
    and "d \<le> poll_interval_max config"
  shows "worker_ok config (st\<lparr>ws_poll_delay := delay, ws_reserve_sleep := Some (d, a)\<rparr>)"
    "worker_ok config (st\<lparr>ws_poll_delay := delay\<rparr>)"
    "worker_ok config (st\<lparr>ws_reserve_sleep := None, ws_poll_delay := delay\<rparr>)"
    "worker_ok config (st\<lparr>ws_reserve_sleep := None\<rparr>)"
    "worker_ok config (st\<lparr>ws_next_schedule_at := at\<rparr>)"
  using assms by (simp_all add: worker_ok_def accounts_def active_keys_def delays_ok_def)

lemma back_off_ok:
  assumes r: "r \<noteq> Panic" "\<forall>j. r \<noteq> Err (LeaseMismatch j)" and st: "worker_ok config st"
    and run: "back_off config t (db, st, r) = (db', st', r')"
  shows "stops_only_fatally r' \<and> (r' = Ok () \<longrightarrow> worker_ok config st')"
  using assms by (cases r) (auto simp: back_off_def fatal_def split: if_splits)

context worker_store
begin

lemma reserve_arm_ok:
  assumes Q: "wk_store W = Q" and config: "config = wk_config W" "config_ok config"
    and st: "worker_ok config st" and fresh: "fresh_tokens config call st"
    and run: "reserve_arm W call now st db = (db', st', r)"
  shows "stops_only_fatally r \<and> (r = Ok () \<longrightarrow> worker_ok config st')"
proof -
  let ?n = "free_capacity config st"
  let ?tokens = "new_lease_tokens (rc_uuid call) ?n"
  obtain db1 r1 where call_r: "reserve_jobs W call st db = (db1, r1)" by (metis surj_pair)
  have r1: "snd (qs_reserve Q (rc_links call) (wk_namespace W) config ?n (rc_now call) ?tokens db) = r1"
    using call_r by (simp add: reserve_jobs_def Let_def Q config(1))
  have no_lease: "no_lease_outcome r1" using reserve_outcome r1 by metis
  have delay: "poll_interval_min config \<le> ws_poll_delay st" "ws_poll_delay st \<le> poll_interval_max config"
    using st by (simp_all add: worker_ok_def delays_ok_def)
  note limits = config_okD [OF config(2)]
  show ?thesis
  proof (cases r1)
    case (Ok batch)
    note tokens = reserve_token_set [OF r1 [unfolded Ok]] reserve_length [OF r1 [unfolded Ok]]
    let ?jobs = "rb_jobs batch"
    let ?st2 = "st\<lparr>ws_next_schedule_at := rb_next_schedule_at batch, ws_poll_delay := poll_interval_min config\<rparr>"
    show ?thesis
    proof (cases "?jobs = []")
      case True
      have "sleep_duration now (ws_poll_delay st) at \<le> poll_interval_max config" for at
        using sleep_duration_le delay(2) by (rule order_trans)
      then show ?thesis
        using run call_r Ok True st
        by (auto simp: reserve_arm_def Let_def worker_ok_def accounts_def active_keys_def delays_ok_def)
    next
      case False
      have st2: "worker_ok config ?st2"
        using st delay limits by (simp add: worker_ok_def accounts_def active_keys_def delays_ok_def)
      have distinct: "distinct (map lease_key ?jobs)"
      proof -
        have "distinct (map rj_lease_token ?jobs)"
          using tokens(2) fresh by (simp add: fresh_tokens_def Let_def)
        then have "distinct (map lk_lease_token (map lease_key ?jobs))"
          by (simp add: comp_def lease_key_def lease_attempt_key_new_def)
        then show ?thesis by (rule distinct_map [THEN iffD1, THEN conjunct1])
      qed
      have disjoint: "lease_key ` set ?jobs \<inter> set (active_keys ?st2) = {}"
      proof -
        have "lk_lease_token ` lease_key ` set ?jobs \<subseteq> set ?tokens"
          using tokens(1) by (auto simp: lease_key_def lease_attempt_key_new_def)
        moreover have "set ?tokens \<inter> lk_lease_token ` set (active_keys st) = {}"
          using fresh by (simp add: fresh_tokens_def Let_def)
        ultimately have "lk_lease_token ` lease_key ` set ?jobs \<inter> lk_lease_token ` set (active_keys st) = {}"
          by blast
        then show ?thesis by (auto simp: active_keys_def)
      qed
      have spawned: "accounts (fold spawn_job ?jobs ?st2)"
        "active_keys (fold spawn_job ?jobs ?st2) = active_keys ?st2 @ map lease_key ?jobs"
        using spawn_all_accounts [OF worker_ok_accounts [OF st2] distinct disjoint] by simp_all
      have "length (ws_active (fold spawn_job ?jobs ?st2)) = length (ws_active st) + length ?jobs"
        using arg_cong [OF spawned(2), of length] by (simp add: active_keys_def)
      moreover have "length ?jobs \<le> concurrency config - length (ws_active st)"
        using tokens(3) by (simp add: new_lease_tokens_def free_capacity_def)
      ultimately have "worker_ok config (fold spawn_job ?jobs ?st2)"
        using spawned(1) st2 st unfolding worker_ok_def by (simp, linarith)
      then show ?thesis
        using run call_r Ok False by (auto simp: reserve_arm_def Let_def config(1))
    qed
  next
    case (Err e)
    with no_lease have e: "\<forall>j. e \<noteq> LeaseMismatch j" by (simp add: no_lease_outcome_def)
    show ?thesis
      using run call_r Err e st delay limits
        next_poll_delay_bounds [OF delay limits(1,2)]
      by (auto simp: reserve_arm_def config(1) fatal_def worker_ok_def accounts_def
          active_keys_def delays_ok_def split: if_splits)
  next
    case Panic
    with no_lease show ?thesis by (simp add: no_lease_outcome_def)
  qed
qed

end

text \<open>
  What the environment may do in an iteration: join tasks that exist, traverse a map in any order
  of its keys, take an arm whose precondition holds, drop a reserve only when one is in flight,
  and generate fresh identifiers.
\<close>

definition traverses :: "'k list \<Rightarrow> ('k \<times> 'v) list \<Rightarrow> bool" where
  "traverses order m \<longleftrightarrow> distinct order \<and> set order = fst ` set m"

fun arm_possible :: "worker_config \<Rightarrow> worker_state \<Rightarrow> 'db arm \<Rightarrow> bool" where
  "arm_possible config st (Heartbeat_ticked order links now t) =
     (ws_active st \<noteq> [] \<and> traverses order (ws_active st))"
| "arm_possible config st (Reserve_returned call now) =
     (arm_enabled config st (Reserve_returned call now) \<and> fresh_tokens config call st)"
| "arm_possible config st arm = arm_enabled config st arm"

definition possible :: "'db worker \<Rightarrow> 'db turn_input \<Rightarrow> worker_state \<Rightarrow> 'db \<Rightarrow> bool" where
  "possible W inp st db \<longleftrightarrow>
     (case inp of (pre, dropped, arm) \<Rightarrow>
        can_finish (pi_finished pre) (length (ws_join_set st)) \<and>
        traverses (pi_order pre) (ws_pending (fst (drain_joined_jobs (pi_finished pre) st))) \<and>
        (case before_select W pre st db of (db', st', r) \<Rightarrow>
           arm_possible (wk_config W) st' arm \<and>
           (dropped = None \<or> reserve_in_flight (wk_config W) st' arm)))"

text \<open>
  The states of a worker: it starts with a valid configuration, goes through iterations, and other
  clients change the database at any time.
\<close>

inductive serving :: "'db worker \<Rightarrow> worker_state \<Rightarrow> 'db \<Rightarrow> bool" for W :: "'db worker"
where
  serving_start: "config_ok (wk_config W) \<Longrightarrow> serving W (initial_state (wk_config W)) db"
| serving_turn:
    "serving W st db \<Longrightarrow> possible W inp st db \<Longrightarrow> iteration W inp st db = (db', st', Ok ()) \<Longrightarrow>
     serving W st' db'"
| serving_others: "serving W st db \<Longrightarrow> serving W st db'"

lemma serving_config: "serving W st db \<Longrightarrow> config_ok (wk_config W)"
  by (induction rule: serving.induct)

context worker_store
begin

lemma take_arm_ok:
  assumes Q: "wk_store W = Q" and config: "config = wk_config W" "config_ok config"
    and st: "worker_ok config st" and arm: "arm_possible config st arm"
    and run: "take_arm W arm st db = (db', st', r)"
  shows "stops_only_fatally r \<and> (r = Ok () \<longrightarrow> worker_ok config st')"
proof (cases arm)
  case (Task_joined i result)
  with run have join: "join_task i result st = (st', r)" by (auto split: prod.splits)
  have i: "i < length (ws_join_set st)" using arm Task_joined by simp
  show ?thesis
    using join_outcome [OF join] joined_ok [OF _ st] join_joined(1) [OF worker_ok_accounts [OF st] i] join
    by auto
next
  case (Heartbeat_ticked order links now t)
  obtain db1 leases r1 where beat: "heartbeat_active (wk_store W) links (wk_namespace W) (wk_config W)
      now order (ws_active st) db = (db1, leases, r1)" by (metis surj_pair)
  have keys: "\<forall>(k, l) \<in> set (ws_active st). active_attempt_key l = k"
    using worker_ok_accounts [OF st] by (simp add: accounts_def)
  note ok = heartbeat_active_ok [OF beat [unfolded Q] keys]
  note same = switched_off_keys [OF ok(2)]
  have "worker_ok config (st\<lparr>ws_active := leases\<rparr>)"
    using st same(1,2) same(3) [OF keys]
    by (simp add: worker_ok_def accounts_def active_keys_def delays_ok_def)
  moreover have "back_off config t (db1, st\<lparr>ws_active := leases\<rparr>, r1) = (db', st', r)"
    using run Heartbeat_ticked beat config(1) by simp
  ultimately show ?thesis
    using back_off_ok [of r1 config] ok(1) by (simp add: no_lease_outcome_def)
next
  case (Reap_ticked call t)
  let ?reap = "qs_reap_expired (wk_store W) (sc_links call) (wk_namespace W) (sc_now call)
    (concurrency config)"
  obtain db1 r1 where reap: "io_unit ?reap db = (db1, r1)" by (metis surj_pair)
  have "no_lease_outcome r1"
    using reap_outcome [of "sc_links call" "wk_namespace W" "sc_now call" "concurrency config" db]
      io_unit_apply(1) [of ?reap db] reap
    by (auto simp: Q no_lease_outcome_def)
  moreover have "back_off config t (db1, st, r1) = (db', st', r)"
    using run Reap_ticked reap config(1) by simp
  ultimately show ?thesis
    using back_off_ok [of r1 config] st by (simp add: no_lease_outcome_def)
next
  case Backoff_slept
  with run st show ?thesis by auto
next
  case (Reserve_returned call now)
  with arm run reserve_arm_ok [OF Q config st, of call now db db' st' r] show ?thesis by simp
next
  case Reserve_slept
  have delay: "poll_interval_min config \<le> ws_poll_delay st" "ws_poll_delay st \<le> poll_interval_max config"
    using st by (simp_all add: worker_ok_def delays_ok_def)
  note limits = config_okD [OF config(2)]
  have "worker_ok config (st\<lparr>ws_reserve_sleep := None\<rparr>)"
    "worker_ok config (st\<lparr>ws_reserve_sleep := None,
       ws_poll_delay := next_poll_delay (ws_poll_delay st) (poll_interval_max config)\<rparr>)"
    using st delay next_poll_delay_bounds [OF delay limits(1,2)]
    by (simp_all add: worker_ok_def accounts_def active_keys_def delays_ok_def)
  with run Reserve_slept config(1) show ?thesis by (auto split: option.splits prod.splits if_splits)
qed

lemma iteration_ok:
  assumes Q: "wk_store W = Q" and config: "config_ok (wk_config W)"
    and st: "worker_ok (wk_config W) st" and inp: "possible W inp st db"
    and run: "iteration W inp st db = (db', st', r)"
  shows "stops_only_fatally r \<and> (r = Ok () \<longrightarrow> worker_ok (wk_config W) st')"
proof -
  obtain pre dropped arm where i: "inp = (pre, dropped, arm)" by (metis surj_pair)
  obtain db1 st1 r1 where before: "before_select W pre st db = (db1, st1, r1)" by (metis surj_pair)
  have fin: "can_finish (pi_finished pre) (length (ws_join_set st))"
    and arm: "arm_possible (wk_config W) st1 arm"
    using inp i before by (simp_all add: possible_def)
  note first = before_select_ok [OF Q st fin before]
  show ?thesis
  proof (cases r1)
    case (Ok u)
    with first have "worker_ok (wk_config W) st1" by simp
    from take_arm_ok [OF Q refl config this arm] show ?thesis
      using run before i Ok by (simp add: iteration_def)
  qed (use run before i first in \<open>auto simp: iteration_def\<close>)
qed

lemma serving_ok: "serving W st db \<Longrightarrow> wk_store W = Q \<Longrightarrow> worker_ok (wk_config W) st"
proof (induction rule: serving.induct)
  case (serving_start db)
  then show ?case by (simp add: initial_ok config_ok_def)
next
  case (serving_turn st db inp db' st')
  from iteration_ok [OF serving_turn.prems serving_config [OF serving_turn.hyps(1)]
      serving_turn.IH [OF serving_turn.prems] serving_turn.hyps(2,3)]
  show ?case by simp
qed simp

end


section \<open>Leases in hand\<close>

text \<open>
  A lease goes only with its own completion: when its key comes up in the order, its call is made on
  the database that the calls before it have left, and the store's answer settles it.
\<close>

definition settled_in_turn ::
    "'db worker \<Rightarrow> (nat \<Rightarrow> 'db store_call) \<Rightarrow> nat \<Rightarrow> lease_attempt_key list \<Rightarrow> worker_state \<Rightarrow> 'db \<Rightarrow>
     lease_attempt_key \<Rightarrow> nat \<Rightarrow> completed_lease \<Rightarrow> 'db \<Rightarrow> bool" where
  "settled_in_turn W calls i keys st db key n c dbn \<longleftrightarrow>
     n < length keys \<and> keys ! n = key \<and> map_of (ws_pending st) key = Some c \<and>
     (\<exists>stn. resolve_pending_from W calls i (take n keys) st db = (dbn, stn, Ok False)) \<and>
     settles (snd (resolve_completed (wk_store W) (calls (i + n)) (wk_namespace W) (wk_config W) c dbn))"

lemma settled_in_turn_later:
  assumes "settled_in_turn W calls (Suc i) keys st1 db1 key n c dbn"
    and "map_of (ws_pending st) key = map_of (ws_pending st1) key"
    and "\<And>ks. resolve_pending_from W calls i (k # ks) st db = resolve_pending_from W calls (Suc i) ks st1 db1"
  shows "settled_in_turn W calls i (k # keys) st db key (Suc n) c dbn"
  using assms unfolding settled_in_turn_def by (simp del: resolve_pending_from.simps)

lemma resolve_dropped:
  assumes "\<forall>(k, c) \<in> set (ws_pending st). completed_attempt_key c = k"
    and "resolve_pending_from W calls i keys st db = (db', st', Ok b)"
    and "key \<in> set (active_keys st)" "key \<notin> set (active_keys st')"
  shows "\<exists>n c dbn. settled_in_turn W calls i keys st db key n c dbn"
  using assms
proof (induction keys arbitrary: i st db)
  case (Cons k keys)
  show ?case
  proof (cases "map_of (ws_pending st) k")
    case None
    then have unfold: "resolve_pending_from W calls i (k # ks) st db = resolve_pending_from W calls (Suc i) ks st db"
      for ks by simp
    from Cons.IH [OF Cons.prems(1) Cons.prems(2) [unfolded unfold] Cons.prems(3,4)]
      settled_in_turn_later [OF _ refl unfold]
    show ?thesis by blast
  next
    case (Some c)
    have k: "completed_attempt_key c = k" using Cons.prems(1) map_of_SomeD [OF Some] by auto
    obtain db1 r1 where call:
      "resolve_completed (wk_store W) (calls i) (wk_namespace W) (wk_config W) c db = (db1, r1)"
      by (metis surj_pair)
    let ?st1 = "st\<lparr>ws_pending := AList.delete k (ws_pending st), ws_active := AList.delete k (ws_active st)\<rparr>"
    show ?thesis
    proof (cases "settles r1")
      case settles: True
      have unfold: "resolve_pending_from W calls i (k # ks) st db = resolve_pending_from W calls (Suc i) ks ?st1 db1"
        for ks using settles Some k call by (auto simp: settles_def Let_def)
      show ?thesis
      proof (cases "k = key")
        case True
        then have "settled_in_turn W calls i (k # keys) st db key 0 c db"
          using Some call settles by (simp add: settled_in_turn_def)
        then show ?thesis by blast
      next
        case False
        have held: "key \<in> set (active_keys ?st1)"
          using Cons.prems(3) False by (simp add: active_keys_def keys_delete del: set_map)
        have keys: "\<forall>(k, c) \<in> set (ws_pending ?st1). completed_attempt_key c = k"
          using Cons.prems(1) set_delete_subset [of k "ws_pending st"] by auto
        have same: "map_of (ws_pending st) key = map_of (ws_pending ?st1) key"
          using False by (simp add: AList.delete_conv')
        from Cons.IH [OF keys Cons.prems(2) [unfolded unfold] held Cons.prems(4)]
          settled_in_turn_later [OF _ same unfold]
        show ?thesis by blast
      qed
    next
      case False
      then have "active_keys st' = active_keys st"
        using Cons.prems(2) Some call
        by (auto simp: settles_def Let_def active_keys_def split: rresult.splits error.splits if_splits)
      with Cons.prems(3,4) show ?thesis by simp
    qed
  qed
qed simp

lemma spawn_keys: "set (active_keys st) \<subseteq> set (active_keys (fold spawn_job jobs st))"
proof (induction jobs arbitrary: st)
  case (Cons job jobs)
  have "set (active_keys st) \<subseteq> set (active_keys (spawn_job job st))"
    by (auto simp: active_keys_def spawn_job_def Let_def keys_update simp flip: set_map)
  with Cons [of "spawn_job job st"] show ?case by simp
qed simp

context worker_store
begin

lemma take_arm_keys:
  assumes Q: "wk_store W = Q" and st: "accounts st" and run: "take_arm W arm st db = (db', st', r)"
  shows "set (active_keys st) \<subseteq> set (active_keys st')"
proof (cases arm)
  case (Task_joined i result)
  with run have "ws_active st' = ws_active st"
    by (auto simp: join_task_def record_join_result_def split: prod.splits sum.splits)
  then show ?thesis by (simp add: active_keys_def)
next
  case (Heartbeat_ticked order links now t)
  obtain db1 leases r1 where beat: "heartbeat_active (wk_store W) links (wk_namespace W) (wk_config W)
      now order (ws_active st) db = (db1, leases, r1)" by (metis surj_pair)
  have keys: "\<forall>(k, l) \<in> set (ws_active st). active_attempt_key l = k" using st by (simp add: accounts_def)
  have "ws_active st' = leases"
    using run Heartbeat_ticked beat
    by (auto simp: back_off_def split: rresult.splits if_splits)
  then show ?thesis
    using switched_off_keys(1) [OF heartbeat_active_ok(2) [OF beat [unfolded Q] keys]]
    by (simp add: active_keys_def)
next
  case (Reap_ticked call t)
  obtain db1 r1 where "io_unit (qs_reap_expired (wk_store W) (sc_links call) (wk_namespace W)
      (sc_now call) (concurrency (wk_config W))) db = (db1, r1)" by (metis surj_pair)
  with run Reap_ticked have "ws_active st' = ws_active st"
    by (auto simp: back_off_def split: rresult.splits if_splits)
  then show ?thesis by (simp add: active_keys_def)
next
  case (Reserve_returned call now)
  obtain db1 r1 where "reserve_jobs W call st db = (db1, r1)" by (metis surj_pair)
  with run Reserve_returned consider "ws_active st' = ws_active st"
    | jobs st1 where "st' = fold spawn_job jobs st1" "ws_active st1 = ws_active st"
    by (cases r1) (auto simp: reserve_arm_def Let_def split: if_splits)
  then show ?thesis
  proof cases
    case (2 jobs st1)
    then show ?thesis using spawn_keys [of st1 jobs] by (simp add: active_keys_def)
  qed (simp add: active_keys_def)
qed (use run in \<open>auto simp: active_keys_def split: option.splits prod.splits if_splits\<close>)

lemma before_select_keys:
  assumes Q: "wk_store W = Q" and st: "accounts st"
    and fin: "can_finish (pi_finished pre) (length (ws_join_set st))"
    and run: "before_select W pre st db = (db', st', Ok u)"
    and k: "key \<in> set (active_keys st)" "key \<notin> set (active_keys st')"
    and st1: "st1 = clear_backoff (pi_instant pre) (fst (drain_joined_jobs (pi_finished pre) st))"
  shows "\<exists>n c dbn. settled_in_turn W (pi_calls pre) 0 (pi_order pre) st1 db key n c dbn"
proof -
  obtain st0 r0 where drain: "drain_joined_jobs (pi_finished pre) st = (st0, r0)" by (metis surj_pair)
  have r0: "r0 = Ok ()" using run drain by (cases r0) (auto simp: before_select_def)
  have "joined st st0" using drain_ok [OF st fin drain] r0 by auto
  then have acc: "accounts st1" "active_keys st1 = active_keys st"
    by (auto simp: st1 drain joined_def clear_backoff_def accounts_def active_keys_def)
  have keys: "\<forall>(k, c) \<in> set (ws_pending st1). completed_attempt_key c = k"
    using acc(1) by (simp add: accounts_def)
  have run2: "resolve_unless_backing_off W pre st1 db = (db', st', Ok u)"
    using run drain r0 by (simp add: before_select_def st1)
  obtain db3 st3 r3 where resolve:
    "resolve_pending_from W (pi_calls pre) 0 (pi_order pre) st1 db = (db3, st3, r3)" by (metis surj_pair)
  have "active_keys st' = active_keys st1 \<or> (active_keys st' = active_keys st3 \<and> (\<exists>b. r3 = Ok b))"
    using run2 resolve
    by (cases r3) (auto simp: resolve_unless_backing_off_def active_keys_def split: if_splits)
  then obtain b where b: "r3 = Ok b" "key \<notin> set (active_keys st3)"
    using k unfolding acc(2) [symmetric] by metis
  have held: "key \<in> set (active_keys st1)" using k(1) acc(2) by simp
  show ?thesis by (rule resolve_dropped [OF keys resolve [unfolded b(1)] held b(2)])
qed

text \<open>When every answer settles its completion, nothing stays pending.\<close>

lemma resolve_all:
  assumes "accounts st" and "set keys \<subseteq> fst ` set (ws_pending st)" and "distinct keys"
    and "\<forall>c \<in> snd ` set (ws_pending st). \<forall>i db.
      settles (snd (resolve_completed (wk_store W) (calls i) (wk_namespace W) (wk_config W) c db))"
    and run: "resolve_pending_from W calls i keys st db = (db', st', r)"
  shows "r = Ok False \<and> fst ` set (ws_pending st') = fst ` set (ws_pending st) - set keys"
  using assms(1-4) run
proof (induction keys arbitrary: i st db)
  case (Cons key keys)
  obtain c where c: "map_of (ws_pending st) key = Some c"
    using Cons.prems(2) by (metis list.set_intros(1) map_of_eq_None_iff not_None_eq subset_iff)
  have key: "completed_attempt_key c = key"
    using Cons.prems(1) map_of_SomeD [OF c] by (auto simp: accounts_def)
  obtain db1 r1 where call:
    "resolve_completed (wk_store W) (calls i) (wk_namespace W) (wk_config W) c db = (db1, r1)"
    by (metis surj_pair)
  have "\<forall>i db. settles (snd (resolve_completed (wk_store W) (calls i) (wk_namespace W) (wk_config W) c db))"
    using Cons.prems(4) imageI [OF map_of_SomeD [OF c], of snd] unfolding snd_conv by (rule bspec)
  then have "settles r1" using call by (metis snd_conv)
  let ?st1 = "st\<lparr>ws_pending := AList.delete key (ws_pending st), ws_active := AList.delete key (ws_active st)\<rparr>"
  have rest: "resolve_pending_from W calls (Suc i) keys ?st1 db1 = (db', st', r)"
    using Cons.prems(5) \<open>settles r1\<close> c key call by (auto simp: settles_def Let_def)
  have less: "set (ws_pending ?st1) \<subseteq> set (ws_pending st)" by (simp add: set_delete_subset)
  have pend: "fst ` set (ws_pending ?st1) = fst ` set (ws_pending st) - {key}"
    using keys_delete [of key "ws_pending st"] by (simp flip: set_map)
  have keys: "set keys \<subseteq> fst ` set (ws_pending ?st1)" "distinct keys"
    unfolding pend using Cons.prems(2,3) by auto
  have "snd ` set (ws_pending ?st1) \<subseteq> snd ` set (ws_pending st)" using less by (rule image_mono)
  with Cons.prems(4) have "\<forall>c \<in> snd ` set (ws_pending ?st1). \<forall>i db.
      settles (snd (resolve_completed (wk_store W) (calls i) (wk_namespace W) (wk_config W) c db))"
    by (meson subsetD)
  from Cons.IH [OF settle_accounts [OF Cons.prems(1) c] keys this rest]
  have "r = Ok False \<and> fst ` set (ws_pending st') = fst ` set (ws_pending ?st1) - set keys" .
  with pend show ?case by auto
qed simp

end

end
