(* ===== verification/Moves.thy ===== *)
theory Moves
  imports Contract Machine
begin

text \<open>
  What an operation does to the database between and among the steps of others. The steps are an
  arbitrary relation \<open>T\<close>: the links of the operation follow \<open>T\<close> when everything the others do in
  between consists of such steps, and the operation moves by \<open>T\<close> when all it does to the database,
  with the others in between, is a sequence of them. Each rule asks of \<open>T\<close> only the steps that the
  operation itself takes.
\<close>

section \<open>Following and moving\<close>

definition follows :: "('db \<Rightarrow> 'db \<Rightarrow> bool) \<Rightarrow> 'db link \<Rightarrow> bool" where
  "follows T l \<longleftrightarrow> (\<forall>db. T\<^sup>*\<^sup>* db (others l db))"

definition calls_follow :: "('db \<Rightarrow> 'db \<Rightarrow> bool) \<Rightarrow> 'db links \<Rightarrow> bool" where
  "calls_follow T L \<longleftrightarrow> (\<forall>i. follows T (L i))"

definition moves :: "('db \<Rightarrow> 'db \<Rightarrow> bool) \<Rightarrow> ('db, 'a) io \<Rightarrow> bool" where
  "moves T operation \<longleftrightarrow> (\<forall>db. T\<^sup>*\<^sup>* db (fst (operation db)))"

named_theorems moves_rules \<open>how composed operations and reads move\<close>

text \<open>The steps of others or of somebody.\<close>

definition along :: "('db \<Rightarrow> 'db \<Rightarrow> bool) \<Rightarrow> ('db \<Rightarrow> 'db \<Rightarrow> bool) \<Rightarrow> 'db \<Rightarrow> 'db \<Rightarrow> bool" where
  "along U V db db' \<longleftrightarrow> U db db' \<or> V db db'"

lemma along_left: "U\<^sup>*\<^sup>* db db' \<Longrightarrow> (along U V)\<^sup>*\<^sup>* db db'"
  by (induction rule: rtranclp_induct) (auto simp: along_def intro: rtranclp.rtrancl_into_rtrancl)

lemma along_into: "U \<le> T \<Longrightarrow> V \<le> T \<Longrightarrow> (along U V)\<^sup>*\<^sup>* db db' \<Longrightarrow> T\<^sup>*\<^sup>* db db'"
  using rtranclp_mono [of "along U V" T] by (auto simp: along_def le_fun_def)

lemma follows_along: "follows U l \<Longrightarrow> follows (along U V) l"
  by (simp add: follows_def along_left)

lemma calls_follow_along: "calls_follow U L \<Longrightarrow> calls_follow (along U V) L"
  by (simp add: calls_follow_def follows_along)

lemma calls_followD: "calls_follow T L \<Longrightarrow> follows T (L i)"
  by (simp add: calls_follow_def)

lemma calls_follow_quiet [simp]: "calls_follow T quiet"
  by (simp add: calls_follow_def follows_def)

lemma calls_follow_steps: "calls_follow T L \<Longrightarrow> T\<^sup>*\<^sup>* db db' \<Longrightarrow> T\<^sup>*\<^sup>* db (others (L i) db')"
  unfolding calls_follow_def follows_def by (meson rtranclp_trans)

lemma reachable_steps:
  "(queue_step S ns idle)\<^sup>*\<^sup>* db db' \<Longrightarrow> reachable S ns idle db \<Longrightarrow> reachable S ns idle db'"
  by (induction rule: rtranclp_induct) (blast intro: reach_step)+

lemma movesD: "moves T operation \<Longrightarrow> T\<^sup>*\<^sup>* db (fst (operation db))"
  by (simp add: moves_def)

lemma moves_return [moves_rules]: "moves T (io_return r)"
  by (simp add: moves_def)

lemma moves_bind [moves_rules]:
  assumes "moves T m" "\<And>a. moves T (f a)"
  shows "moves T (io_bind m f)"
  unfolding moves_def
proof
  fix db
  show "T\<^sup>*\<^sup>* db (fst (io_bind m f db))"
    using movesD [OF assms(1), of db] movesD [OF assms(2)]
    by (cases "m db"; cases "snd (m db)") (auto intro: rtranclp_trans)
qed

lemma moves_if [moves_rules]: "moves T a \<Longrightarrow> moves T b \<Longrightarrow> moves T (if c then a else b)"
  by simp


section \<open>Commands\<close>

text \<open>A command on its way: the others step first, then the command takes its own steps, if any.\<close>

lemma moves_query:
  assumes l: "follows T l" and run: "\<And>db. T\<^sup>*\<^sup>* db (fst (run db))"
  shows "moves T (query_cmd S operation l run)"
  unfolding moves_def
proof
  fix db
  have "T\<^sup>*\<^sup>* db (others l db)" using l by (simp add: follows_def)
  moreover from this have "T\<^sup>*\<^sup>* db (fst (run (others l db)))" using run by (rule rtranclp_trans)
  ultimately show "T\<^sup>*\<^sup>* db (fst (query_cmd S operation l run db))"
    using query_cmd_db [of S operation l run db] by auto
qed

lemma moves_read [moves_rules]:
  assumes "follows T l"
  shows "moves T (query_cmd S operation l (\<lambda>db. (db, f db)))"
    and "moves T (query_pipe S operation l (\<lambda>db. (db, f db)))"
  unfolding query_pipe_def by (intro moves_query assms; simp)+

lemma moves_hmget [moves_rules]: "follows T l \<Longrightarrow> moves T (hmget S parse operation l key names)"
  unfolding hmget_def by (simp add: moves_rules)

lemma moves_scores [moves_rules]:
  assumes "follows T l"
  shows "moves T (query_cmd S operation l (zrange_scores S key start stop))"
    and "moves T (query_cmd S operation l (all_scores S key))"
  by (intro moves_query assms; simp add: zrange_scores_def all_scores_def)+

text \<open>An operation of one script, moved behind the steps of the others.\<close>

definition left_alone :: "'db link \<Rightarrow> 'db link" where
  "left_alone l = l\<lparr>others := (\<lambda>db. db)\<rparr>"

lemma left_alone_simps [simp]: "alone (left_alone l)" "delivery (left_alone l) = delivery l"
  by (simp_all add: left_alone_def)

lemma query_left_alone: "query_cmd S operation l run db = query_cmd S operation (left_alone l) run (others l db)"
  by (simp add: query_cmd_def)

lemma eval_left_alone:
  "eval S operation l script keys args db =
   eval S operation (left_alone l) script keys args (others l db)"
  unfolding eval_def by (rule query_left_alone)

lemma moves_script:
  assumes "follows T l" and "\<And>db. T db (fst (operation' db))"
    and "\<And>db. fst (operation db) = fst (operation' (others l db))"
  shows "moves T operation"
  using assms unfolding moves_def follows_def by (auto intro: rtranclp.rtrancl_into_rtrancl)


section \<open>The operations of one script\<close>

lemma enqueue_left_alone:
  "enqueue S L t ns request db = enqueue S (\<lambda>_. left_alone (L 0)) t ns request (others (L 0) db)"
  by (simp add: enqueue_def io_bind_def eval_left_alone [of _ _ "L 0"] Let_def)

lemma reschedule_left_alone:
  "reschedule S L t ns j at db = reschedule S (\<lambda>_. left_alone (L 0)) t ns j at (others (L 0) db)"
  by (simp add: reschedule_def io_bind_def eval_left_alone [of _ _ "L 0"] Let_def)

lemma operator_left_alone:
  "operator_transition_at S L ns operation j t db =
   operator_transition_at S (\<lambda>_. left_alone (L 0)) ns operation j t (others (L 0) db)"
  by (simp add: operator_transition_at_def io_bind_def eval_left_alone [of _ _ "L 0"] Let_def)

lemma ack_left_alone: "ack S L t ns w j tok db = ack S (\<lambda>_. left_alone (L 0)) t ns w j tok (others (L 0) db)"
  by (simp add: ack_def io_bind_def eval_left_alone [of _ _ "L 0"] Let_def)

lemma complete_left_alone:
  "complete_and_reschedule S L ns w j tok at t db =
   complete_and_reschedule S (\<lambda>_. left_alone (L 0)) ns w j tok at t (others (L 0) db)"
  by (simp add: complete_and_reschedule_def io_bind_def eval_left_alone [of _ _ "L 0"] Let_def)

lemma fail_left_alone:
  "fail_or_retry S L ns request db = fail_or_retry S (\<lambda>_. left_alone (L 0)) ns request (others (L 0) db)"
  by (simp add: fail_or_retry_def io_bind_def eval_left_alone [of _ _ "L 0"] Let_def)

lemma heartbeat_left_alone:
  "heartbeat S L ns w j tok t duration db =
   heartbeat S (\<lambda>_. left_alone (L 0)) ns w j tok t duration (others (L 0) db)"
  by (simp add: heartbeat_def io_bind_def eval_left_alone [of _ _ "L 0"] Let_def)

lemma reap_left_alone:
  "limit \<noteq> 0 \<Longrightarrow>
   reap_expired S L ns t limit db = reap_expired S (\<lambda>_. left_alone (L 0)) ns t limit (others (L 0) db)"
  by (simp add: reap_expired_def io_bind_def eval_left_alone [of _ _ "L 0"] Let_def)

lemma remember_left_alone:
  "remember_namespace S l ns db = remember_namespace S (left_alone l) ns (others l db)"
  unfolding remember_namespace_def by (simp add: io_bind_def query_left_alone [of _ _ l])

text \<open>Each moves by its own step, taken alone.\<close>

lemma moves_single:
  assumes "follows T (L 0)"
  shows "(\<And>L db. alone (L 0) \<Longrightarrow> T db (fst (enqueue S L t ns request db))) \<Longrightarrow>
      moves T (enqueue S L t ns request)"
    and "(\<And>L db. alone (L 0) \<Longrightarrow> T db (fst (reschedule S L t ns j at db))) \<Longrightarrow>
      moves T (reschedule S L t ns j at)"
    and "(\<And>L db. alone (L 0) \<Longrightarrow> T db (fst (operator_transition_at S L ns operation j t db))) \<Longrightarrow>
      moves T (operator_transition_at S L ns operation j t)"
    and "(\<And>L db. alone (L 0) \<Longrightarrow> T db (fst (ack S L t ns w j tok db))) \<Longrightarrow> moves T (ack S L t ns w j tok)"
    and "(\<And>L db. alone (L 0) \<Longrightarrow> T db (fst (complete_and_reschedule S L ns w j tok at t db))) \<Longrightarrow>
      moves T (complete_and_reschedule S L ns w j tok at t)"
    and "(\<And>L db. alone (L 0) \<Longrightarrow> T db (fst (fail_or_retry S L ns failure db))) \<Longrightarrow>
      moves T (fail_or_retry S L ns failure)"
    and "(\<And>L db. alone (L 0) \<Longrightarrow> T db (fst (heartbeat S L ns w j tok t duration db))) \<Longrightarrow>
      moves T (heartbeat S L ns w j tok t duration)"
    and "(\<And>L db. alone (L 0) \<Longrightarrow> T db (fst (reap_expired S L ns t limit db))) \<Longrightarrow>
      moves T (reap_expired S L ns t limit)"
proof -
  let ?L = "\<lambda>_ :: nat. left_alone (L 0)"
  note single = moves_script [OF assms]
  show "moves T (enqueue S L t ns request)"
    if "\<And>L db. alone (L 0) \<Longrightarrow> T db (fst (enqueue S L t ns request db))"
    by (rule single [where operation' = "enqueue S ?L t ns request"]) (simp_all add: that enqueue_left_alone [of S L])
  show "moves T (reschedule S L t ns j at)"
    if "\<And>L db. alone (L 0) \<Longrightarrow> T db (fst (reschedule S L t ns j at db))"
    by (rule single [where operation' = "reschedule S ?L t ns j at"]) (simp_all add: that reschedule_left_alone [of S L])
  show "moves T (operator_transition_at S L ns operation j t)"
    if "\<And>L db. alone (L 0) \<Longrightarrow> T db (fst (operator_transition_at S L ns operation j t db))"
    by (rule single [where operation' = "operator_transition_at S ?L ns operation j t"])
       (simp_all add: that operator_left_alone [of S L])
  show "moves T (ack S L t ns w j tok)"
    if "\<And>L db. alone (L 0) \<Longrightarrow> T db (fst (ack S L t ns w j tok db))"
    by (rule single [where operation' = "ack S ?L t ns w j tok"]) (simp_all add: that ack_left_alone [of S L])
  show "moves T (complete_and_reschedule S L ns w j tok at t)"
    if "\<And>L db. alone (L 0) \<Longrightarrow> T db (fst (complete_and_reschedule S L ns w j tok at t db))"
    by (rule single [where operation' = "complete_and_reschedule S ?L ns w j tok at t"])
       (simp_all add: that complete_left_alone [of S L])
  show "moves T (fail_or_retry S L ns failure)"
    if "\<And>L db. alone (L 0) \<Longrightarrow> T db (fst (fail_or_retry S L ns failure db))"
    by (rule single [where operation' = "fail_or_retry S ?L ns failure"]) (simp_all add: that fail_left_alone [of S L])
  show "moves T (heartbeat S L ns w j tok t duration)"
    if "\<And>L db. alone (L 0) \<Longrightarrow> T db (fst (heartbeat S L ns w j tok t duration db))"
    by (rule single [where operation' = "heartbeat S ?L ns w j tok t duration"]) (simp_all add: that heartbeat_left_alone [of S L])
  show "moves T (reap_expired S L ns t limit)"
    if "\<And>L db. alone (L 0) \<Longrightarrow> T db (fst (reap_expired S L ns t limit db))"
  proof (cases "limit = 0")
    case True
    then show ?thesis by (simp add: moves_def reap_expired_def)
  next
    case False
    then show ?thesis
      by (intro single [where operation' = "reap_expired S ?L ns t limit"]) (simp_all add: that reap_left_alone [of limit S L])
  qed
qed

lemma moves_remember:
  assumes "follows T l" and "\<And>l db. alone l \<Longrightarrow> T db (fst (remember_namespace S l ns db))"
  shows "moves T (remember_namespace S l ns)"
  by (rule moves_script [OF assms(1), of "remember_namespace S (left_alone l) ns"])
     (simp_all add: assms(2) remember_left_alone [of S l])

text \<open>
  A reserve is the script, then what the others do before the namespace is remembered, then that
  command. The script alone is a reserve whose second command never arrives.
\<close>

lemma moves_reserve:
  assumes L: "follows T (L 0)" "follows T (L 1)"
    and script: "\<And>L db. alone (L 0) \<Longrightarrow> alone (L 1) \<Longrightarrow> T db (fst (reserve S L ns config capacity now tokens db))"
    and remember: "\<And>l db. alone l \<Longrightarrow> T db (fst (remember_namespace S l ns db))"
  shows "moves T (reserve S L ns config capacity now tokens)"
  unfolding moves_def
proof
  fix db
  show "T\<^sup>*\<^sup>* db (fst (reserve S L ns config capacity now tokens db))"
  proof (cases "capacity = 0")
    case True
    then show ?thesis by (simp add: reserve_def)
  next
    case False
    define L' where "L' = (\<lambda>i :: nat. if i = 0 then left_alone (L 0) else \<lparr>others = (\<lambda>db. db), delivery = Timer_fired False\<rparr>)"
    obtain db1 r1 where cmd: "reserve_command S L ns config capacity now tokens db = (db1, r1)"
      by (metis surj_pair)
    have cmd': "reserve_command S L' ns config capacity now tokens (others (L 0) db) = (db1, r1)"
      using cmd unfolding reserve_command_def eval_def Let_def L'_def
      by (simp flip: query_left_alone)
    have lost: "fst (remember_namespace S (L' 1) ns db1) = db1"
      by (simp add: remember_namespace_def query_cmd_def L'_def Let_def split: prod.splits)
    have "fst (reserve S L' ns config capacity now tokens (others (L 0) db)) = db1"
      unfolding reserve_unfold [OF False]
      by (cases r1; cases "parse_reserve_response (chrono S) (worker_id config) (case r1 of Ok rs \<Rightarrow> rs)")
         (simp_all add: cmd' io_bind_def lost [unfolded One_nat_def])
    moreover have "T (others (L 0) db) (fst (reserve S L' ns config capacity now tokens (others (L 0) db)))"
      by (rule script) (simp_all add: L'_def)
    ultimately have first: "T\<^sup>*\<^sup>* db db1"
      using L(1) unfolding follows_def by (metis rtranclp.rtrancl_into_rtrancl)
    have "T\<^sup>*\<^sup>* db1 (fst (remember_namespace S (L 1) ns db1))"
      using moves_remember [OF L(2) remember] by (rule movesD)
    with first have second: "T\<^sup>*\<^sup>* db (fst (remember_namespace S (L 1) ns db1))" by (rule rtranclp_trans)
    have "fst (reserve S L ns config capacity now tokens db) \<in> {db1, fst (remember_namespace S (L 1) ns db1)}"
      unfolding reserve_unfold [OF False]
      by (cases r1; cases "parse_reserve_response (chrono S) (worker_id config) (case r1 of Ok rs \<Rightarrow> rs)")
         (simp_all add: cmd io_bind_def)
    with first second show ?thesis by auto
  qed
qed


section \<open>The operations of several commands\<close>

lemma moves_list_namespaces: "follows T l \<Longrightarrow> moves T (list_namespaces S l)"
  unfolding list_namespaces_def by (intro moves_rules)

lemma moves_get_job:
  assumes "calls_follow T L"
  shows "moves T (get_job S L ns job)"
  unfolding get_job_def query_pipe_def
proof (intro moves_bind moves_query moves_return)
  show "follows T (L 0)" using assms by (rule calls_followD)
  show "T\<^sup>*\<^sup>* db (fst (lookup_fields S L (store_keys S ns) job db))" for db
    unfolding lookup_fields_def Let_def fst_conv by (intro calls_follow_steps [OF assms] rtranclp.rtrancl_refl)
qed

lemma moves_counts:
  assumes "calls_follow T L"
  shows "moves T (store_counts S L ns t)"
  unfolding store_counts_def query_pipe_def
proof (intro moves_query)
  show "follows T (L 0)" using assms by (rule calls_followD)
  show "T\<^sup>*\<^sup>* db (fst (counts_fields S L (store_keys S ns) (micros (chrono S) t) db))" for db
    unfolding counts_fields_def Let_def fst_conv by (intro calls_follow_steps [OF assms] rtranclp.rtrancl_refl)
qed

lemma moves_list_failed: "calls_follow T L \<Longrightarrow> moves T (list_failed S L ns query)"
  unfolding list_failed_def Let_def by (intro moves_rules) (simp_all add: calls_followD)

section \<open>At most one step of its own\<close>

text \<open>
  Others step, then one step is taken at most, then others step again: what a whole operation with
  a single write does.
\<close>

definition once :: "('db \<Rightarrow> 'db \<Rightarrow> bool) \<Rightarrow> ('db \<Rightarrow> 'db \<Rightarrow> bool) \<Rightarrow> 'db \<Rightarrow> 'db \<Rightarrow> bool" where
  "once U V db db' \<longleftrightarrow> (\<exists>db0 db1. U\<^sup>*\<^sup>* db db0 \<and> (db1 = db0 \<or> V db0 db1) \<and> U\<^sup>*\<^sup>* db1 db')"

definition acts_once ::
    "('db \<Rightarrow> 'db \<Rightarrow> bool) \<Rightarrow> ('db \<Rightarrow> 'db \<Rightarrow> bool) \<Rightarrow> ('db, 'a) io \<Rightarrow> bool" where
  "acts_once U V operation \<longleftrightarrow> (\<forall>db. once U V db (fst (operation db)))"

lemma once_none: "U\<^sup>*\<^sup>* db db' \<Longrightarrow> once U V db db'"
  unfolding once_def by blast

lemma once_step: "U\<^sup>*\<^sup>* db db0 \<Longrightarrow> V db0 db1 \<Longrightarrow> once U V db db1"
  unfolding once_def by blast

lemma once_then: "once U V db db1 \<Longrightarrow> U\<^sup>*\<^sup>* db1 db' \<Longrightarrow> once U V db db'"
  unfolding once_def by (blast intro: rtranclp_trans)

lemma once_into:
  assumes "U \<le> T" "V \<le> T" "once U V db db'"
  shows "T\<^sup>*\<^sup>* db db'"
proof -
  obtain db0 db1 where path: "U\<^sup>*\<^sup>* db db0" "db1 = db0 \<or> V db0 db1" "U\<^sup>*\<^sup>* db1 db'"
    using assms(3) unfolding once_def by blast
  have "T\<^sup>*\<^sup>* db0 db1" using path(2) assms(2) by (auto dest: predicate2D)
  with path(1,3) assms(1) show ?thesis by (meson predicate2D rtranclp_mono rtranclp_trans)
qed

lemma acts_onceD: "acts_once U V operation \<Longrightarrow> once U V db (fst (operation db))"
  by (simp add: acts_once_def)

lemma acts_once_moves: "moves U operation \<Longrightarrow> acts_once U V operation"
  by (simp add: acts_once_def moves_def once_none)

lemma moves_once: "U \<le> T \<Longrightarrow> V \<le> T \<Longrightarrow> acts_once U V operation \<Longrightarrow> moves T operation"
  by (simp add: acts_once_def moves_def once_into [of U T V])

lemma acts_once_bind:
  assumes "acts_once U V m" "\<And>a. moves U (f a)"
  shows "acts_once U V (io_bind m f)"
  unfolding acts_once_def
proof
  fix db
  show "once U V db (fst (io_bind m f db))"
    using acts_onceD [OF assms(1), of db] movesD [OF assms(2)]
    by (cases "m db"; cases "snd (m db)") (auto intro: once_then)
qed

lemma acts_once_script:
  assumes "follows U l" and "\<And>db. V db (fst (operation' db))"
    and "\<And>db. fst (operation db) = fst (operation' (others l db))"
  shows "acts_once U V operation"
  using assms unfolding acts_once_def follows_def by (auto intro: once_step)

end
