(* ===== verification/Worker_Queue.thy ===== *)
theory Worker_Queue
  imports Worker_Loop Moves
begin

text \<open>
  The worker and the queue together. A worker on the Redis store touches the database only with its own
  steps: it reserves for itself up to its concurrency, remembers the namespace, renews and ends leases
  under its own id, ends a run only as the handler of that run has returned, and reaps. This holds with
  any steps of others between and during its commands.
\<close>

section \<open>What the handlers have returned\<close>

text \<open>The results of joined tasks; joining a task takes its job out of the join set.\<close>

fun joined_results :: "(nat \<times> task_end) list \<Rightarrow> reserved_job list \<Rightarrow> completed_lease list" where
  "joined_results [] jobs = []"
| "joined_results ((i, Returned result) # rest) jobs =
     \<lparr>cl_job_id = rj_job_id (jobs ! i), cl_lease_token = rj_lease_token (jobs ! i), cl_result = result\<rparr>
       # joined_results rest (take i jobs @ drop (Suc i) jobs)"
| "joined_results ((i, Task_lost e) # rest) jobs = []"

fun arm_joins :: "'db arm \<Rightarrow> (nat \<times> task_end) list" where
  "arm_joins (Task_joined i result) = [(i, result)]"
| "arm_joins arm = []"

definition turn_results :: "'db turn_input \<Rightarrow> reserved_job list \<Rightarrow> completed_lease set" where
  "turn_results inp jobs =
     (case inp of (pre, dropped, arm) \<Rightarrow> set (joined_results (pi_finished pre @ arm_joins arm) jobs))"

text \<open>All results of a run.\<close>

fun handler_results :: "'db worker \<Rightarrow> 'db turn_input list \<Rightarrow> worker_state \<Rightarrow> 'db \<Rightarrow> completed_lease set" where
  "handler_results W [] st db = {}"
| "handler_results W (inp # inps) st db =
     turn_results inp (ws_join_set st) \<union>
     (case iteration W inp st db of
        (db', st', Ok _) \<Rightarrow> handler_results W inps st' db'
      | _ \<Rightarrow> {})"


section \<open>The steps of a worker\<close>

text \<open>
  The steps of the worker with configuration \<open>config\<close> when the handlers have returned \<open>D\<close>. Each is one
  command with any fate.
\<close>

inductive worker_step ::
    "'db redis_store \<Rightarrow> string \<Rightarrow> worker_config \<Rightarrow> completed_lease set \<Rightarrow> 'db \<Rightarrow> 'db \<Rightarrow> bool"
  for S :: "'db redis_store" and ns :: string and config :: worker_config and D :: "completed_lease set"
where
  works_reserve:
    "alone (L 0) \<Longrightarrow> alone (L 1) \<Longrightarrow> length tokens \<le> concurrency config \<Longrightarrow>
     worker_step S ns config D db (fst (reserve S L ns config (length tokens) now tokens db))"
| works_remember: "alone l \<Longrightarrow> worker_step S ns config D db (fst (remember_namespace S l ns db))"
| works_heartbeat:
    "alone (L 0) \<Longrightarrow> worker_step S ns config D db
       (fst (heartbeat S L ns (worker_id config) job token now (lease_duration config) db))"
| works_reap:
    "alone (L 0) \<Longrightarrow> worker_step S ns config D db (fst (reap_expired S L ns now (concurrency config) db))"
| works_ack:
    "alone (L 0) \<Longrightarrow> c \<in> D \<Longrightarrow> cl_result c = Inr Complete \<Longrightarrow> worker_step S ns config D db
       (fst (ack S L now ns (worker_id config) (cl_job_id c) (cl_lease_token c) db))"
| works_complete:
    "alone (L 0) \<Longrightarrow> c \<in> D \<Longrightarrow> cl_result c = Inr (Reschedule schedule_at) \<Longrightarrow>
     worker_step S ns config D db
       (fst (complete_and_reschedule S L ns (worker_id config) (cl_job_id c) (cl_lease_token c)
         schedule_at now db))"
| works_fail:
    "alone (L 0) \<Longrightarrow> c \<in> D \<Longrightarrow>
     (\<exists>message. cl_result c = Inl message) \<and> action = Action_retryable \<or>
     (\<exists>message. cl_result c = Inr (Fail message)) \<and> action = Action_terminal \<Longrightarrow>
     worker_step S ns config D db
       (fst (fail_or_retry S L ns
         \<lparr>fr_worker_id = worker_id config, fr_job_id = cl_job_id c, fr_lease_token = cl_lease_token c,
          fr_action = action, fr_retry_policy = retry_policy config, fr_now = now\<rparr> db))"

lemma worker_step_queue:
  assumes "safe_int (int (concurrency config))"
  shows "worker_step S ns config D \<le> queue_step S ns idle"
proof (intro predicate2I)
  fix db db'
  assume "worker_step S ns config D db db'"
  then show "queue_step S ns idle db db'"
  proof cases
    case (works_reserve L tokens now)
    then have "safe_int (int (length tokens))" using assms by (simp add: safe_int_def)
    with works_reserve show ?thesis by (auto intro: step_reserve)
  qed (auto intro: queue_step.intros)
qed


section \<open>The worker\<close>

text \<open>The links of an iteration's commands follow the steps of others.\<close>

fun arm_follows :: "('db \<Rightarrow> 'db \<Rightarrow> bool) \<Rightarrow> 'db arm \<Rightarrow> bool" where
  "arm_follows T (Heartbeat_ticked order links now t) = (\<forall>i. calls_follow T (links i))"
| "arm_follows T (Reap_ticked call t) = calls_follow T (sc_links call)"
| "arm_follows T (Reserve_returned call now) = calls_follow T (rc_links call)"
| "arm_follows T arm = True"

definition input_follows :: "('db \<Rightarrow> 'db \<Rightarrow> bool) \<Rightarrow> 'db turn_input \<Rightarrow> bool" where
  "input_follows T inp \<longleftrightarrow>
     (case inp of (pre, dropped, arm) \<Rightarrow>
        (\<forall>i. calls_follow T (sc_links (pi_calls pre i))) \<and>
        pred_option (\<lambda>call. calls_follow T (rc_links call)) dropped \<and> arm_follows T arm)"

lemma input_follows_along: "input_follows U inp \<Longrightarrow> input_follows (along U V) inp"
proof -
  assume inp: "input_follows U inp"
  obtain pre dropped arm where i: "inp = (pre, dropped, arm)" by (metis surj_pair)
  have "arm_follows U arm \<Longrightarrow> arm_follows (along U V) arm"
    by (cases arm) (simp_all add: calls_follow_along)
  then show ?thesis
    using inp i by (cases dropped) (simp_all add: input_follows_def calls_follow_along)
qed

lemma moves_unit: "moves T operation \<Longrightarrow> moves T (io_unit operation)"
  unfolding io_unit_def by (intro moves_rules)

text \<open>The completions a worker holds are results of its handlers.\<close>

definition pending_in :: "completed_lease set \<Rightarrow> worker_state \<Rightarrow> bool" where
  "pending_in D st \<longleftrightarrow> snd ` set (ws_pending st) \<subseteq> D"

lemma pending_in_update:
  assumes "pending_in D st" "c \<in> D"
  shows "pending_in D (st\<lparr>ws_pending := AList.update k c (ws_pending st)\<rparr>)"
proof -
  have "snd ` set (AList.update k c (ws_pending st)) \<subseteq> insert c (snd ` set (ws_pending st))"
    using image_mono [OF set_update_subset [of k c "ws_pending st"], of snd] by simp
  also have "\<dots> \<subseteq> D" using assms by (simp add: pending_in_def)
  finally show ?thesis by (simp add: pending_in_def)
qed

lemma pending_in_delete: "pending_in D st \<Longrightarrow> pending_in D (st\<lparr>ws_pending := AList.delete k (ws_pending st)\<rparr>)"
  using image_mono [OF set_delete_subset [of k "ws_pending st"], of snd] by (auto simp: pending_in_def)

lemma pending_in_cong: "ws_pending st' = ws_pending st \<Longrightarrow> pending_in D st' = pending_in D st"
  by (simp add: pending_in_def)

lemma pending_in_simps [simp]:
  "pending_in D (st\<lparr>ws_backoff_until := b\<rparr>) = pending_in D st"
  "pending_in D (st\<lparr>ws_reserve_sleep := s\<rparr>) = pending_in D st"
  "pending_in D (st\<lparr>ws_reserve_sleep := s, ws_poll_delay := d\<rparr>) = pending_in D st"
  by (simp_all add: pending_in_def)

lemma drain_results:
  assumes "drain_joined_jobs fin st = (st', Ok u)" "pending_in D st"
    and "set (joined_results fin (ws_join_set st)) \<subseteq> D"
  shows "pending_in D st' \<and>
    (\<forall>rest. joined_results (fin @ rest) (ws_join_set st) =
      joined_results fin (ws_join_set st) @ joined_results rest (ws_join_set st'))"
  using assms
proof (induction fin arbitrary: st)
  case (Cons f fin)
  obtain i result where f: "f = (i, result)" by (metis surj_pair)
  obtain st1 r1 where join: "join_task i result st = (st1, r1)" by (metis surj_pair)
  then have "r1 = Ok ()" using Cons.prems(1) f by (cases r1) auto
  then obtain h where h: "result = Returned h" and st1: "st1 = st\<lparr>
      ws_join_set := take i (ws_join_set st) @ drop (Suc i) (ws_join_set st),
      ws_pending := AList.update (lease_key (ws_join_set st ! i))
        \<lparr>cl_job_id = rj_job_id (ws_join_set st ! i), cl_lease_token = rj_lease_token (ws_join_set st ! i),
         cl_result = h\<rparr> (ws_pending st)\<rparr>"
    using join join_Ok by blast
  have rest: "drain_joined_jobs fin st1 = (st', Ok u)" using Cons.prems(1) f join \<open>r1 = Ok ()\<close> by simp
  have "pending_in D st1"
    using pending_in_update [OF Cons.prems(2)] Cons.prems(3) f h
    by (subst pending_in_cong [of _ "st\<lparr>ws_pending := ws_pending st1\<rparr>"]) (simp_all add: st1)
  from Cons.IH [OF rest this] Cons.prems(3) show ?case by (simp add: f h st1)
qed simp

text \<open>What the parts of an iteration leave alone.\<close>

lemma joined_prefix: "set (joined_results fin jobs) \<subseteq> set (joined_results (fin @ rest) jobs)"
  by (induction fin jobs rule: joined_results.induct) auto

lemma resolve_joins:
  "resolve_pending_from W calls i keys st db = (db', st', r) \<Longrightarrow> ws_join_set st' = ws_join_set st"
proof (induction keys arbitrary: i st db)
  case (Cons key keys)
  show ?case
  proof (cases "map_of (ws_pending st) key")
    case None
    with Cons show ?thesis by simp
  next
    case (Some c)
    obtain db1 r1 where call:
      "resolve_completed (wk_store W) (calls i) (wk_namespace W) (wk_config W) c db = (db1, r1)"
      by (metis surj_pair)
    have "ws_join_set st' = ws_join_set st \<or>
        resolve_pending_from W calls (Suc i) keys
          (st\<lparr>ws_pending := AList.delete key (ws_pending st),
              ws_active := AList.delete (completed_attempt_key c) (ws_active st)\<rparr>) db1 = (db', st', r)"
      using Cons.prems Some call by (auto simp: Let_def split: rresult.splits error.splits if_splits)
    then show ?thesis using Cons.IH by fastforce
  qed
qed simp

lemma spawn_pending: "ws_pending (fold spawn_job jobs st) = ws_pending st"
  by (induction jobs arbitrary: st) (simp_all add: spawn_job_def Let_def)

text \<open>Each part of an iteration moves by the steps of the worker, and by those of others.\<close>

lemma moves_resolve:
  assumes T: "worker_step S ns config D \<le> T" and call: "calls_follow T (sc_links call)" and c: "c \<in> D"
  shows "moves T (resolve_completed (redis_queue_store S) call ns config c)"
proof -
  note into = predicate2D [OF T]
  note links = calls_followD [OF call]
  show ?thesis
  proof (cases "cl_result c")
    case (Inl message)
    then show ?thesis
      unfolding resolve_completed_def worker_failure_def
      by (auto intro!: moves_unit moves_single(6) links into works_fail c)
  next
    case (Inr outcome)
    then show ?thesis
      unfolding resolve_completed_def worker_failure_def
      by (cases outcome)
         (auto intro!: moves_unit moves_single(4,5,6) links into works_ack works_complete works_fail c)
  qed
qed

lemma resolve_pending_moves:
  assumes W: "wk_store W = redis_queue_store S" "wk_namespace W = ns" "wk_config W = config"
    and T: "worker_step S ns config D \<le> T"
    and calls: "\<forall>i. calls_follow T (sc_links (calls i))" and st: "pending_in D st"
    and run: "resolve_pending_from W calls i keys st db = (db', st', r)"
  shows "T\<^sup>*\<^sup>* db db' \<and> pending_in D st'"
  using st run
proof (induction keys arbitrary: i st db)
  case (Cons key keys)
  show ?case
  proof (cases "map_of (ws_pending st) key")
    case None
    with Cons show ?thesis by simp
  next
    case (Some c)
    have c: "c \<in> D"
      using Cons.prems(1) imageI [OF map_of_SomeD [OF Some], of snd] by (auto simp: pending_in_def)
    obtain db1 r1 where call:
      "resolve_completed (wk_store W) (calls i) (wk_namespace W) (wk_config W) c db = (db1, r1)"
      by (metis surj_pair)
    have step: "T\<^sup>*\<^sup>* db db1"
      using movesD [OF moves_resolve [OF T spec [OF calls, of i] c], of db] call by (simp add: W)
    let ?taken = "st\<lparr>ws_pending := AList.delete key (ws_pending st)\<rparr>"
    let ?dropped = "?taken\<lparr>ws_active := AList.delete (completed_attempt_key c) (ws_active st)\<rparr>"
    have taken: "pending_in D ?taken" "pending_in D ?dropped"
      using pending_in_delete [OF Cons.prems(1), of key] by (simp_all add: pending_in_def)
    have "db' = db1 \<and> pending_in D st' \<or>
        resolve_pending_from W calls (Suc i) keys ?dropped db1 = (db', st', r)"
      using Cons.prems(2) Some call taken(1)
        pending_in_update [OF taken(1) c, of "completed_attempt_key c"]
      by (auto simp: Let_def split: rresult.splits error.splits if_splits)
    then show ?thesis using step Cons.IH [OF taken(2)] by (auto intro: rtranclp_trans)
  qed
qed simp

lemma heartbeat_round_moves:
  assumes T: "worker_step S ns config D \<le> T" and links: "\<forall>i. calls_follow T (links i)"
    and run: "heartbeat_from (redis_queue_store S) links ns config now i ls leases db = (db', leases', r)"
  shows "T\<^sup>*\<^sup>* db db'"
  using run
proof (induction ls arbitrary: i leases db)
  case (Cons l ls)
  obtain db1 r1 where call: "heartbeat S (links i) ns (worker_id config) (al_job_id l)
      (al_lease_token l) now (lease_duration config) db = (db1, r1)" by (metis surj_pair)
  have "moves T (heartbeat S (links i) ns (worker_id config) (al_job_id l)
      (al_lease_token l) now (lease_duration config))"
    using links by (intro moves_single(7) predicate2D [OF T] works_heartbeat) (simp_all add: calls_followD)
  from movesD [OF this, of db] have step: "T\<^sup>*\<^sup>* db db1" by (simp add: call)
  have "db' = db1 \<or>
      (\<exists>leases1. heartbeat_from (redis_queue_store S) links ns config now (Suc i) ls leases1 db1 = (db', leases', r))"
    using Cons.prems call by (auto split: rresult.splits error.splits)
  then show ?case using step Cons.IH by (auto intro: rtranclp_trans)
qed simp

lemma moves_reserve_jobs:
  assumes W: "wk_store W = redis_queue_store S" "wk_namespace W = ns" "wk_config W = config"
    and T: "worker_step S ns config D \<le> T" and call: "calls_follow T (rc_links call)"
  shows "moves T (reserve_jobs W call st)"
proof -
  let ?tokens = "new_lease_tokens (rc_uuid call) (free_capacity config st)"
  have n: "length ?tokens = free_capacity config st" by (simp add: new_lease_tokens_def)
  then have few: "length ?tokens \<le> concurrency config" by (simp add: free_capacity_def)
  have "moves T (reserve S (rc_links call) ns config (length ?tokens) (rc_now call) ?tokens)"
    by (intro moves_reserve predicate2D [OF T] works_reserve works_remember few)
       (simp_all add: calls_followD [OF call])
  then show ?thesis by (simp add: reserve_jobs_def Let_def W n)
qed

lemma before_select_moves:
  assumes W: "wk_store W = redis_queue_store S" "wk_namespace W = ns" "wk_config W = config"
    and T: "worker_step S ns config D \<le> T"
    and calls: "\<forall>i. calls_follow T (sc_links (pi_calls pre i))" and st: "pending_in D st"
    and D: "set (joined_results (pi_finished pre @ rest) (ws_join_set st)) \<subseteq> D"
    and run: "before_select W pre st db = (db', st', r)"
  shows "T\<^sup>*\<^sup>* db db' \<and> (r = Ok () \<longrightarrow> pending_in D st' \<and> set (joined_results rest (ws_join_set st')) \<subseteq> D)"
proof -
  obtain st1 r1 where drain: "drain_joined_jobs (pi_finished pre) st = (st1, r1)" by (metis surj_pair)
  show ?thesis
  proof (cases r1)
    case (Ok u)
    let ?st2 = "clear_backoff (pi_instant pre) st1"
    have "set (joined_results (pi_finished pre) (ws_join_set st)) \<subseteq> D"
      using D joined_prefix by blast
    note drained = drain_results [OF drain [unfolded Ok] st this]
    have st2: "pending_in D ?st2" "set (joined_results rest (ws_join_set ?st2)) \<subseteq> D"
      using drained D by (simp_all add: clear_backoff_def pending_in_def)
    obtain db3 st3 r3 where resolve:
      "resolve_pending_from W (pi_calls pre) 0 (pi_order pre) ?st2 db = (db3, st3, r3)" by (metis surj_pair)
    note moved = resolve_pending_moves [OF W T calls st2(1) resolve]
    have "(db' = db \<and> st' = ?st2) \<or> (db' = db3 \<and> ws_pending st' = ws_pending st3 \<and> ws_join_set st' = ws_join_set st3)"
      using run drain Ok resolve
      by (auto simp: before_select_def resolve_unless_backing_off_def split: rresult.splits if_splits)
    then show ?thesis
    proof
      assume same: "db' = db \<and> st' = ?st2"
      then show ?thesis using st2 by simp
    next
      assume same: "db' = db3 \<and> ws_pending st' = ws_pending st3 \<and> ws_join_set st' = ws_join_set st3"
      then have "pending_in D st'" using moved pending_in_cong [of st' st3] by simp
      then show ?thesis using same moved st2(2) resolve_joins [OF resolve] by simp
    qed
  qed (use run drain in \<open>auto simp: before_select_def\<close>)
qed

lemma take_arm_moves:
  assumes W: "wk_store W = redis_queue_store S" "wk_namespace W = ns" "wk_config W = config"
    and T: "worker_step S ns config D \<le> T" and arm: "arm_follows T arm" and st: "pending_in D st"
    and D: "set (joined_results (arm_joins arm) (ws_join_set st)) \<subseteq> D"
    and run: "take_arm W arm st db = (db', st', r)"
  shows "T\<^sup>*\<^sup>* db db' \<and> (r = Ok () \<longrightarrow> pending_in D st')"
proof (cases arm)
  case (Task_joined i result)
  then have join: "join_task i result st = (st', r)" "db' = db" using run by (auto split: prod.splits)
  show ?thesis
  proof (cases r)
    case (Ok u)
    then have "drain_joined_jobs [(i, result)] st = (st', Ok u)" using join(1) by simp
    moreover have "set (joined_results [(i, result)] (ws_join_set st)) \<subseteq> D" using D Task_joined by simp
    ultimately have "pending_in D st'" by (rule drain_results [OF _ st, THEN conjunct1])
    then show ?thesis by (simp add: join(2))
  qed (simp_all add: join(2))
next
  case (Heartbeat_ticked order links now t)
  obtain db1 leases r1 where beat: "heartbeat_active (wk_store W) links (wk_namespace W) (wk_config W)
      now order (ws_active st) db = (db1, leases, r1)" by (metis surj_pair)
  have "db' = db1 \<and> ws_pending st' = ws_pending st"
    using run Heartbeat_ticked beat by (auto simp: back_off_def split: rresult.splits)
  then show ?thesis
    using heartbeat_round_moves [OF T] beat arm Heartbeat_ticked st
    by (auto simp: heartbeat_active_def W pending_in_def)
next
  case (Reap_ticked call t)
  let ?reap = "reap_expired S (sc_links call) ns (sc_now call) (concurrency config)"
  obtain db1 r1 where reap: "io_unit ?reap db = (db1, r1)" by (metis surj_pair)
  have "moves T (io_unit ?reap)"
    using arm Reap_ticked
    by (intro moves_unit moves_single(8) predicate2D [OF T] works_reap) (simp_all add: calls_followD)
  from movesD [OF this, of db] have "T\<^sup>*\<^sup>* db db1" by (simp add: reap)
  moreover have "db' = db1 \<and> ws_pending st' = ws_pending st"
    using run Reap_ticked reap by (auto simp: back_off_def W split: rresult.splits)
  ultimately show ?thesis using st by (simp add: pending_in_def)
next
  case (Reserve_returned call now)
  have "db' = fst (reserve_jobs W call st db)"
    using run Reserve_returned
    by (auto simp: reserve_arm_def Let_def split: prod.splits rresult.splits if_splits)
  moreover have "ws_pending st' = ws_pending st"
    using run Reserve_returned
    by (auto simp: reserve_arm_def Let_def spawn_pending split: prod.splits rresult.splits if_splits)
  ultimately show ?thesis
    using movesD [OF moves_reserve_jobs [OF W T]] arm Reserve_returned st
    by (simp add: pending_in_def)
qed (use run st in \<open>auto split: prod.splits option.splits if_splits\<close>)

lemma iteration_moves:
  assumes W: "wk_store W = redis_queue_store S" "wk_namespace W = ns" "wk_config W = config"
    and T: "worker_step S ns config D \<le> T" and inp: "input_follows T inp" and st: "pending_in D st"
    and D: "turn_results inp (ws_join_set st) \<subseteq> D" and run: "iteration W inp st db = (db', st', r)"
  shows "T\<^sup>*\<^sup>* db db' \<and> (r = Ok () \<longrightarrow> pending_in D st')"
proof -
  obtain pre dropped arm where i: "inp = (pre, dropped, arm)" by (metis surj_pair)
  obtain db1 st1 r1 where before: "before_select W pre st db = (db1, st1, r1)" by (metis surj_pair)
  have first: "T\<^sup>*\<^sup>* db db1 \<and> (r1 = Ok () \<longrightarrow> pending_in D st1 \<and>
      set (joined_results (arm_joins arm) (ws_join_set st1)) \<subseteq> D)"
    using before_select_moves [OF W T _ st _ before] inp i D by (simp add: input_follows_def turn_results_def)
  show ?thesis
  proof (cases r1)
    case (Ok u)
    let ?db2 = "drop_reserve W dropped st1 db1"
    have second: "T\<^sup>*\<^sup>* db1 ?db2"
      using movesD [OF moves_reserve_jobs [OF W T]] inp i
      by (cases dropped) (simp_all add: drop_reserve_def input_follows_def)
    have "arm_follows T arm" "take_arm W arm st1 ?db2 = (db', st', r)"
      using run before i Ok inp by (simp_all add: iteration_def input_follows_def)
    from take_arm_moves [OF W T this(1) _ _ this(2)] first second Ok show ?thesis
      by (auto intro: rtranclp_trans)
  qed (use run before i first in \<open>auto simp: iteration_def\<close>)
qed

lemma run_loop_moves:
  assumes W: "wk_store W = redis_queue_store S" "wk_namespace W = ns" "wk_config W = config"
    and T: "worker_step S ns config D \<le> T" and inps: "\<forall>inp \<in> set inps. input_follows T inp"
    and st: "pending_in D st" and D: "handler_results W inps st db \<subseteq> D"
    and run: "run_loop W inps st db = (db', st', r)"
  shows "T\<^sup>*\<^sup>* db db'"
  using inps st D run
proof (induction inps arbitrary: st db)
  case (Cons inp inps)
  obtain db1 st1 r1 where iter: "iteration W inp st db = (db1, st1, r1)" by (metis surj_pair)
  have D: "turn_results inp (ws_join_set st) \<subseteq> D" using Cons.prems(3) by simp
  note step = iteration_moves [OF W T _ Cons.prems(2) D iter]
  show ?case
  proof (cases r1)
    case (Ok u)
    then have "T\<^sup>*\<^sup>* db1 db'"
      using Cons.IH [of st1 db1] Cons.prems iter step by simp
    with step Cons.prems(1) show ?thesis by (auto intro: rtranclp_trans)
  qed (use Cons.prems iter step in auto)
qed simp

lemma run_internal_moves:
  assumes W: "wk_store W = redis_queue_store S" "wk_namespace W = ns" "wk_config W = config"
    and T: "worker_step S ns config (handler_results W inps (initial_state config) db) \<le> T"
    and inps: "\<forall>inp \<in> set inps. input_follows T inp"
    and run: "run_internal W inps db = (db', st', r)"
  shows "T\<^sup>*\<^sup>* db db'"
proof -
  have st: "pending_in D (initial_state config)" for D by (simp add: pending_in_def initial_state_def)
  show ?thesis
    using run run_loop_moves [OF W T inps st order_refl] W
    by (auto simp: run_internal_def split: rresult.splits)
qed

text \<open>With only steps of the queue in between, a worker takes only steps of the queue.\<close>

lemma run_internal_steps:
  assumes "wk_store W = redis_queue_store S" "wk_namespace W = ns"
    and "safe_int (int (concurrency (wk_config W)))"
    and "\<forall>inp \<in> set inps. input_follows (queue_step S ns idle) inp"
    and "run_internal W inps db = (db', st', r)"
  shows "(queue_step S ns idle)\<^sup>*\<^sup>* db db'"
  by (rule run_internal_moves [OF assms(1,2) refl worker_step_queue [OF assms(3)] assms(4,5)])

end
