(* ===== verification/Completion.thy ===== *)
theory Completion
  imports Worker_Queue
begin

text \<open>
  The end of a run in the queue: what storing a completion does to its job, whichever script the
  outcome of the handler selects, and whatever becomes of the command on its way.
\<close>

section \<open>The end of a run\<close>

text \<open>The job after its run, and when the queue can store it exactly.\<close>

definition ended_run ::
    "'db redis_store \<Rightarrow> worker_config \<Rightarrow> 'db store_call \<Rightarrow> handled \<Rightarrow> job \<Rightarrow> job" where
  "ended_run S config call result x =
     (let now = dbl (micros (chrono S) (sc_now call))
      in case result of
           Inr Complete \<Rightarrow>
             fresh (if again x then At_ready (dbl (micros (chrono S) (sc_system_now call))) else Absent)
         | Inr (Reschedule schedule_at) \<Rightarrow>
             fresh (if again x then At_ready now
                    else target now (dbl (schedule_micros (chrono S) schedule_at)))
         | Inr (Fail _) \<Rightarrow> failed_job now Action_terminal (retry_policy config) x
         | Inl _ \<Rightarrow> failed_job now Action_retryable (retry_policy config) x)"

definition storable :: "job \<Rightarrow> bool" where
  "storable x \<longleftrightarrow> fails x < 2 ^ 32 \<and> readable_placement (place x)"

lemma ended_run_place: "ended_run S config call result (x\<lparr>place := p\<rparr>) = ended_run S config call result x"
  by (simp add: ended_run_def failed_job_def cong: sum.case_cong job_outcome.case_cong)

lemma after_delay_not_leased: "\<not> leased_to (after_delay now delay) w t"
  by (simp add: after_delay_def)

lemma failure_placement_not_leased: "\<not> leased_to (failure_placement now n action policy) w t"
  by (cases action; cases policy)
     (simp_all add: failure_placement_def after_delay_not_leased)

lemma ended_run_not_leased: "\<not> leased_to (place (ended_run S config call result x)) w t"
  by (auto simp: ended_run_def failed_job_def failure_placement_not_leased target_def Let_def
      split: sum.splits job_outcome.splits)


section \<open>The commands of a completion\<close>

text \<open>Dropping the value of an answer.\<close>

lemma applies_io_unit:
  "applies S operation ns l J db J' r (op db) \<Longrightarrow>
   applies S operation ns l J db J' (map_ok (\<lambda>_. ()) r) (io_unit op db)"
  by (cases "op db"; cases "snd (op db)") (auto simp: applies_def io_unit_def io_bind_def)

text \<open>
  A completion ends the run if the worker still holds the lease and is refused otherwise; when its
  answer is lost the server has done this once or not at all.
\<close>

lemma completion_applies:
  assumes S: "good_store S" and J: "stored S ns (others (sc_links call 0) db) J"
    and c: "j = cl_job_id c" "tok = cl_lease_token c" "x = ended_run S config call (cl_result c) (J j)"
    and held: "holds = leased_to (place (J j)) (worker_id config) tok"
    and storable: "holds \<Longrightarrow> storable x"
  shows "\<exists>operation. applies S operation ns (sc_links call 0) J db (J(j := if holds then x else J j))
    (if holds then Ok () else Err (LeaseMismatch j))
    (resolve_completed (redis_queue_store S) call ns config c db)"
proof -
  let ?w = "worker_id config"
  have failed: ?thesis if action: "cl_result c = Inl e \<and> action = Action_retryable \<or>
      cl_result c = Inr (Fail f) \<and> action = Action_terminal" for action e f
  proof -
    let ?request = "worker_failure config c action (sc_now call)"
    have x: "x = failed_job (dbl (micros (chrono S) (fr_now ?request))) (fr_action ?request)
        (fr_retry_policy ?request) (J j)"
      using action by (auto simp: c(3) ended_run_def worker_failure_def)
    have request: "j = fr_job_id ?request" "?w = fr_worker_id ?request" "tok = fr_lease_token ?request"
      by (simp_all add: worker_failure_def c)
    have "applies S ''fail_or_retry'' ns (sc_links call 0) J db (J(j := if holds then x else J j))
        (if holds then Ok (fails x) else Err (LeaseMismatch j))
        (fail_or_retry S (sc_links call) ns ?request db)"
      unfolding held
      by (rule fail_applies_held [where L = "sc_links call" and db = db, OF S J request refl x])
         (use storable in \<open>simp add: held storable_def\<close>)
    from applies_io_unit [where op = "fail_or_retry S (sc_links call) ns ?request", OF this] show ?thesis
      using action by (intro exI [of _ "''fail_or_retry''"]) (auto simp: resolve_completed_def split: if_splits)
  qed
  show ?thesis
  proof (cases "cl_result c")
    case (Inl e)
    then show ?thesis using failed by blast
  next
    case (Inr outcome)
    show ?thesis
    proof (cases outcome)
      case Complete
      have "fst (ack_spec ?w tok (dbl (micros (chrono S) (sc_system_now call))) (J j)) =
          (if holds then x else J j)"
        by (simp add: ack_spec_def held c(3) ended_run_def Inr Complete)
      with ack_applies [where L = "sc_links call" and db = db and j = j and w = ?w and t = tok
          and now = "sc_system_now call", OF S J] Inr Complete
      show ?thesis
        by (intro exI [of _ "''ack''"]) (simp add: resolve_completed_def lease_result_def held c(1,2) cong: if_cong)
    next
      case (Reschedule schedule_at)
      have "fst (complete_spec ?w tok (dbl (micros (chrono S) (sc_now call)))
          (dbl (schedule_micros (chrono S) schedule_at)) (J j)) = (if holds then x else J j)"
        by (auto simp: complete_spec_def held c(3) ended_run_def target_def Let_def Inr Reschedule)
      with complete_applies [where L = "sc_links call" and db = db and j = j and w = ?w and t = tok
          and now = "sc_now call" and schedule_at = schedule_at, OF S J] Inr Reschedule
      show ?thesis
        by (intro exI [of _ "''complete_and_reschedule''"])
           (simp add: resolve_completed_def lease_result_def held c(1,2) cong: if_cong)
    next
      case (Fail f)
      then show ?thesis using failed Inr by blast
    qed
  qed
qed

text \<open>Over a network that loses nothing.\<close>

lemma completion_stored:
  assumes "good_store S" and "stored S ns db J"
    and "leased_to (place (J (cl_job_id c))) (worker_id config) (cl_lease_token c)"
    and "storable (ended_run S config call (cl_result c) (J (cl_job_id c)))"
    and "sc_links call = quiet"
  obtains db' where "resolve_completed (redis_queue_store S) call ns config c db = (db', Ok ())"
    and "stored S ns db' (J(cl_job_id c := ended_run S config call (cl_result c) (J (cl_job_id c))))"
proof -
  let ?out = "resolve_completed (redis_queue_store S) call ns config c db"
  have "stored S ns (others (sc_links call 0) db) J" using assms(2,5) by simp
  from completion_applies [OF assms(1) this refl refl refl refl assms(4)] assms(3)
  obtain operation where run: "applies S operation ns (sc_links call 0) J db
      (J(cl_job_id c := ended_run S config call (cl_result c) (J (cl_job_id c)))) (Ok ()) ?out" by auto
  have "delivery (sc_links call 0) = Answered" using assms(5) by simp
  from applies_answered(1,2) [OF run this] that [of "fst ?out"] show thesis
    by (simp add: prod_eq_iff)
qed

text \<open>A completion whose timer fires is to be tried again.\<close>

lemma completion_timed_out:
  assumes "delivery (sc_links call 0) = Timer_fired executed"
  obtains db' operation ms where "resolve_completed (redis_queue_store S) call ns config c db =
    (db', Err (CommandTimedOut operation ms))"
proof -
  have "\<exists>operation ms. snd (resolve_completed (redis_queue_store S) call ns config c db) =
      Err (CommandTimedOut operation ms)"
    using assms
    by (auto simp: resolve_completed_def ack_def complete_and_reschedule_def fail_or_retry_def io_unit_def
        io_bind_def eval_def query_cmd_def Let_def split_def split: sum.splits job_outcome.splits)
  then show thesis using that by (metis prod.collapse)
qed

end
