(* ===== verification/Worker_Round.thy ===== *)
theory Worker_Round
  imports Completion
begin

text \<open>
  A round of a worker from the reserve to the last completion: the leases of the batch become
  tasks, the tasks are joined with whatever their handlers returned, and the completions are stored.
  These lemmas follow the batch through the variables of the loop and through the queue.
\<close>

section \<open>Completed tasks\<close>

definition held_by :: "string \<Rightarrow> reserved_job \<Rightarrow> job \<Rightarrow> bool" where
  "held_by w job x \<longleftrightarrow> leased_to (place x) w (rj_lease_token job)"

definition done_task :: "(string \<Rightarrow> handled) \<Rightarrow> reserved_job \<Rightarrow> completed_lease" where
  "done_task h job =
     \<lparr>cl_job_id = rj_job_id job, cl_lease_token = rj_lease_token job, cl_result = h (rj_job_id job)\<rparr>"

lemma done_task_sel [simp]:
  "cl_job_id (done_task h job) = rj_job_id job" "cl_lease_token (done_task h job) = rj_lease_token job"
  "cl_result (done_task h job) = h (rj_job_id job)" "completed_attempt_key (done_task h job) = lease_key job"
  by (simp_all add: done_task_def completed_attempt_key_def lease_key_def)


section \<open>Tasks of a batch\<close>

lemma lease_key_inj: "lease_key a = lease_key b \<Longrightarrow> rj_job_id a = rj_job_id b"
  by (simp add: lease_key_def lease_attempt_key_new_def)

lemma spawn_all:
  "ws_join_set (fold spawn_job jobs st) = ws_join_set st @ jobs"
  "ws_pending (fold spawn_job jobs st) = ws_pending st"
  "ws_backoff_until (fold spawn_job jobs st) = ws_backoff_until st"
  by (induction jobs arbitrary: st) (simp_all add: spawn_job_def Let_def)

text \<open>All tasks of the join set have returned, in the order in which they were spawned.\<close>

definition returned :: "(string \<Rightarrow> handled) \<Rightarrow> string \<Rightarrow> nat \<times> task_end" where
  "returned h j = (0, Returned (h j))"

lemma drain_done:
  "ws_join_set st = jobs \<Longrightarrow>
   drain_joined_jobs (map (returned h) (map rj_job_id jobs)) st =
     (st\<lparr>ws_join_set := [],
         ws_pending := fold (\<lambda>job. AList.update (lease_key job) (done_task h job)) jobs (ws_pending st)\<rparr>,
      Ok ())"
proof (induction jobs arbitrary: st)
  case Nil
  then show ?case by simp
next
  case (Cons job jobs)
  let ?st = "st\<lparr>ws_join_set := jobs,
    ws_pending := AList.update (lease_key job) (done_task h job) (ws_pending st)\<rparr>"
  have "join_task 0 (Returned (h (rj_job_id job))) st = (?st, Ok ())"
    using Cons.prems
    by (simp add: join_task_def record_join_result_def flip: done_task_def)
  with Cons.IH [of ?st] show ?case by (simp add: returned_def)
qed

lemma pending_done:
  assumes "distinct (map rj_job_id jobs)" "job \<in> set jobs"
  shows "map_of (fold (\<lambda>job. AList.update (lease_key job) (done_task h job)) jobs xs) (lease_key job) =
    Some (done_task h job)"
  using assms
proof (induction jobs arbitrary: xs rule: rev_induct)
  case (snoc x jobs)
  then show ?case
    using lease_key_inj [of job x] by (fastforce simp: AList.update_conv' image_iff)
qed simp


section \<open>Storing the completions\<close>

text \<open>The \<open>k\<close>-th job of the batch is completed with the \<open>k\<close>-th store call.\<close>

fun settled_all ::
    "'db redis_store \<Rightarrow> worker_config \<Rightarrow> (nat \<Rightarrow> 'db store_call) \<Rightarrow> (string \<Rightarrow> handled) \<Rightarrow> nat \<Rightarrow> string list \<Rightarrow>
     (string \<Rightarrow> job) \<Rightarrow> string \<Rightarrow> job" where
  "settled_all S config calls h i [] J = J"
| "settled_all S config calls h i (j # js) J =
     settled_all S config calls h (Suc i) js (J(j := ended_run S config (calls i) (h j) (J j)))"

lemma settled_all_other: "j \<notin> set js \<Longrightarrow> settled_all S config calls h i js J j = J j"
  by (induction js arbitrary: i J) auto

lemma settled_all_nth:
  "distinct js \<Longrightarrow> k < length js \<Longrightarrow>
   settled_all S config calls h i js J (js ! k) = ended_run S config (calls (i + k)) (h (js ! k)) (J (js ! k))"
proof (induction js arbitrary: i J k)
  case (Cons j js)
  then show ?case by (cases k) (auto simp: settled_all_other)
qed simp

lemma resolve_done:
  assumes S: "good_store S" and W: "wk_store W = redis_queue_store S" "wk_namespace W = ns"
    and calls: "\<forall>i. sc_links (calls i) = quiet"
    and jobs: "distinct (map rj_job_id jobs)"
    and pending: "\<forall>job \<in> set jobs. map_of (ws_pending st) (lease_key job) = Some (done_task h job)"
    and held: "\<forall>job \<in> set jobs. held_by (worker_id (wk_config W)) job (J (rj_job_id job))"
    and storable: "\<forall>k < length jobs. storable
      (ended_run S (wk_config W) (calls (i + k)) (h (rj_job_id (jobs ! k))) (J (rj_job_id (jobs ! k))))"
    and J: "stored S ns db J"
    and run: "resolve_pending_from W calls i (map lease_key jobs) st db = (db', st', r)"
  shows "r = Ok False \<and> stored S ns db' (settled_all S (wk_config W) calls h i (map rj_job_id jobs) J)"
  using jobs pending held storable J run
proof (induction jobs arbitrary: i st db J)
  case Nil
  then show ?case by simp
next
  case (Cons job jobs)
  let ?J = "J(rj_job_id job := ended_run S (wk_config W) (calls i) (h (rj_job_id job)) (J (rj_job_id job)))"
  have first: "storable (ended_run S (wk_config W) (calls i) (h (rj_job_id job)) (J (rj_job_id job)))"
    using Cons.prems(4) by auto
  obtain db1 where settle: "resolve_completed (redis_queue_store S) (calls i) ns (wk_config W) (done_task h job) db =
      (db1, Ok ())" and db1: "stored S ns db1 ?J"
    using completion_stored [where call = "calls i" and c = "done_task h job", OF S Cons.prems(5) _ _ calls [rule_format]]
      Cons.prems(3) first by (auto simp: held_by_def)
  define st1 where "st1 = (st\<lparr>ws_pending := AList.delete (lease_key job) (ws_pending st)\<rparr>)
    \<lparr>ws_active := AList.delete (lease_key job) (ws_active st)\<rparr>"
  have rest: "resolve_pending_from W calls (Suc i) (map lease_key jobs) st1 db1 = (db', st', r)"
    using Cons.prems(2,6) settle by (simp add: W st1_def)
  have other: "lease_key x \<noteq> lease_key job \<and> rj_job_id x \<noteq> rj_job_id job" if "x \<in> set jobs" for x
    using Cons.prems(1) that lease_key_inj [of x job] by (force simp: image_iff)
  show ?case
    unfolding list.map settled_all.simps
  proof (rule Cons.IH [OF _ _ _ _ db1 rest])
    show "\<forall>x \<in> set jobs. map_of (ws_pending st1) (lease_key x) = Some (done_task h x)"
      using Cons.prems(2) other by (simp add: st1_def AList.delete_conv')
    show "\<forall>x \<in> set jobs. held_by (worker_id (wk_config W)) x (?J (rj_job_id x))"
      using Cons.prems(3) other by simp
    show "\<forall>k < length jobs. storable
        (ended_run S (wk_config W) (calls (Suc i + k)) (h (rj_job_id (jobs ! k))) (?J (rj_job_id (jobs ! k))))"
      using Cons.prems(4) other by (auto simp: nth_Cons_Suc dest: spec [of _ "Suc _"])
  qed (use Cons.prems(1) in simp)
qed


section \<open>The round\<close>

lemma no_pending [simp]:
  "ws_pending st = [] \<Longrightarrow> resolve_pending_from W calls i keys st db = (db, st, Ok False)"
  by (induction keys arbitrary: i) simp_all

text \<open>
  What one reserve gives a worker that holds nothing, and the state it leaves: a task per lease.
\<close>

lemma reserve_round:
  assumes W: "wk_store W = redis_queue_store S" "wk_namespace W = ns" "wk_config W = config"
    and st: "ws_active st = []" "ws_join_set st = []" "ws_pending st = []" "ws_backoff_until st = None"
    and batch: "reserve S (rc_links call) ns config (concurrency config) (rc_now call)
      (new_lease_tokens (rc_uuid call) (concurrency config)) db = (db', Ok batch)"
    and run: "reserve_arm W call now st db = (db1, st1, r)"
  shows "db1 = db' \<and> r = Ok () \<and> ws_join_set st1 = rb_jobs batch \<and> ws_pending st1 = [] \<and>
    ws_backoff_until st1 = None"
  using run batch
  by (auto simp: reserve_arm_def reserve_jobs_def free_capacity_def W st Let_def spawn_all
      split: if_splits)

text \<open>Draining the tasks of the batch and storing their completions.\<close>

lemma completion_round:
  assumes S: "good_store S" and W: "wk_store W = redis_queue_store S" "wk_namespace W = ns"
    and jobs: "distinct (map rj_job_id jobs)" "ws_join_set st = jobs"
    and st: "ws_pending st = []" "ws_backoff_until st = None"
    and pre: "pi_finished pre = map (returned h) (map rj_job_id jobs)"
      "pi_order pre = map lease_key jobs" "\<forall>i. sc_links (pi_calls pre i) = quiet"
    and held: "\<forall>job \<in> set jobs. held_by (worker_id (wk_config W)) job (J (rj_job_id job))"
    and storable: "\<forall>k < length jobs. storable
      (ended_run S (wk_config W) (pi_calls pre k) (h (rj_job_id (jobs ! k))) (J (rj_job_id (jobs ! k))))"
    and J: "stored S ns db J"
    and run: "before_select W pre st db = (db', st', r)"
  shows "r = Ok () \<and> stored S ns db' (settled_all S (wk_config W) (pi_calls pre) h 0 (map rj_job_id jobs) J)"
proof -
  let ?st = "st\<lparr>ws_join_set := [],
    ws_pending := fold (\<lambda>job. AList.update (lease_key job) (done_task h job)) jobs (ws_pending st)\<rparr>"
  have clear: "clear_backoff (pi_instant pre) ?st = ?st"
    using st by (simp add: clear_backoff_def)
  obtain st2 r2 where resolve: "resolve_pending_from W (pi_calls pre) 0 (map lease_key jobs) ?st db =
      (db', st2, r2)" and r: "r2 = Ok False \<longrightarrow> r = Ok ()"
    using run drain_done [OF jobs(2), of h] clear st pre(1,2)
    by (auto simp: before_select_def resolve_unless_backing_off_def simp del: map_map
        split: prod.splits rresult.splits)
  have "r2 = Ok False \<and> stored S ns db' (settled_all S (wk_config W) (pi_calls pre) h 0 (map rj_job_id jobs) J)"
    by (rule resolve_done [OF S W pre(3) jobs(1) _ held _ J resolve])
       (use pending_done [OF jobs(1)] storable in simp_all)
  with r show ?thesis by simp
qed

text \<open>The whole round in terms of the queue.\<close>

lemma round_of_jobs:
  assumes S: "good_store S" and W: "wk_store W = redis_queue_store S" "wk_namespace W = ns" "wk_config W = config"
    and J: "stored S ns db J"
    and st: "ws_active st = []" "ws_join_set st = []" "ws_pending st = []" "ws_backoff_until st = None"
    and policy: "hget (redis S) db (cfg (store_keys S ns)) ''retry_policy'' \<in>
      {None, Some (retry_policy_key config)}"
    and cap: "0 < concurrency config" "safe_int (int (concurrency config))"
    and now: "now = dbl (micros (chrono S) (rc_now call))"
    and d: "d = dbl (now + dbl (duration_micros (lease_duration config)))" "i64_min \<le> d" "d \<le> i64_max"
    and safe: "\<forall>j s. place (J j) = At_scheduled s \<longrightarrow> safe_int s \<and> s \<noteq> 0"
    and call: "rc_links call = quiet"
    and batch: "jobs = map turn_job (take (concurrency config) (turn_order now J))"
    and reserve: "reserve_arm W call t st db = (db1, st1, r1)"
    and pre: "pi_finished pre = map (returned h) jobs"
      "pi_order pre = map lease_key (ws_join_set st1)" "\<forall>i. sc_links (pi_calls pre i) = quiet"
    and storable: "\<forall>k < length jobs. storable (ended_run S config (pi_calls pre k) (h (jobs ! k)) (J (jobs ! k)))"
    and run: "before_select W pre st1 db1 = (db2, st2, r2)"
  shows "map rj_job_id (ws_join_set st1) = jobs \<and> r1 = Ok () \<and> r2 = Ok () \<and>
    stored S ns db2 (settled_all S config (pi_calls pre) h 0 jobs J)"
proof -
  let ?tokens = "new_lease_tokens (rc_uuid call) (concurrency config)"
  define gs where "gs = zip jobs ?tokens"
  define J' where "J' = lease_all (worker_id config) d gs J"
  have len: "length ?tokens = concurrency config" by (simp add: new_lease_tokens_def)
  have fst_gs: "map fst gs = jobs"
    unfolding gs_def by (rule map_fst_zip_take [THEN trans]) (simp add: batch len)
  have distinct: "distinct jobs"
    using turn_jobs_distinct [OF S J, of now] by (simp add: batch distinct_take flip: take_map)
  obtain db' r where res: "reserve S (rc_links call) ns config (concurrency config) (rc_now call) ?tokens db =
      (db', r)" by (metis surj_pair)
  have quiet: "stored S ns (others (quiet 0) db) J" using J by simp
  have future: "\<forall>s \<in> future_scores (g14 now) J'. safe_int s \<and> s \<noteq> 0"
    using safe lease_all_scheduled [of "worker_id config" d gs J] by (auto simp: future_scores_def J'_def)
  note applied = reserve_applies [where L = quiet and db = db, OF S quiet _ _ _ cap len now d _ J'_def future
      res [unfolded call]]
  have r: "r = Ok (reserved_batch (g14 now) J' gs)" and db': "stored S ns db' J'"
    using applied(1,2) policy by (simp_all add: gs_def batch)
  have first: "db1 = db'" "r1 = Ok ()" "ws_join_set st1 = map (\<lambda>(j, t). \<lparr>rj_job_id = j, rj_lease_token = t\<rparr>) gs"
      "ws_pending st1 = []" "ws_backoff_until st1 = None"
    using reserve_round [OF W st res [unfolded r] reserve] by (simp_all add: reserved_batch_def)
  have ids: "map rj_job_id (ws_join_set st1) = jobs"
    using fst_gs by (simp add: first(3) split_def comp_def)
  have id: "rj_job_id (ws_join_set st1 ! k) = jobs ! k" if "k < length jobs" for k
    using that ids by (metis length_map nth_map)
  have leased: "J' j = (J j)\<lparr>place := At_leased d (worker_id config) tok\<rparr>" if "(j, tok) \<in> set gs" for j tok
    using lease_all_member [OF that] distinct by (simp add: J'_def fst_gs)
  have member: "\<exists>tok. (j, tok) \<in> set gs" if "j \<in> set jobs" for j
    using that fst_gs by force
  have held: "held_by (worker_id config) job (J' (rj_job_id job))" if "job \<in> set (ws_join_set st1)" for job
  proof -
    from that obtain j tok where g: "(j, tok) \<in> set gs" "job = \<lparr>rj_job_id = j, rj_lease_token = tok\<rparr>"
      by (auto simp: first(3))
    then show ?thesis using leased [OF g(1)] g(2) by (simp add: held_by_def)
  qed
  have ended: "ended_run S config c x (J' j) = ended_run S config c x (J j)" if "j \<in> set jobs" for c x j
    using member [OF that] leased ended_run_place by metis
  have "settled_all S config (pi_calls pre) h 0 jobs J' = settled_all S config (pi_calls pre) h 0 jobs J"
  proof
    fix j
    show "settled_all S config (pi_calls pre) h 0 jobs J' j = settled_all S config (pi_calls pre) h 0 jobs J j"
    proof (cases "j \<in> set jobs")
      case True
      then obtain k where "k < length jobs" "j = jobs ! k" by (auto simp: in_set_conv_nth)
      with ended [OF True] show ?thesis by (simp add: settled_all_nth [OF distinct])
    next
      case False
      then show ?thesis using lease_all_other [of j gs] by (simp add: settled_all_other J'_def fst_gs)
    qed
  qed
  moreover have "\<forall>k < length (ws_join_set st1). storable (ended_run S (wk_config W) (pi_calls pre k)
      (h (rj_job_id (ws_join_set st1 ! k))) (J' (rj_job_id (ws_join_set st1 ! k))))"
    using storable id ended ids by (metis W(3) length_map nth_mem)
  ultimately show ?thesis
    using completion_round [where h = h, OF S W(1,2) _ refl first(4,5) _ pre(2,3) _ _ db'] run first(1,2) ids distinct pre(1) held
    by (simp add: W(3))
qed

end
