(* ===== verification/Worker_Properties.thy ===== *)
theory Worker_Properties
  imports Worker_Round Demo
begin

text \<open>
  The properties of the worker on the Redis store, and a worker of the small queue of theory Demo
  on which they are applied.
\<close>

section \<open>A worker of the small queue\<close>

definition demo_worker_handle :: "mem_db worker" where
  "demo_worker_handle =
     \<lparr>wk_namespace = ''mail'', wk_store = redis_queue_store demo_store, wk_config = demo_config\<rparr>"

definition demo_call :: "mem_db store_call" where
  "demo_call = \<lparr>sc_links = quiet, sc_system_now = 700000, sc_now = 700000\<rparr>"

definition demo_pre :: "mem_db prelude_input" where
  "demo_pre =
     \<lparr>pi_finished = [], pi_instant = 0, pi_order = [], pi_calls = (\<lambda>_. demo_call), pi_deadline = (0, 0)\<rparr>"

definition demo_reserve_call :: "mem_db reserve_call" where
  "demo_reserve_call =
     \<lparr>rc_links = quiet, rc_now = 500000, rc_uuid = (\<lambda>i. [''t1'', ''t2''] ! i)\<rparr>"

definition demo_turn :: "mem_db turn_input" where
  "demo_turn = (demo_pre, None, Reserve_returned demo_reserve_call 600000)"

definition demo_lease :: "string \<Rightarrow> string \<Rightarrow> lease_attempt_key \<times> active_lease" where
  "demo_lease job token = (lease_attempt_key_new job token, active_lease_new job token)"

definition demo_working :: worker_state where
  "demo_working =
     \<lparr>ws_join_set = [\<lparr>rj_job_id = ''b'', rj_lease_token = ''t1''\<rparr>,
                     \<lparr>rj_job_id = ''c'', rj_lease_token = ''t2''\<rparr>],
      ws_active = [demo_lease ''b'' ''t1'', demo_lease ''c'' ''t2''], ws_pending = [],
      ws_poll_delay = 1000000, ws_next_schedule_at = None, ws_reserve_sleep = None,
      ws_backoff_until = None\<rparr>"

lemma demo_handle_sel [simp]:
  "wk_namespace demo_worker_handle = ''mail''"
  "wk_store demo_worker_handle = redis_queue_store demo_store"
  "wk_config demo_worker_handle = demo_config"
  by (simp_all add: demo_worker_handle_def)

lemma demo_config_ok [simp]: "config_ok demo_config"
  by (simp add: config_ok_def worker_config_validate_def demo_config_def duration_max_def)

lemma demo_before:
  "before_select demo_worker_handle demo_pre (initial_state demo_config) db =
     (db, initial_state demo_config, Ok ())"
  by (simp add: before_select_def demo_pre_def clear_backoff_def resolve_unless_backing_off_def
      initial_state_def runtime_backoff_ready_def)

lemma demo_possible: "possible demo_worker_handle demo_turn (initial_state demo_config) demo_db"
  by (simp add: possible_def demo_turn_def demo_before)
     (simp add: demo_pre_def initial_state_def traverses_def free_capacity_def fresh_tokens_def
      new_lease_tokens_def demo_config_def demo_reserve_call_def active_keys_def numeral_2_eq_2)

lemma demo_iteration:
  "iteration demo_worker_handle demo_turn (initial_state demo_config) demo_db =
     (fst (reserve demo_store quiet ''mail'' demo_config 2 500000 [''t1'', ''t2''] demo_db),
      demo_working, Ok ())"
proof -
  have tokens: "new_lease_tokens (\<lambda>i. [''t1'', ''t2''] ! i) 2 = [''t1'', ''t2'']"
    by (simp add: new_lease_tokens_def numeral_2_eq_2)
  have "free_capacity demo_config (initial_state demo_config) = 2"
    by (simp add: free_capacity_def demo_config_def initial_state_def)
  then have "reserve_jobs demo_worker_handle demo_reserve_call (initial_state demo_config) demo_db =
      (fst (reserve demo_store quiet ''mail'' demo_config 2 500000 [''t1'', ''t2''] demo_db),
       Ok \<lparr>rb_jobs = [\<lparr>rj_job_id = ''b'', rj_lease_token = ''t1''\<rparr>,
                    \<lparr>rj_job_id = ''c'', rj_lease_token = ''t2''\<rparr>],
         rb_next_schedule_at = None\<rparr>)"
    using demo_reserve by (simp add: reserve_jobs_def demo_reserve_call_def tokens prod_eq_iff)
  then show ?thesis
    by (simp add: iteration_def demo_turn_def demo_before drop_reserve_def reserve_arm_def Let_def)
       (simp add: spawn_job_def Let_def initial_state_def demo_config_def demo_working_def demo_lease_def
        active_attempt_key_def active_lease_new_def lease_attempt_key_new_def)
qed

lemma demo_serving:
  "serving demo_worker_handle demo_working
     (fst (reserve demo_store quiet ''mail'' demo_config 2 500000 [''t1'', ''t2''] demo_db))"
  using serving_turn [OF serving_start, of demo_worker_handle demo_turn demo_db]
    demo_possible demo_iteration by simp


section \<open>The loop\<close>

text \<open>
  C8. Every lease a worker holds is either running or waiting for its completion to be stored, and
  exactly one of the two; it never holds more leases than its concurrency, and its polling delay
  and the sleep before the next reserve stay in the configured range. This holds whatever Redis
  answers and whatever other clients do.
\<close>

theorem worker_accounts:
  assumes "serving W st db" and "wk_store W = redis_queue_store S"
  shows "length (ws_active st) \<le> concurrency (wk_config W) \<and> distinct (map fst (ws_active st)) \<and>
    mset (map fst (ws_active st)) =
      mset (map lease_key (ws_join_set st)) + mset (map fst (ws_pending st)) \<and>
    poll_interval_min (wk_config W) \<le> ws_poll_delay st \<and>
    ws_poll_delay st \<le> poll_interval_max (wk_config W) \<and>
    sleep_for now st \<le> poll_interval_max (wk_config W)"
proof -
  have ok: "worker_ok (wk_config W) st" by (rule redis_store.serving_ok [OF assms])
  then have "sleep_for now st \<le> poll_interval_max (wk_config W)"
    using sleep_duration_le [of now "ws_poll_delay st" "ws_next_schedule_at st"]
    by (auto simp: sleep_for_def worker_ok_def delays_ok_def split: option.splits)
  with ok show ?thesis by (simp add: worker_ok_def accounts_def delays_ok_def active_keys_def)
qed

theorem worker_accounts_witness:
  "length (ws_active demo_working) \<le> concurrency demo_config \<and>
   mset (map fst (ws_active demo_working)) =
     mset (map lease_key (ws_join_set demo_working)) + mset (map fst (ws_pending demo_working))"
  using worker_accounts [OF demo_serving, of demo_store] by simp

text \<open>
  C14. An iteration of the loop never panics and ends the worker only with an error that is neither
  recoverable nor the loss of a lease: timeouts and lost connections only delay it.
\<close>

theorem worker_stops_fatally:
  assumes "serving W st db" and "wk_store W = redis_queue_store S" and "possible W inp st db"
    and "iteration W inp st db = (db', st', r)"
  shows "r = Ok () \<or>
    (\<exists>e. r = Err e \<and> \<not> is_recoverable_worker_runtime e \<and> (\<forall>j. e \<noteq> LeaseMismatch j))"
  using redis_store.iteration_ok [OF assms(2) serving_config [OF assms(1)]
      redis_store.serving_ok [OF assms(1,2)] assms(3,4)]
  by (cases r) (auto simp: fatal_def)

definition demo_crash :: "mem_db turn_input" where
  "demo_crash = (demo_pre, None, Task_joined 1 (Task_lost Join_error))"

theorem worker_stops_fatally_witness:
  "\<exists>e. snd (snd (iteration demo_worker_handle demo_crash demo_working empty_db)) = Err e \<and>
     \<not> is_recoverable_worker_runtime e"
proof -
  have before: "before_select demo_worker_handle demo_pre demo_working empty_db = (empty_db, demo_working, Ok ())"
    by (simp add: before_select_def demo_pre_def clear_backoff_def resolve_unless_backing_off_def
        demo_working_def runtime_backoff_ready_def)
  have possible: "possible demo_worker_handle demo_crash demo_working empty_db"
    by (simp add: possible_def demo_crash_def before)
       (simp add: demo_pre_def demo_working_def traverses_def)
  have "snd (snd (iteration demo_worker_handle demo_crash demo_working empty_db)) = Err (WorkerTaskJoin Join_error)"
    by (simp add: iteration_def demo_crash_def before drop_reserve_def)
       (simp add: join_task_def record_join_result_def demo_working_def)
  then show ?thesis
    using worker_stops_fatally [OF serving_others [OF demo_serving] _ possible, of demo_store]
    by (metis demo_handle_sel(2) prod.collapse rresult.distinct(1))
qed

text \<open>
  C15. A worker lets go of a lease only when the store has answered the completion of that lease.
  When an iteration has dropped the lease with some key, then a completion with that key was pending
  after the finished tasks were joined, the result of its handler; its turn came in the order, all
  calls before it had been answered; and its own call, on the database these had left, was answered
  with success or with the loss of this lease. As long as a completion times out or the connection
  fails, its lease stays in hand.
\<close>

theorem lease_kept_until_settled:
  assumes "serving W st db" and "wk_store W = redis_queue_store S" and "possible W (pre, dropped, arm) st db"
    and "iteration W (pre, dropped, arm) st db = (db', st', Ok ())"
    and "key \<in> set (map fst (ws_active st))" and "key \<notin> set (map fst (ws_active st'))"
    and "st1 = clear_backoff (pi_instant pre) (fst (drain_joined_jobs (pi_finished pre) st))"
  shows "\<exists>n c dbn stn. n < length (pi_order pre) \<and> pi_order pre ! n = key \<and>
    map_of (ws_pending st1) key = Some c \<and>
    c \<in> snd ` set (ws_pending st) \<union> set (joined_results (pi_finished pre) (ws_join_set st)) \<and>
    resolve_pending_from W (pi_calls pre) 0 (take n (pi_order pre)) st1 db = (dbn, stn, Ok False) \<and>
    snd (resolve_completed (redis_queue_store S) (pi_calls pre n) (wk_namespace W) (wk_config W) c dbn) \<in>
      {Ok (), Err (LeaseMismatch (cl_job_id c))}"
proof -
  obtain dba sta ra where before: "before_select W pre st db = (dba, sta, ra)" by (metis surj_pair)
  have ra: "ra = Ok ()" using assms(4) before by (cases ra) (auto simp: iteration_def)
  have st: "worker_ok (wk_config W) st" by (rule redis_store.serving_ok [OF assms(1,2)])
  have fin: "can_finish (pi_finished pre) (length (ws_join_set st))"
    using assms(3) by (simp add: possible_def)
  have sta: "worker_ok (wk_config W) sta"
    using redis_store.before_select_ok [OF assms(2) st fin before] ra by simp
  have arm: "take_arm W arm sta (drop_reserve W dropped sta dba) = (db', st', Ok ())"
    using assms(4) before ra by (simp add: iteration_def)
  have key: "key \<in> set (active_keys st)" "key \<notin> set (active_keys sta)"
    using redis_store.take_arm_keys [OF assms(2) worker_ok_accounts [OF sta] arm] assms(5,6)
    by (auto simp: active_keys_def)
  obtain n c dbn where turn: "settled_in_turn W (pi_calls pre) 0 (pi_order pre) st1 db key n c dbn"
    using redis_store.before_select_keys [OF assms(2) worker_ok_accounts [OF st] fin before [unfolded ra] key assms(7)]
    by blast
  let ?r = "snd (resolve_completed (redis_queue_store S) (pi_calls pre n) (wk_namespace W) (wk_config W) c dbn)"
  have "?r \<in> {Ok (), Err (LeaseMismatch (cl_job_id c))}"
    using turn redis_store.resolve_completed_outcome [where c = c and db = dbn]
    by (auto simp: settled_in_turn_def settles_def lease_outcome_def assms(2))
  moreover have "c \<in> snd ` set (ws_pending st) \<union> set (joined_results (pi_finished pre) (ws_join_set st))"
  proof -
    obtain st0 r0 where drain: "drain_joined_jobs (pi_finished pre) st = (st0, r0)" by (metis surj_pair)
    have "r0 = Ok ()" using before ra drain by (cases r0) (auto simp: before_select_def)
    then have "pending_in (snd ` set (ws_pending st) \<union> set (joined_results (pi_finished pre) (ws_join_set st))) st0"
      using drain_results [of "pi_finished pre" st st0 "()"] drain by (simp add: pending_in_def)
    moreover have "c \<in> snd ` set (ws_pending st0)"
    proof -
      have "(key, c) \<in> set (ws_pending st1)" using turn by (simp add: settled_in_turn_def map_of_SomeD)
      then show ?thesis by (force simp: assms(7) drain clear_backoff_def split: if_splits)
    qed
    ultimately show ?thesis by (auto simp: pending_in_def)
  qed
  ultimately show ?thesis using turn unfolding settled_in_turn_def by blast
qed

definition demo_done :: "mem_db turn_input" where
  "demo_done =
     (demo_pre\<lparr>pi_finished := [(0, Returned (Inr Complete))],
               pi_order := [lease_attempt_key_new ''b'' ''t1'']\<rparr>,
      None, Task_joined 0 (Returned (Inr Complete)))"

lemma demo_ack_lost:
  "ack demo_store quiet 700000 ''mail'' ''v'' ''b'' ''t1'' empty_db =
     (fst (ack demo_store quiet 700000 ''mail'' ''v'' ''b'' ''t1'' empty_db), Err (LeaseMismatch ''b''))"
proof -
  have stored: "stored demo_store ''mail'' (others (quiet 0) empty_db) (\<lambda>_. fresh Absent)"
    using unused_stored(1) [OF empty_unused] by simp
  note run = ack_applies [where L = quiet and db = empty_db, OF demo_good stored,
      of "''b''" "''v''" "''t1''" 700000]
  have "snd (ack demo_store quiet 700000 ''mail'' ''v'' ''b'' ''t1'' empty_db) = Err (LeaseMismatch ''b'')"
    using applies_answered(1) [OF run] by (simp add: lease_result_def)
  then show ?thesis by (metis prod.collapse)
qed

definition demo_half :: worker_state where
  "demo_half =
     demo_working\<lparr>ws_join_set := [\<lparr>rj_job_id = ''c'', rj_lease_token = ''t2''\<rparr>],
                  ws_active := [demo_lease ''c'' ''t2'']\<rparr>"

lemma demo_done_before:
  "before_select demo_worker_handle (fst demo_done) demo_working empty_db =
     (fst (ack demo_store quiet 700000 ''mail'' ''v'' ''b'' ''t1'' empty_db), demo_half, Ok ())"
proof -
  have "resolve_completed (redis_queue_store demo_store) demo_call ''mail'' demo_config
      \<lparr>cl_job_id = ''b'', cl_lease_token = ''t1'', cl_result = Inr Complete\<rparr> empty_db =
    (fst (ack demo_store quiet 700000 ''mail'' ''v'' ''b'' ''t1'' empty_db), Err (LeaseMismatch ''b''))"
    using demo_ack_lost by (simp add: resolve_completed_def demo_call_def demo_worker)
  then show ?thesis
    by (simp add: before_select_def demo_done_def demo_pre_def demo_working_def demo_half_def
        join_task_def record_join_result_def completed_attempt_key_def clear_backoff_def
        runtime_backoff_ready_def resolve_unless_backing_off_def demo_lease_def
        lease_attempt_key_new_def active_lease_new_def)
qed

theorem lease_kept_until_settled_witness:
  "\<exists>c dbn stn. map_of (ws_pending (fst (drain_joined_jobs [(0, Returned (Inr Complete))] demo_working)))
       (lease_attempt_key_new ''b'' ''t1'') = Some c \<and> cl_result c = Inr Complete \<and>
     resolve_pending_from demo_worker_handle (\<lambda>_. demo_call) 0 [] (fst (drain_joined_jobs
       [(0, Returned (Inr Complete))] demo_working)) empty_db = (dbn, stn, Ok False) \<and>
     snd (ack demo_store quiet 700000 ''mail'' ''v'' ''b'' ''t1'' dbn) \<in> {Ok (), Err (LeaseMismatch ''b'')}"
proof -
  let ?db = "fst (ack demo_store quiet 700000 ''mail'' ''v'' ''b'' ''t1'' empty_db)"
  obtain pre dropped arm where inp: "demo_done = (pre, dropped, arm)" by (metis surj_pair)
  then have pre: "pi_finished pre = [(0, Returned (Inr Complete))]" "pi_instant pre = 0"
    "pi_order pre = [lease_attempt_key_new ''b'' ''t1'']" "pi_calls pre = (\<lambda>_. demo_call)"
    by (auto simp: demo_done_def demo_pre_def)
  have possible: "possible demo_worker_handle (pre, dropped, arm) demo_working empty_db"
    using demo_done_before unfolding inp [symmetric]
    by (simp add: possible_def demo_done_def)
       (simp add: demo_working_def traverses_def join_task_def record_join_result_def
        completed_attempt_key_def lease_attempt_key_new_def demo_half_def)
  obtain st where run: "iteration demo_worker_handle (pre, dropped, arm) demo_working empty_db = (?db, st, Ok ())"
    and st: "ws_active st = [demo_lease ''c'' ''t2'']"
    using demo_done_before unfolding inp [symmetric]
    by (simp add: iteration_def demo_done_def drop_reserve_def)
       (simp add: join_task_def record_join_result_def demo_half_def)
  have held: "lease_attempt_key_new ''b'' ''t1'' \<in> set (map fst (ws_active demo_working))"
    by (simp add: demo_working_def demo_lease_def)
  have gone: "lease_attempt_key_new ''b'' ''t1'' \<notin> set (map fst (ws_active st))"
    by (simp add: st demo_lease_def lease_attempt_key_new_def)
  let ?st1 = "fst (drain_joined_jobs [(0, Returned (Inr Complete))] demo_working)"
  have st1: "?st1 = clear_backoff (pi_instant pre) (fst (drain_joined_jobs (pi_finished pre) demo_working))"
    unfolding pre by (simp add: demo_working_def join_task_def record_join_result_def clear_backoff_def)
  have c: "map_of (ws_pending ?st1) (lease_attempt_key_new ''b'' ''t1'') =
      Some \<lparr>cl_job_id = ''b'', cl_lease_token = ''t1'', cl_result = Inr Complete\<rparr>"
    by (simp add: demo_working_def join_task_def record_join_result_def completed_attempt_key_def)
  have ack: "resolve_completed (redis_queue_store demo_store) demo_call ''mail'' demo_config
      \<lparr>cl_job_id = ''b'', cl_lease_token = ''t1'', cl_result = Inr Complete\<rparr> =
    ack demo_store quiet 700000 ''mail'' ''v'' ''b'' ''t1''"
    by (simp add: resolve_completed_def demo_call_def demo_worker)
  from lease_kept_until_settled [OF serving_others [OF demo_serving] demo_handle_sel(2) possible run held gone st1]
  obtain n c' dbn stn where "n < 1" "c' = \<lparr>cl_job_id = ''b'', cl_lease_token = ''t1'', cl_result = Inr Complete\<rparr>"
    "resolve_pending_from demo_worker_handle (\<lambda>_. demo_call) 0 (take n [lease_attempt_key_new ''b'' ''t1''])
       ?st1 empty_db = (dbn, stn, Ok False)"
    "snd (resolve_completed (redis_queue_store demo_store) demo_call ''mail'' demo_config c' dbn)
       \<in> {Ok (), Err (LeaseMismatch (cl_job_id c'))}"
    unfolding pre demo_handle_sel c by auto
  note result = this
  have "n = 0" using result(1) by simp
  have "map_of (ws_pending ?st1) (lease_attempt_key_new ''b'' ''t1'') = Some c'" "cl_result c' = Inr Complete"
    using c result(2) by simp_all
  moreover have "resolve_pending_from demo_worker_handle (\<lambda>_. demo_call) 0 [] ?st1 empty_db = (dbn, stn, Ok False)"
    using result(3) \<open>n = 0\<close> by (simp only: take_0)
  moreover have "snd (ack demo_store quiet 700000 ''mail'' ''v'' ''b'' ''t1'' dbn) \<in> {Ok (), Err (LeaseMismatch ''b'')}"
    using result(4) by (simp add: result(2) ack)
  ultimately show ?thesis by blast
qed

text \<open>
  C28. A round of heartbeats calls the store for the leases whose heartbeat is on and switches it
  off only for leases the store says are lost; it never removes a lease, and the error it returns
  is never the loss of a lease.
\<close>

theorem heartbeat_round:
  assumes "\<forall>(k, l) \<in> set leases. active_attempt_key l = k"
    and "heartbeat_active (redis_queue_store S) links ns config now order leases db = (db', leases', r)"
  shows "map fst leases' = map fst leases \<and> r \<noteq> Panic \<and> (\<forall>j. r \<noteq> Err (LeaseMismatch j)) \<and>
    list_all2 (\<lambda>x y. snd y = snd x \<or>
      (snd y = disable_heartbeat (snd x) \<and>
       (\<exists>i db0 j. snd (heartbeat S (links i) ns (worker_id config) (al_job_id (snd x))
          (al_lease_token (snd x)) now (lease_duration config) db0) = Err (LeaseMismatch j))))
      leases leases'"
proof -
  note ok = redis_store.heartbeat_active_ok [OF assms(2,1)]
  from ok(2) have "list_all2 (\<lambda>x y. snd y = snd x \<or>
      (snd y = disable_heartbeat (snd x) \<and> heartbeat_lost (redis_queue_store S) links ns config now (snd x)))
      leases leases'"
    unfolding switched_off_def by (rule list_all2_mono) auto
  with ok(1) switched_off_keys(1) [OF ok(2)] show ?thesis
    by (simp add: no_lease_outcome_def heartbeat_lost_def)
qed

lemma demo_beat_lost:
  "heartbeat demo_store quiet ''mail'' ''v'' ''b'' ''t1'' 700000 30000000 empty_db =
     (fst (heartbeat demo_store quiet ''mail'' ''v'' ''b'' ''t1'' 700000 30000000 empty_db),
      Err (LeaseMismatch ''b''))"
proof -
  have stored: "stored demo_store ''mail'' (others (quiet 0) empty_db) (\<lambda>_. fresh Absent)"
    using unused_stored(1) [OF empty_unused] by simp
  note run = heartbeat_applies [where L = quiet and db = empty_db, OF demo_good stored refl,
      of "''b''" "''v''" "''t1''" 700000 30000000]
  have "snd (heartbeat demo_store quiet ''mail'' ''v'' ''b'' ''t1'' 700000 30000000 empty_db) =
      Err (LeaseMismatch ''b'')"
    using applies_answered(1) [OF run] by (simp add: lease_result_def)
  then show ?thesis by (metis prod.collapse)
qed

theorem heartbeat_round_witness:
  "\<exists>db' l. heartbeat_active (redis_queue_store demo_store) (\<lambda>_. quiet) ''mail'' demo_config 700000
       [lease_attempt_key_new ''b'' ''t1''] [demo_lease ''b'' ''t1''] empty_db =
     (db', [(lease_attempt_key_new ''b'' ''t1'', l)], Ok ()) \<and> \<not> al_heartbeat_enabled l"
proof -
  have duration: "lease_duration demo_config = 30000000" by (simp add: demo_config_def)
  obtain db1 where beat: "heartbeat demo_store quiet ''mail'' ''v'' ''b'' ''t1'' 700000 30000000 empty_db =
      (db1, Err (LeaseMismatch ''b''))"
    using demo_beat_lost by (rule that)
  have run: "heartbeat_active (redis_queue_store demo_store) (\<lambda>_. quiet) ''mail'' demo_config 700000
       [lease_attempt_key_new ''b'' ''t1''] [demo_lease ''b'' ''t1''] empty_db =
     (db1, [(lease_attempt_key_new ''b'' ''t1'', disable_heartbeat (active_lease_new ''b'' ''t1''))], Ok ())"
    using beat
    by (simp add: heartbeat_active_def enabled_leases_def List.map_filter_def demo_lease_def
        active_lease_new_def demo_worker duration active_attempt_key_def lease_attempt_key_new_def)
  have keys: "\<forall>(k, l) \<in> set [demo_lease ''b'' ''t1'']. active_attempt_key l = k"
    by (simp add: demo_lease_def active_attempt_key_def active_lease_new_def)
  from heartbeat_round [OF keys run] show ?thesis
    using run by (simp add: disable_heartbeat_def)
qed


section \<open>Progress\<close>

text \<open>
  When the store answers every completion, nothing is left over: after resolving, no completion
  is pending and the leases in hand are exactly those of the tasks that still run.
\<close>

lemma completions_drain:
  assumes "serving W st db" and "wk_store W = redis_queue_store S"
    and "traverses order (ws_pending st)"
    and "\<forall>c \<in> snd ` set (ws_pending st). \<forall>i db0.
      snd (resolve_completed (wk_store W) (calls i) (wk_namespace W) (wk_config W) c db0)
      \<in> {Ok (), Err (LeaseMismatch (cl_job_id c))}"
    and "resolve_pending_from W calls 0 order st db1 = (db', st', r)"
  shows "r = Ok False \<and> ws_pending st' = [] \<and>
    mset (map fst (ws_active st')) = mset (map lease_key (ws_join_set st))"
proof -
  have acc: "accounts st"
    by (rule worker_ok_accounts [OF redis_store.serving_ok [OF assms(1,2)]])
  have "r = Ok False \<and> fst ` set (ws_pending st') = fst ` set (ws_pending st) - set order"
    by (rule redis_store.resolve_all [OF acc _ _ _ assms(5)])
       (use assms(3,4) in \<open>fastforce simp: traverses_def settles_def\<close>)+
  with assms(3) have "r = Ok False" "ws_pending st' = []" by (simp_all add: traverses_def)
  moreover from this redis_store.resolve_pending_ok [OF assms(2) acc assms(5)]
  have "resolved W calls st st'" by blast
  ultimately show ?thesis by (simp add: resolved_def accounts_def active_keys_def)
qed

definition demo_completed :: completed_lease where
  "demo_completed = \<lparr>cl_job_id = ''b'', cl_lease_token = ''t1'', cl_result = Inr Complete\<rparr>"

definition demo_finishing :: worker_state where
  "demo_finishing =
     demo_working\<lparr>ws_join_set := [\<lparr>rj_job_id = ''c'', rj_lease_token = ''t2''\<rparr>],
                  ws_pending := [(lease_attempt_key_new ''b'' ''t1'', demo_completed)]\<rparr>"

lemma demo_finishing_serving: "serving demo_worker_handle demo_finishing empty_db"
proof -
  let ?inp = "(demo_pre, None, Task_joined 0 (Returned (Inr Complete)))"
  have before: "before_select demo_worker_handle demo_pre demo_working empty_db = (empty_db, demo_working, Ok ())"
    by (simp add: before_select_def demo_pre_def clear_backoff_def resolve_unless_backing_off_def
        demo_working_def runtime_backoff_ready_def)
  have possible: "possible demo_worker_handle ?inp demo_working empty_db"
    by (simp add: possible_def before) (simp add: demo_pre_def demo_working_def traverses_def)
  have "iteration demo_worker_handle ?inp demo_working empty_db = (empty_db, demo_finishing, Ok ())"
    by (simp add: iteration_def before drop_reserve_def)
       (simp add: join_task_def record_join_result_def demo_working_def demo_finishing_def
        demo_completed_def completed_attempt_key_def)
  then show ?thesis by (rule serving_turn [OF serving_others [OF demo_serving] possible])
qed

lemma demo_ack_answers:
  "snd (ack demo_store quiet t ns w j tok db0) \<in> {Ok (), Err (LeaseMismatch j)}"
  by (simp add: ack_def Let_def eval_def query_cmd_def run_script_def io_bind_def parse_lease_response_def
      parse_script_error_def get_at_def split: prod.splits)

lemma completions_drain_witness:
  "ws_pending (fst (snd (resolve_pending_from demo_worker_handle (\<lambda>_. demo_call) 0
     [lease_attempt_key_new ''b'' ''t1''] demo_finishing empty_db))) = []"
proof -
  obtain db' st' r where run: "resolve_pending_from demo_worker_handle (\<lambda>_. demo_call) 0
      [lease_attempt_key_new ''b'' ''t1''] demo_finishing empty_db = (db', st', r)" by (metis surj_pair)
  have order: "traverses [lease_attempt_key_new ''b'' ''t1''] (ws_pending demo_finishing)"
    by (simp add: traverses_def demo_finishing_def)
  have "\<forall>c \<in> snd ` set (ws_pending demo_finishing). \<forall>i db0.
      snd (resolve_completed (wk_store demo_worker_handle) demo_call (wk_namespace demo_worker_handle)
        (wk_config demo_worker_handle) c db0) \<in> {Ok (), Err (LeaseMismatch (cl_job_id c))}"
    using demo_ack_answers
    by (simp add: demo_finishing_def demo_completed_def resolve_completed_def demo_call_def)
  from completions_drain [OF demo_finishing_serving demo_handle_sel(2) order this run]
  show ?thesis unfolding run by simp
qed

text \<open>
  The delay between polls of an idle worker doubles from the minimum to the maximum and stays
  there: after \<open>n\<close> rounds it is the smaller of the maximum and the minimum times two to the \<open>n\<close>.
\<close>

lemma poll_delay_doubles:
  assumes "config_ok config"
  shows "((\<lambda>d. next_poll_delay d (poll_interval_max config)) ^^ n) (poll_interval_min config) =
    min (poll_interval_min config * 2 ^ n) (poll_interval_max config)"
proof (induction n)
  case 0
  then show ?case using config_okD(1) [OF assms] by simp
next
  case (Suc n)
  then show ?case using config_okD(1,2) [OF assms] by (auto simp: next_poll_delay_def min_def)
qed


section \<open>From the queue to the handler and back\<close>

text \<open>
  C1. A worker runs the jobs that are due, in turn, and each ends as its handler said. A worker that
  has nothing reserves the first runnable jobs of the queue, as many as its concurrency, and runs
  exactly those; when their handlers have returned together, no other client interferes and nothing is
  lost on the network, the \<open>k\<close>-th job
  is gone if it was completed, stored at its new time if it was rescheduled, failed after a terminal
  error, and placed by the retry policy after any other error, with its failures counted. Every other
  job is as before.
\<close>

theorem runnable_jobs_settled:
  assumes "good_store S" and "stored S ns db J" and "now = dbl (micros (chrono S) (rc_now call))"
    and "wk_store W = redis_queue_store S" and "wk_namespace W = ns" and "wk_config W = config"
    and "hget (redis S) db (cfg (store_keys S ns)) ''retry_policy'' \<in> {None, Some (retry_policy_key config)}"
    and "0 < concurrency config" and "safe_int (int (concurrency config))"
    and "d = dbl (now + dbl (duration_micros (lease_duration config)))" and "i64_min \<le> d" and "d \<le> i64_max"
    and "\<forall>j s. place (J j) = At_scheduled s \<longrightarrow> safe_int s \<and> s \<noteq> 0"
    and "jobs = map turn_job (take (concurrency config) (turn_order now J))"
    and "pi_finished pre = []" and "rc_links call = quiet"
    and "iteration W (pre, None, Reserve_returned call t) (initial_state config) db = (db1, st1, r1)"
    and "pi_finished pre' = map (returned handler) jobs"
    and "pi_order pre' = map lease_key (ws_join_set st1)"
    and "\<forall>i. sc_links (pi_calls pre' i) = quiet"
    and "\<forall>k < length jobs. storable (ended_run S config (pi_calls pre' k) (handler (jobs ! k)) (J (jobs ! k)))"
    and "before_select W pre' st1 db1 = (db2, st2, r2)"
  shows "map rj_job_id (ws_join_set st1) = jobs \<and> r1 = Ok () \<and> r2 = Ok () \<and>
    (\<exists>J'. stored S ns db2 J' \<and> (\<forall>j. j \<notin> set jobs \<longrightarrow> J' j = J j) \<and>
      (\<forall>k < length jobs.
        J' (jobs ! k) = ended_run S config (pi_calls pre' k) (handler (jobs ! k)) (J (jobs ! k))))"
proof -
  let ?st = "initial_state config"
  have st: "ws_active ?st = []" "ws_join_set ?st = []" "ws_pending ?st = []" "ws_backoff_until ?st = None"
    by (simp_all add: initial_state_def)
  have "clear_backoff (pi_instant pre) ?st = ?st" using st by (simp add: clear_backoff_def)
  then have "before_select W pre ?st db = (db, ?st, Ok ())"
    using st by (simp add: before_select_def resolve_unless_backing_off_def assms(15))
  then have "reserve_arm W call t ?st db = (db1, st1, r1)"
    using assms(17) by (simp add: iteration_def drop_reserve_def)
  note round = round_of_jobs [OF assms(1,4-6,2) st assms(7-9,3,10-13,16,14) this assms(18-22)]
  have "distinct jobs"
    using turn_jobs_distinct [OF assms(1,2), of now] by (simp add: assms(14) distinct_take flip: take_map)
  then have "\<forall>k < length jobs. settled_all S config (pi_calls pre') handler 0 jobs J (jobs ! k) =
      ended_run S config (pi_calls pre' k) (handler (jobs ! k)) (J (jobs ! k))"
    by (simp add: settled_all_nth)
  moreover have "\<forall>j. j \<notin> set jobs \<longrightarrow> settled_all S config (pi_calls pre') handler 0 jobs J j = J j"
    by (simp add: settled_all_other)
  ultimately show ?thesis using round by blast
qed

text \<open>Job \<open>b\<close> fails once, under a policy without retries; job \<open>c\<close> is completed.\<close>

definition demo_handler :: "string \<Rightarrow> handled" where
  "demo_handler j = (if j = ''b'' then Inl ''no'' else Inr Complete)"

definition demo_finished :: "mem_db prelude_input" where
  "demo_finished = demo_pre
     \<lparr>pi_finished := map (returned demo_handler) [''b'', ''c''],
      pi_order := [lease_attempt_key_new ''b'' ''t1'', lease_attempt_key_new ''c'' ''t2'']\<rparr>"

theorem runnable_jobs_settled_witness:
  "\<exists>J'. stored demo_store ''mail''
     (fst (before_select demo_worker_handle demo_finished demo_working
        (fst (reserve demo_store quiet ''mail'' demo_config 2 500000 [''t1'', ''t2''] demo_db)))) J' \<and>
   J' ''b'' = \<lparr>place = At_failed 700, fails = 1, again = False\<rparr> \<and> J' ''c'' = fresh Absent \<and>
   J' ''a'' = demo_queue ''a''"
proof -
  have now: "500 = dbl (micros (chrono demo_store) (rc_now demo_reserve_call))"
    by (simp add: micros_def safe_int_def demo_reserve_call_def)
  have config: "hget (redis demo_store) demo_db (cfg (store_keys demo_store ''mail'')) ''retry_policy'' \<in>
      {None, Some (retry_policy_key demo_config)}"
    "0 < concurrency demo_config" "safe_int (int (concurrency demo_config))"
    by (simp_all add: demo_policy demo_keys_def [symmetric] safe_int_def demo_config_def)
  have d: "30500 = dbl (500 + dbl (duration_micros (lease_duration demo_config)))"
    "i64_min \<le> 30500" "30500 \<le> i64_max"
    by (simp_all add: demo_config_def duration_micros_def as_micros_def i64_min_def i64_max_def safe_int_def)
  have scheduled: "\<forall>j s. place (demo_queue j) = At_scheduled s \<longrightarrow> safe_int s \<and> s \<noteq> 0"
    by (simp add: demo_queue_def safe_int_def)
  have jobs: "[''b'', ''c''] = map turn_job (take (concurrency demo_config) (turn_order 500 demo_queue))"
    by (simp add: demo_turns demo_config_def)
  have pre: "pi_finished demo_pre = []" "rc_links demo_reserve_call = quiet"
    by (simp_all add: demo_pre_def demo_reserve_call_def)
  have iter: "iteration demo_worker_handle (demo_pre, None, Reserve_returned demo_reserve_call 600000)
      (initial_state demo_config) demo_db =
    (fst (reserve demo_store quiet ''mail'' demo_config 2 500000 [''t1'', ''t2''] demo_db), demo_working, Ok ())"
    using demo_iteration by (simp add: demo_turn_def)
  have fin: "pi_finished demo_finished = map (returned demo_handler) [''b'', ''c'']"
    "pi_order demo_finished = map lease_key (ws_join_set demo_working)"
    "\<forall>i. sc_links (pi_calls demo_finished i) = quiet"
    by (simp_all add: demo_finished_def demo_working_def lease_key_def demo_pre_def demo_call_def)
  have ended: "ended_run demo_store demo_config (pi_calls demo_finished k) (demo_handler ''b'') (demo_queue ''b'') =
      \<lparr>place = At_failed 700, fails = 1, again = False\<rparr>"
    "ended_run demo_store demo_config (pi_calls demo_finished k) (demo_handler ''c'') (demo_queue ''c'') = fresh Absent" for k
    by (simp_all add: ended_run_def demo_finished_def demo_pre_def demo_call_def demo_handler_def demo_config_def
        failed_job_def failure_placement_def micros_def safe_int_def demo_queue_def)
  have storable: "\<forall>k < length [''b'', ''c'']. storable (ended_run demo_store demo_config (pi_calls demo_finished k)
      (demo_handler ([''b'', ''c''] ! k)) (demo_queue ([''b'', ''c''] ! k)))"
    by (simp add: All_less_Suc ended storable_def readable_placement_def)
  obtain db2 st2 r2 where run: "before_select demo_worker_handle demo_finished demo_working
      (fst (reserve demo_store quiet ''mail'' demo_config 2 500000 [''t1'', ''t2''] demo_db)) = (db2, st2, r2)"
    by (metis surj_pair)
  from runnable_jobs_settled [OF demo_good demo_stored now demo_handle_sel(2,1,3) config d scheduled jobs pre
      iter fin storable run]
  obtain J' where J': "stored demo_store ''mail'' db2 J'" "\<forall>j. j \<notin> set [''b'', ''c''] \<longrightarrow> J' j = demo_queue j"
    and ends: "\<forall>k < length [''b'', ''c'']. J' ([''b'', ''c''] ! k) = ended_run demo_store demo_config
      (pi_calls demo_finished k) (demo_handler ([''b'', ''c''] ! k)) (demo_queue ([''b'', ''c''] ! k))"
    by blast
  have "J' ''b'' = \<lparr>place = At_failed 700, fails = 1, again = False\<rparr>" "J' ''c'' = fresh Absent"
    using spec [OF ends, of 0] spec [OF ends, of 1] by (simp_all add: ended)
  moreover have "J' ''a'' = demo_queue ''a''" using J'(2) by simp
  ultimately show ?thesis using J'(1) by (auto simp only: run fst_conv)
qed


section \<open>The worker and the queue\<close>

text \<open>
  C5. A worker changes the queue only by its own steps: it reserves for itself, up to its
  concurrency; it renews, under its own id; it reaps; and it ends a run only for a job whose handler
  has returned, with the ending the handler asked for, an acknowledgement after success, a new time
  after a reschedule, a terminal failure after one, and a retry by its own policy after an error.
  Nothing else happens to the database between the steps of others, whatever these are and whatever
  is lost on the way. When others take only steps of the queue, so does everybody together, and a
  reachable database stays reachable.
\<close>

theorem worker_keeps_queue:
  assumes "wk_store W = redis_queue_store S" and "wk_namespace W = ns" and "wk_config W = config"
    and "\<forall>inp \<in> set inps. input_follows U inp"
    and "run_internal W inps db = (db', st', r)"
  shows "(along U (worker_step S ns config (handler_results W inps (initial_state config) db)))\<^sup>*\<^sup>* db db' \<and>
    (safe_int (int (concurrency config)) \<longrightarrow> U \<le> queue_step S ns idle \<longrightarrow>
      (queue_step S ns idle)\<^sup>*\<^sup>* db db' \<and> (reachable S ns idle db \<longrightarrow> reachable S ns idle db'))"
proof -
  let ?V = "worker_step S ns config (handler_results W inps (initial_state config) db)"
  have "?V \<le> along U ?V" by (auto simp: along_def)
  moreover have "\<forall>inp \<in> set inps. input_follows (along U ?V) inp"
    using assms(4) input_follows_along by blast
  ultimately have path: "(along U ?V)\<^sup>*\<^sup>* db db'"
    by (rule run_internal_moves [OF assms(1-3) _ _ assms(5)])
  moreover have "(queue_step S ns idle)\<^sup>*\<^sup>* db db'"
    if "safe_int (int (concurrency config))" "U \<le> queue_step S ns idle"
    using along_into [OF that(2) worker_step_queue [OF that(1)] path] .
  ultimately show ?thesis by (blast intro: reachable_steps)
qed

theorem worker_keeps_queue_witness:
  "(along (\<lambda>_ _. False) (worker_step demo_store ''mail'' demo_config {}))\<^sup>*\<^sup>*
     demo_db (fst (run_internal demo_worker_handle [demo_turn] demo_db)) \<and>
   ws_active (fst (snd (run_internal demo_worker_handle [demo_turn] demo_db))) =
     [demo_lease ''b'' ''t1'', demo_lease ''c'' ''t2'']"
proof -
  have inps: "\<forall>inp \<in> set [demo_turn]. input_follows (\<lambda>_ _. False) inp"
    by (simp add: input_follows_def demo_turn_def demo_pre_def demo_call_def demo_reserve_call_def)
  have results: "handler_results demo_worker_handle [demo_turn] (initial_state demo_config) demo_db = {}"
    using demo_iteration by (simp add: turn_results_def demo_turn_def demo_pre_def)
  have valid: "worker_config_validate demo_config = Ok ()"
    using demo_config_ok by (simp add: config_ok_def)
  obtain db' st' r where run: "run_internal demo_worker_handle [demo_turn] demo_db = (db', st', r)"
    by (metis surj_pair)
  have "st' = demo_working" using run demo_iteration by (simp add: run_internal_def valid)
  with worker_keeps_queue [OF demo_handle_sel(2,1,3) inps run] show ?thesis
    unfolding results by (simp add: run demo_working_def)
qed

end
