(* ===== verification/Session.thy ===== *)
theory Session
  imports Worker_Run
begin

text \<open>
  How a program gets at the queue: opening the connection (\<^verbatim>\<open>RedisDriver::connect\<close>,
  \<^verbatim>\<open>RedisStore::connect\<close>, \<^verbatim>\<open>Redloop::connect\<close>), the traits of \<^verbatim>\<open>contract.rs\<close> and their
  implementation by the handles of \<^verbatim>\<open>client/\<close> and \<^verbatim>\<open>builder.rs\<close>.
\<close>

section \<open>Connecting\<close>

text \<open>
  The constructors of the redis crate, with one type \<open>'h\<close> for its opaque handles. A call that goes
  over the network answers with whatever the network gives at that moment; \<open>connect\<close> makes every
  call at most once.
\<close>

record 'h redis_crate =
  client_open :: "string \<Rightarrow> 'h redis_result"
  connection_manager_new :: "'h \<Rightarrow> duration option \<Rightarrow> 'h redis_result"
  sentinel_build :: "string list \<Rightarrow> string \<Rightarrow> 'h redis_result"
  sentinel_get_client :: "'h \<Rightarrow> 'h redis_result"
  cluster_build :: "string list \<Rightarrow> duration \<Rightarrow> duration option \<Rightarrow> 'h redis_result"
  cluster_get_async_connection :: "'h \<Rightarrow> 'h redis_result"

datatype 'h redis_driver = Single 'h | Clustered 'h

fun redis_result_of :: "string \<Rightarrow> 'a redis_result \<Rightarrow> 'a result" where
  "redis_result_of operation (Inr value) = Ok value"
| "redis_result_of operation (Inl source) = Err (Redis operation source)"

definition redis_driver_connect ::
    "'h redis_crate \<Rightarrow> connect_config \<Rightarrow> 'h redis_driver result" where
  "redis_driver_connect X config =
     (let response_timeout = Some (command_timeout config)
      in case deployment config of
           Standalone url \<Rightarrow>
             and_then (redis_result_of ''client_open'' (client_open X url)) (\<lambda>client.
             and_then (redis_result_of ''connection_manager_new''
                 (connection_manager_new X client response_timeout)) (\<lambda>manager.
             Ok (Single manager)))
         | Sentinel service_name nodes \<Rightarrow>
             and_then (redis_result_of ''sentinel_build'' (sentinel_build X nodes service_name)) (\<lambda>sentinel.
             and_then (redis_result_of ''sentinel_get_client'' (sentinel_get_client X sentinel)) (\<lambda>client.
             and_then (redis_result_of ''connection_manager_new''
                 (connection_manager_new X client response_timeout)) (\<lambda>manager.
             Ok (Single manager))))
         | Cluster nodes \<Rightarrow>
             and_then (redis_result_of ''cluster_build''
                 (cluster_build X nodes (command_timeout config) response_timeout)) (\<lambda>client.
             and_then (redis_result_of ''cluster_get_async_connection''
                 (cluster_get_async_connection X client)) (\<lambda>connection.
             Ok (Clustered connection))))"

text \<open>What a driver talks to: the commands of the server behind the connection.\<close>

definition redis_store_connect ::
    "'h redis_crate \<Rightarrow> ('h redis_driver \<Rightarrow> 'db redis_api) \<Rightarrow> chrono_api \<Rightarrow> connect_config \<Rightarrow>
     'db redis_store result" where
  "redis_store_connect X server C config =
     and_then (redis_driver_connect X config) (\<lambda>driver.
     Ok \<lparr>redis = server driver, chrono = C, store_config = config\<rparr>)"

definition redloop_connect ::
    "'h redis_crate \<Rightarrow> ('h redis_driver \<Rightarrow> 'db redis_api) \<Rightarrow> chrono_api \<Rightarrow> connect_config \<Rightarrow>
     'db redloop result" where
  "redloop_connect X server C config =
     and_then (connect_config_validate config) (\<lambda>_.
     and_then (redis_store_connect X server C config) (\<lambda>store.
     Ok \<lparr>rl_store = redis_queue_store store\<rparr>))"


section \<open>Builders\<close>

definition builder_new :: "'db namespace_handle \<Rightarrow> string \<Rightarrow> 'db job_builder" where
  "builder_new handle job = \<lparr>jb_namespace = handle, jb_job_id = job\<rparr>"

definition builder_execute ::
    "'db job_builder \<Rightarrow> 'db links \<Rightarrow> 'db links \<Rightarrow> timestamp \<Rightarrow> ('db, enqueue_result) io" where
  "builder_execute b L L' system_now =
     enqueue_request (nh_store (jb_namespace b)) L L' system_now (nh_namespace (jb_namespace b))
       \<lparr>eq_job_id = jb_job_id b, eq_schedule_at = None, eq_replace_mode = Always,
        eq_allow_existing_current_run = True\<rparr>"

definition scheduled_execute ::
    "'db scheduled_job_builder \<Rightarrow> 'db links \<Rightarrow> 'db links \<Rightarrow> timestamp \<Rightarrow> ('db, enqueue_result) io" where
  "scheduled_execute b L L' system_now =
     enqueue_request (nh_store (sb_namespace b)) L L' system_now (nh_namespace (sb_namespace b))
       \<lparr>eq_job_id = sb_job_id b, eq_schedule_at = Some (sb_schedule_at b),
        eq_replace_mode = sb_replace_mode b, eq_allow_existing_current_run = False\<rparr>"

text \<open>
  The builder traits. A scheduled builder answers the replacement calls with another scheduled
  builder, so its objects are a codatatype.
\<close>

codatatype 'db scheduled_object =
  Scheduled_object
    (so_replace_if_earlier: "'db scheduled_object")
    (so_replace_if_later: "'db scheduled_object")
    (so_to_batch_item: enqueue_request)
    (so_execute: "'db links \<Rightarrow> 'db links \<Rightarrow> timestamp \<Rightarrow> ('db, enqueue_result) io")

primcorec scheduled_trait :: "'db scheduled_job_builder \<Rightarrow> 'db scheduled_object" where
  "so_replace_if_earlier (scheduled_trait b) = scheduled_trait (replace_if_earlier b)"
| "so_replace_if_later (scheduled_trait b) = scheduled_trait (replace_if_later b)"
| "so_to_batch_item (scheduled_trait b) = scheduled_into_batch_item b"
| "so_execute (scheduled_trait b) = scheduled_execute b"

record 'db enqueue_object =
  eo_schedule_at :: "timestamp \<Rightarrow> 'db scheduled_object"
  eo_to_batch_item :: enqueue_request
  eo_execute :: "'db links \<Rightarrow> 'db links \<Rightarrow> timestamp \<Rightarrow> ('db, enqueue_result) io"

definition enqueue_trait :: "'db job_builder \<Rightarrow> 'db enqueue_object" where
  "enqueue_trait b =
     \<lparr>eo_schedule_at = (\<lambda>t. scheduled_trait (builder_schedule_at b t)),
      eo_to_batch_item = builder_into_batch_item b,
      eo_execute = builder_execute b\<rparr>"


section \<open>Namespaces\<close>

definition namespace_job :: "'db namespace_handle \<Rightarrow> string \<Rightarrow> 'db enqueue_object" where
  "namespace_job handle job = enqueue_trait (builder_new handle job)"

definition worker_new :: "string \<Rightarrow> 'db queue_store \<Rightarrow> worker_config \<Rightarrow> 'db worker" where
  "worker_new namespace store config =
     \<lparr>wk_namespace = namespace, wk_store = store, wk_config = config\<rparr>"

definition worker_runtime :: "'db namespace_handle \<Rightarrow> worker_config \<Rightarrow> 'db worker" where
  "worker_runtime handle config = worker_new (nh_namespace handle) (nh_store handle) config"

text \<open>
  \<^verbatim>\<open>trait RedloopNamespace\<close>. A method takes the links of its commands and the instants its
  clocks read as arguments.
\<close>

record 'db redloop_namespace =
  rn_job :: "string \<Rightarrow> 'db enqueue_object"
  rn_enqueue_batch ::
    "(nat \<Rightarrow> 'db links \<times> 'db links \<times> timestamp) \<Rightarrow> enqueue_request list \<Rightarrow> ('db, batch_enqueue_result) io"
  rn_reschedule ::
    "'db links \<Rightarrow> 'db links \<Rightarrow> timestamp \<Rightarrow> string \<Rightarrow> timestamp option \<Rightarrow> ('db, reschedule_result) io"
  rn_get_job :: "'db links \<Rightarrow> string \<Rightarrow> ('db, job_record option) io"
  rn_counts :: "'db links \<Rightarrow> timestamp \<Rightarrow> ('db, queue_counts) io"
  rn_list_failed :: "'db links \<Rightarrow> failed_jobs_query \<Rightarrow> ('db, failed_jobs_page) io"
  rn_list_workers :: "'db links \<Rightarrow> timestamp \<Rightarrow> ('db, worker_info list) io"
  rn_cancel :: "'db links \<Rightarrow> timestamp \<Rightarrow> string \<Rightarrow> ('db, unit) io"
  rn_force_ack :: "'db links \<Rightarrow> timestamp \<Rightarrow> string \<Rightarrow> ('db, unit) io"
  rn_force_fail :: "'db links \<Rightarrow> timestamp \<Rightarrow> force_fail_request \<Rightarrow> ('db, unit) io"
  rn_requeue :: "'db links \<Rightarrow> timestamp \<Rightarrow> string \<Rightarrow> ('db, unit) io"
  rn_retry_now :: "'db links \<Rightarrow> timestamp \<Rightarrow> string \<Rightarrow> ('db, unit) io"
  rn_force_retry :: "'db links \<Rightarrow> timestamp \<Rightarrow> string \<Rightarrow> ('db, unit) io"
  rn_purge_failed :: "'db links \<Rightarrow> failed_selector \<Rightarrow> ('db, nat) io"
  rn_worker :: "worker_config \<Rightarrow> 'db worker"

text \<open>\<^verbatim>\<open>impl RedloopNamespace for Namespace\<close>\<close>

definition namespace_object :: "'db namespace_handle \<Rightarrow> 'db redloop_namespace" where
  "namespace_object handle =
     (let Q = nh_store handle; namespace = nh_namespace handle
      in \<lparr>rn_job = namespace_job handle,
          rn_enqueue_batch = (\<lambda>E. enqueue_batch Q E namespace),
          rn_reschedule = (\<lambda>L L' t. client_reschedule Q L L' t namespace),
          rn_get_job = (\<lambda>L. client_get_job Q L namespace),
          rn_counts = (\<lambda>L t. client_counts Q L t namespace),
          rn_list_failed = (\<lambda>L. client_list_failed Q L namespace),
          rn_list_workers = (\<lambda>L t. client_list_workers Q L t namespace),
          rn_cancel = (\<lambda>L t. client_cancel Q L t namespace),
          rn_force_ack = (\<lambda>L t. client_force_ack Q L t namespace),
          rn_force_fail = (\<lambda>L t. client_force_fail Q L t namespace),
          rn_requeue = (\<lambda>L t. client_requeue Q L t namespace),
          rn_retry_now = (\<lambda>L t. client_retry_now Q L t namespace),
          rn_force_retry = (\<lambda>L t. client_force_retry Q L t namespace),
          rn_purge_failed = (\<lambda>L. client_purge_failed Q L namespace),
          rn_worker = worker_runtime handle\<rparr>)"

definition namespace_handle :: "'db redloop \<Rightarrow> string \<Rightarrow> 'db namespace_handle" where
  "namespace_handle redloop namespace = \<lparr>nh_store = rl_store redloop, nh_namespace = namespace\<rparr>"

definition open_namespace :: "'db redloop \<Rightarrow> string \<Rightarrow> 'db redloop_namespace" where
  "open_namespace redloop namespace = namespace_object (namespace_handle redloop namespace)"

definition redloop_list_namespaces :: "'db redloop \<Rightarrow> 'db links \<Rightarrow> ('db, string list) io" where
  "redloop_list_namespaces redloop L = client_list_namespaces (rl_store redloop) L"

text \<open>\<^verbatim>\<open>trait RedloopClient\<close> and \<^verbatim>\<open>impl RedloopClient for Redloop\<close>\<close>

record 'db redloop_client =
  rc_namespace :: "string \<Rightarrow> 'db redloop_namespace"
  rc_list_namespaces :: "'db links \<Rightarrow> ('db, string list) io"

definition redloop_object :: "'db redloop \<Rightarrow> 'db redloop_client" where
  "redloop_object redloop =
     \<lparr>rc_namespace = open_namespace redloop,
      rc_list_namespaces = redloop_list_namespaces redloop\<rparr>"


section \<open>Facts\<close>

text \<open>Executing a builder enqueues the item it would contribute to a batch.\<close>

lemma builder_execute_item:
  "builder_execute b L L' t =
     enqueue_request (nh_store (jb_namespace b)) L L' t (nh_namespace (jb_namespace b))
       (builder_into_batch_item b)"
  "scheduled_execute s L L' t =
     enqueue_request (nh_store (sb_namespace s)) L L' t (nh_namespace (sb_namespace s))
       (scheduled_into_batch_item s)"
  by (simp_all add: builder_execute_def scheduled_execute_def builder_into_batch_item_def
      scheduled_into_batch_item_def)

text \<open>The last replacement call decides.\<close>

lemma replace_last [simp]:
  "replace_if_earlier (replace_if_later b) = replace_if_earlier b"
  "replace_if_later (replace_if_earlier b) = replace_if_later b"
  "replace_if_earlier (replace_if_earlier b) = replace_if_earlier b"
  "replace_if_later (replace_if_later b) = replace_if_later b"
  by (simp_all add: replace_if_earlier_def replace_if_later_def)

lemma scheduled_object_last:
  "so_replace_if_earlier (so_replace_if_later (scheduled_trait b)) =
     so_replace_if_earlier (scheduled_trait b)"
  "so_replace_if_later (so_replace_if_earlier (scheduled_trait b)) =
     so_replace_if_later (scheduled_trait b)"
  by simp_all

lemma redloop_connect_Ok:
  "redloop_connect X server C config = Ok R \<Longrightarrow>
   connect_config_validate config = Ok () \<and>
   (\<exists>driver. redis_driver_connect X config = Ok driver \<and>
      R = \<lparr>rl_store = redis_queue_store
        \<lparr>redis = server driver, chrono = C, store_config = config\<rparr>\<rparr>)"
  by (auto simp: redloop_connect_def redis_store_connect_def)

lemma redis_result_of_not_Panic [simp]: "redis_result_of operation r \<noteq> Panic"
  by (cases r) auto

lemma redis_result_of_Err [simp]:
  "redis_result_of operation r = Err e \<longleftrightarrow> (\<exists>source. r = Inl source \<and> e = Redis operation source)"
  by (cases r) auto

lemma redis_driver_connect_errors:
  "redis_driver_connect X config \<noteq> Panic"
  "redis_driver_connect X config = Err e \<Longrightarrow> \<exists>operation source. e = Redis operation source"
  by (auto simp: redis_driver_connect_def Let_def split: redis_deployment.splits)

lemma redloop_connect_not_Panic: "redloop_connect X server C config \<noteq> Panic"
  by (auto simp: redloop_connect_def redis_store_connect_def connect_config_validate_def
      deployment_validate_def redis_driver_connect_errors split: redis_deployment.splits)

end
