(* ===== verification/Client_Queue.thy ===== *)
theory Client_Queue
  imports Worker_Queue Session
begin

text \<open>
  Clients and the queue: what the methods of a namespace handle on the Redis store do to the
  database while other clients act between their commands. Reads do nothing; every method that
  changes the queue takes at most one step of its own, the one its name says.
\<close>

section \<open>The steps of the methods\<close>

text \<open>An operator command, run once or not at all.\<close>

definition operator_step ::
    "'db redis_store \<Rightarrow> string \<Rightarrow> timestamp \<Rightarrow> operator_command \<Rightarrow> string \<Rightarrow> 'db \<Rightarrow> 'db \<Rightarrow> bool" where
  "operator_step S ns t c job db db' \<longleftrightarrow>
     (\<exists>L. alone (L 0) \<and> db' = fst (operator_transition_at S L ns (operator_name c) job t db))"

text \<open>A purge removes the jobs that its selector selected in an earlier database.\<close>

definition purge_step ::
    "('db \<Rightarrow> 'db \<Rightarrow> bool) \<Rightarrow> 'db redis_store \<Rightarrow> string \<Rightarrow> failed_selector \<Rightarrow> 'db \<Rightarrow> 'db \<Rightarrow> bool" where
  "purge_step U S ns which db db' \<longleftrightarrow>
     (\<exists>db0. U\<^sup>*\<^sup>* db0 db \<and>
        db' = purge_jobs (redis S) (store_keys S ns) (select_failed S (store_keys S ns) which db0) db)"

text \<open>
  A cleanup forgets the workers that are stale by their last contact, read in an earlier database,
  and their records, read in a later one.
\<close>

definition cleanup_step ::
    "('db \<Rightarrow> 'db \<Rightarrow> bool) \<Rightarrow> 'db redis_store \<Rightarrow> string \<Rightarrow> timestamp \<Rightarrow> 'db \<Rightarrow> 'db \<Rightarrow> bool" where
  "cleanup_step U S ns t db db' \<longleftrightarrow>
     (\<exists>db0 db1 seen stale. U\<^sup>*\<^sup>* db0 db1 \<and> U\<^sup>*\<^sup>* db1 db \<and>
        snd (all_scores S (workers_last_seen (store_keys S ns)) db0) = Inr seen \<and>
        stale_workers (micros (chrono S) t)
          (zip seen (map (hget (redis S) db1 (workers_config (store_keys S ns))) (map fst seen))) = Ok stale \<and>
        db' = fold (forget_worker (redis S) (store_keys S ns)) stale db)"

lemma method_steps_queue:
  "operator_step S ns t c job \<le> queue_step S ns idle"
  "purge_step U S ns which \<le> queue_step S ns idle"
  "cleanup_step U S ns t \<le> queue_step S ns False"
  by (auto simp: operator_step_def purge_step_def cleanup_step_def intro: queue_step.intros)


section \<open>Operators\<close>

lemma operator_once:
  assumes "follows U (L 0)"
  shows "acts_once U (operator_step S ns t c job) (operator_transition_at S L ns (operator_name c) job t)"
proof (rule acts_once_script [OF assms])
  show "operator_step S ns t c job db
      (fst (operator_transition_at S (\<lambda>_. left_alone (L 0)) ns (operator_name c) job t db))" for db
    unfolding operator_step_def by (intro exI [of _ "\<lambda>_. left_alone (L 0)"]) simp
qed (simp flip: operator_left_alone)

lemma operators_once:
  assumes "follows U (L 0)"
  shows "acts_once U (operator_step S ns t Op_cancel job) (cancel S L t ns job)"
    and "acts_once U (operator_step S ns t Op_force_ack job) (force_ack S L t ns job)"
    and "acts_once U (operator_step S ns t Op_force_fail (ff_job_id request)) (force_fail S L ns request t)"
    and "acts_once U (operator_step S ns t Op_requeue job) (requeue S L ns job t)"
    and "acts_once U (operator_step S ns t Op_retry_now job) (retry_now S L ns job t)"
    and "acts_once U (operator_step S ns t Op_force_retry job) (force_retry S L ns job t)"
  unfolding cancel_def force_ack_def force_fail_def requeue_def retry_now_def force_retry_def
  using operator_once [where L = L and c = Op_cancel, OF assms]
    operator_once [where L = L and c = Op_force_ack, OF assms]
    operator_once [where L = L and c = Op_force_fail, OF assms]
    operator_once [where L = L and c = Op_requeue, OF assms]
    operator_once [where L = L and c = Op_retry_now, OF assms]
    operator_once [where L = L and c = Op_force_retry, OF assms]
  by simp_all

text \<open>A command that has succeeded has run, on the database as the others had left it.\<close>

lemma operator_succeeded:
  assumes "operator_transition_at S L ns operation job t db = (db', Ok u)"
  shows "operator_transition_at S quiet ns operation job t (others (L 0) db) = (db', Ok u)"
proof -
  have lost: "\<not> (\<exists>db1 a. eval S operation' (L 0) script keys args db = (db1, Ok a))"
    if "delivery (L 0) \<noteq> Answered" for operation' script keys args
    using that by (auto simp: eval_def dest!: query_cmd_Ok)
  have "delivery (L 0) = Answered"
    using assms lost unfolding operator_transition_at_def Let_def io_bind_def
    by (fastforce split: prod.splits rresult.splits)
  then have "(\<lambda>_. left_alone (L 0)) = quiet" by (simp add: left_alone_def quiet_def fun_eq_iff)
  then show ?thesis using assms operator_left_alone [of S L ns operation job t db] by simp
qed


section \<open>Purging and cleaning up\<close>

text \<open>A read that leads to at most one step, and a write that is one.\<close>

lemma once_before: "U\<^sup>*\<^sup>* db db0 \<Longrightarrow> once U V db0 db' \<Longrightarrow> once U V db db'"
  unfolding once_def by (blast intro: rtranclp_trans)

lemma once_read:
  assumes "follows U l"
    and "\<And>a. f (others l db) = Inr a \<Longrightarrow> once U V (others l db) (fst (g a (others l db)))"
  shows "once U V db (fst (io_bind (query_cmd S operation l (\<lambda>db. (db, f db))) g db))"
proof -
  obtain db1 r where read: "query_cmd S operation l (\<lambda>db. (db, f db)) db = (db1, r)" by (metis surj_pair)
  have db1: "db1 = others l db" using query_cmd_db [of S operation l "\<lambda>db. (db, f db)" db] read by simp
  have start: "U\<^sup>*\<^sup>* db (others l db)" using assms(1) by (simp add: follows_def)
  show ?thesis
  proof (cases r)
    case (Ok a)
    then have "f (others l db) = Inr a"
      using query_cmd_Ok [of S operation l "\<lambda>db. (db, f db)" db] read db1 by simp
    from once_before [OF start assms(2) [OF this]] show ?thesis
      by (simp add: io_bind_def read Ok db1)
  qed (simp_all add: io_bind_def read db1 once_none [OF start])
qed

lemma once_write:
  assumes "follows U l" and "V (others l db) (g (others l db))"
  shows "once U V db (fst (query_pipe S operation l (\<lambda>db. (g db, Inr a)) db))"
proof -
  have "U\<^sup>*\<^sup>* db (others l db)" using assms(1) by (simp add: follows_def)
  then show ?thesis
    using query_cmd_db [of S operation l "\<lambda>db. (g db, Inr a)" db] assms(2)
    by (auto simp: query_pipe_def intro: once_none once_step)
qed

lemma once_stay: "once U V db db"
  by (rule once_none) simp

lemma purge_once:
  assumes L: "calls_follow U L"
  shows "acts_once U (purge_step U S ns which) (purge_failed S L ns which)"
  unfolding acts_once_def
proof
  fix db
  let ?ks = "store_keys S ns" and ?db0 = "others (L 0) db"
  let ?jobs = "select_failed S ?ks which ?db0"
  let ?commit = "query_pipe S ''purge_failed'' (L 1) (\<lambda>db. (purge_jobs (redis S) ?ks ?jobs db, Inr ()))"
  have "U\<^sup>*\<^sup>* ?db0 (others (L 1) ?db0)" using L by (simp add: calls_follow_def follows_def)
  then have "purge_step U S ns which (others (L 1) ?db0) (purge_jobs (redis S) ?ks ?jobs (others (L 1) ?db0))"
    unfolding purge_step_def by blast
  then have "once U (purge_step U S ns which) ?db0 (fst (?commit ?db0))"
    by (rule once_write [OF calls_followD [OF L]])
  moreover have "fst (io_bind ?commit (\<lambda>_. io_return (Ok n)) db) = fst (?commit db)" for n :: nat and db
    by (simp add: io_bind_def io_return_def split: prod.splits rresult.splits)
  ultimately show "once U (purge_step U S ns which) db (fst (purge_failed S L ns which db))"
    unfolding purge_failed_def Let_def
    by (intro once_read [OF calls_followD [OF L]]) (auto simp: io_return_def once_stay)
qed

lemma prune_once:
  assumes L: "calls_follow U L"
  shows "acts_once U (cleanup_step U S ns t) (prune_stale_workers S L ns t)"
  unfolding acts_once_def
proof
  fix db
  let ?ks = "store_keys S ns"
  let ?db0 = "others (L 0) db"
  let ?db1 = "others (L 1) ?db0"
  let ?records = "\<lambda>db seen. map (hget (redis S) db (workers_config ?ks)) (map fst seen)"
  let ?commit = "\<lambda>stale. query_pipe S ''workers_cleanup'' (L 2)
    (\<lambda>db. (fold (forget_worker (redis S) ?ks) stale db, Inr ()))"
  note step = calls_followD [OF L]
  have cleanup: "once U (cleanup_step U S ns t) ?db1 (fst (?commit stale ?db1))"
    if "snd (all_scores S (workers_last_seen ?ks) ?db0) = Inr seen"
      and "stale_workers (micros (chrono S) t) (zip seen (?records ?db1 seen)) = Ok stale" for seen stale
  proof (rule once_write [OF step])
    have "U\<^sup>*\<^sup>* ?db0 ?db1" "U\<^sup>*\<^sup>* ?db1 (others (L 2) ?db1)"
      using L by (simp_all add: calls_follow_def follows_def)
    with that show "cleanup_step U S ns t (others (L 2) ?db1)
        (fold (forget_worker (redis S) ?ks) stale (others (L 2) ?db1))"
      unfolding cleanup_step_def by blast
  qed
  have hmget: "hmget S Some ''workers_config_hmget'' (L 1) (workers_config ?ks) (map fst seen) =
      query_cmd S ''workers_config_hmget'' (L 1) (\<lambda>db. (db, Inr (?records db seen)))"
    if "seen \<noteq> []" for seen :: "(string \<times> int) list"
    using that by (simp add: hmget_def converted_def convert_all_id del: map_map)
  show "once U (cleanup_step U S ns t) db (fst (prune_stale_workers S L ns t db))"
    unfolding prune_stale_workers_def Let_def all_scores_def
  proof (rule once_read [OF step])
    fix seen
    assume seen: "converted S (scored_rows S (zrange (redis S) ?db0 (workers_last_seen ?ks) 0 (- 1))) = Inr seen"
    then have seen': "snd (all_scores S (workers_last_seen ?ks) ?db0) = Inr seen" by (simp add: all_scores_def)
    have "once U (cleanup_step U S ns t) ?db0 (fst (io_bind (query_cmd S ''workers_config_hmget'' (L 1)
        (\<lambda>db. (db, Inr (?records db seen)))) (\<lambda>configs.
          io_bind (io_return (stale_workers (micros (chrono S) t) (zip seen configs))) (\<lambda>stale.
            if stale = [] then io_return (Ok ()) else ?commit stale)) ?db0))"
      by (rule once_read [OF step])
         (use cleanup [OF seen'] in \<open>auto simp: io_bind_def io_return_def once_stay split: rresult.splits\<close>)
    then show "once U (cleanup_step U S ns t) ?db0 (fst ((if seen = [] then io_return (Ok ())
        else io_bind (hmget S Some ''workers_config_hmget'' (L 1) (workers_config ?ks) (map fst seen))
          (\<lambda>configs. io_bind (io_return (stale_workers (micros (chrono S) t) (zip seen configs)))
            (\<lambda>stale. if stale = [] then io_return (Ok ()) else ?commit stale))) ?db0))"
      by (cases "seen = []") (simp add: io_return_def once_stay, simp only: hmget if_False simp_thms)
  qed
qed

lemma list_workers_once:
  assumes L: "calls_follow U L"
  shows "acts_once U (cleanup_step U S ns t) (list_workers S L ns t)"
  unfolding list_workers_def Let_def
  by (intro acts_once_bind [OF prune_once [OF L]] moves_rules) (simp_all add: calls_followD [OF L])


section \<open>The methods of a handle\<close>

lemma moves_validated: "moves U operation \<Longrightarrow> moves U (validated job operation)"
  unfolding validated_def by (intro moves_rules)

lemma validated_once: "acts_once U V operation \<Longrightarrow> acts_once U V (validated job operation)"
  by (simp add: acts_once_def validated_def validate_job_id_def io_bind_def io_return_def once_stay)

lemmas handle_defs = namespace_object_def Let_def redloop_namespace.simps redis_queue_store_def
  queue_store.simps namespace_handle.simps

lemma handle_reads:
  assumes "calls_follow U L"
    and "N = namespace_object \<lparr>nh_store = redis_queue_store S, nh_namespace = ns\<rparr>"
  shows "moves U (rn_get_job N L job)" and "moves U (rn_counts N L t)" and "moves U (rn_list_failed N L query)"
  by (simp_all add: assms(2) handle_defs client_get_job_def client_counts_def client_list_failed_def
      moves_validated moves_get_job moves_counts moves_list_failed assms(1))

lemma handle_once:
  assumes L: "calls_follow U L"
    and "N = namespace_object \<lparr>nh_store = redis_queue_store S, nh_namespace = ns\<rparr>"
  shows "acts_once U (operator_step S ns t Op_cancel job) (rn_cancel N L t job)"
    and "acts_once U (operator_step S ns t Op_force_ack job) (rn_force_ack N L t job)"
    and "acts_once U (operator_step S ns t Op_force_fail (ff_job_id request)) (rn_force_fail N L t request)"
    and "acts_once U (operator_step S ns t Op_requeue job) (rn_requeue N L t job)"
    and "acts_once U (operator_step S ns t Op_retry_now job) (rn_retry_now N L t job)"
    and "acts_once U (operator_step S ns t Op_force_retry job) (rn_force_retry N L t job)"
    and "acts_once U (purge_step U S ns which) (rn_purge_failed N L which)"
    and "acts_once U (cleanup_step U S ns t) (rn_list_workers N L t)"
  by (simp_all add: assms(2) handle_defs client_cancel_def client_force_ack_def client_force_fail_def
      client_requeue_def client_retry_now_def client_force_retry_def client_purge_failed_def
      client_list_workers_def validated_once operators_once calls_followD [OF L] purge_once [OF L]
      list_workers_once [OF L])

text \<open>Enqueueing and rescheduling remember the namespace afterwards.\<close>

lemma moves_remembered:
  assumes "\<And>l db. alone l \<Longrightarrow> T db (fst (remember_namespace S l ns db))" and "calls_follow T L'"
    and "moves T operation"
  shows "moves T (io_bind operation (\<lambda>a db. (fst (remember_namespace S (L' 0) ns db), Ok a)))"
proof (rule moves_bind [OF assms(3)])
  show "moves T (\<lambda>db. (fst (remember_namespace S (L' 0) ns db), Ok a))" for a :: 'c
    using moves_remember [OF calls_followD [OF assms(2), of 0] assms(1)] by (simp add: moves_def)
qed

lemma handle_enqueues:
  assumes L: "calls_follow (queue_step S ns idle) L" "calls_follow (queue_step S ns idle) L'"
  shows "moves (queue_step S ns idle) (enqueue_request (redis_queue_store S) L L' t ns request)"
    and "moves (queue_step S ns idle) (client_reschedule (redis_queue_store S) L L' t ns job schedule_at)"
proof -
  have "moves (queue_step S ns idle) (enqueue S L t ns request)"
    by (rule moves_single(1) [OF calls_followD [OF L(1)]]) (rule step_enqueue)
  then show "moves (queue_step S ns idle) (enqueue_request (redis_queue_store S) L L' t ns request)"
    unfolding enqueue_request_def client_remember_namespace_def redis_queue_store_sel
    by (intro moves_validated moves_remembered [OF step_remember L(2)])
  have "moves (queue_step S ns idle) (reschedule S L t ns job schedule_at)"
    by (rule moves_single(2) [OF calls_followD [OF L(1)]]) (rule step_reschedule)
  then show "moves (queue_step S ns idle) (client_reschedule (redis_queue_store S) L L' t ns job schedule_at)"
    unfolding client_reschedule_def client_remember_namespace_def redis_queue_store_sel
    by (intro moves_validated moves_remembered [OF step_remember L(2)])
qed

end
