(* ===== verification/Upgrade.thy ===== *)
theory Upgrade
  imports Session
begin

text \<open>
  \<^verbatim>\<open>crates/redloop-cli/src/upgrade.rs\<close>: the upgrade command of the command line tool. Where the
  releases are served and which one fits is decided here; talking to the release server and
  replacing the binary is the work of the \<^verbatim>\<open>cli_updater\<close> crate, a parameter.
\<close>

section \<open>The updater crate\<close>

record update_check =
  uc_binary :: string
  uc_current_version :: string
  uc_target :: string

record update_request =
  ur_check :: update_check
  ur_current_exe :: string
  ur_force :: bool

datatype 's upgrade_outcome = Up_to_date 's | Installed 's

text \<open>
  \<open>'e\<close> is the error type of the crate, \<open>'u\<close> an updater, \<open>'s\<close> a status report. \<open>cu_new\<close> builds an
  updater from an HTTP release client for the server and the default installer. \<open>cu_current_exe\<close>
  is the path of the running program, or the error the crate wraps that failure into.
\<close>

record ('e, 'u, 's) cli_updater =
  cu_current_target :: "'e + string"
  cu_new :: "string \<Rightarrow> 'e + 'u"
  cu_status :: "'u \<Rightarrow> update_check \<Rightarrow> 'e + 's"
  cu_upgrade :: "'u \<Rightarrow> update_request \<Rightarrow> 'e + 's upgrade_outcome"
  cu_format_status_summary :: "'s \<Rightarrow> string"
  cu_update_available :: "'s \<Rightarrow> bool"
  cu_latest_version :: "'s \<Rightarrow> string"
  cu_current_exe :: "'e + string"

datatype 'e upgrade_error = Updater 'e

fun updater_result :: "'e + 'a \<Rightarrow> ('a, 'e upgrade_error) rresult" where
  "updater_result (Inr a) = Ok a"
| "updater_result (Inl e) = Err (Updater e)"


section \<open>The command\<close>

datatype upgrade_command = Status

record upgrade_args =
  ua_release_server :: "string option"
  ua_target :: "string option"
  ua_force :: bool
  ua_command :: "upgrade_command option"

definition default_release_server_url :: string where
  "default_release_server_url = ''https://redloop-cli-release-993259844560.europe-west2.run.app''"

definition package_version :: string where
  "package_version = ''0.2.0''"

definition resolve_release_server_with_env :: "string option \<Rightarrow> string option \<Rightarrow> string" where
  "resolve_release_server_with_env release_server env_value =
     (case release_server of
        Some server \<Rightarrow> server
      | None \<Rightarrow>
          (case env_value of
             Some value \<Rightarrow> if value \<noteq> [] then value else default_release_server_url
           | None \<Rightarrow> default_release_server_url))"

definition resolve_target ::
    "('e, 'u, 's) cli_updater \<Rightarrow> string option \<Rightarrow> (string, 'e upgrade_error) rresult" where
  "resolve_target U target =
     (case target of
        Some t \<Rightarrow> Ok t
      | None \<Rightarrow> updater_result (cu_current_target U))"

definition build_update_check :: "string \<Rightarrow> string \<Rightarrow> update_check" where
  "build_update_check binary target =
     \<lparr>uc_binary = binary, uc_current_version = package_version, uc_target = target\<rparr>"

definition build_updater ::
    "('e, 'u, 's) cli_updater \<Rightarrow> string \<Rightarrow> ('u, 'e upgrade_error) rresult" where
  "build_updater U server_url = updater_result (cu_new U server_url)"

text \<open>
  The lines the command prints and its result. \<open>env\<close> is the value of the environment variable
  \<^verbatim>\<open>REDLOOP_RELEASE_SERVER_URL\<close>.
\<close>

definition upgrade_status ::
    "('e, 'u, 's) cli_updater \<Rightarrow> string \<Rightarrow> 'u \<Rightarrow> update_check \<Rightarrow>
     (string list, 'e upgrade_error) rresult" where
  "upgrade_status U binary updater check =
     and_then (updater_result (cu_status U updater check)) (\<lambda>status.
     Ok (cu_format_status_summary U status #
         (if cu_update_available U status
          then [''run `'' @ binary @ '' upgrade` to install '' @ cu_latest_version U status]
          else [])))"

definition upgrade_install ::
    "('e, 'u, 's) cli_updater \<Rightarrow> string \<Rightarrow> bool \<Rightarrow> 'u \<Rightarrow> update_check \<Rightarrow>
     (string list, 'e upgrade_error) rresult" where
  "upgrade_install U binary force updater check =
     and_then (updater_result (cu_current_exe U)) (\<lambda>current_exe.
     and_then (updater_result (cu_upgrade U updater
       \<lparr>ur_check = check, ur_current_exe = current_exe, ur_force = force\<rparr>)) (\<lambda>outcome.
     Ok (case outcome of
           Up_to_date status \<Rightarrow> [cu_format_status_summary U status]
         | Installed status \<Rightarrow>
             [''updated '' @ binary @ '' to '' @ cu_latest_version U status])))"

definition upgrade_run ::
    "('e, 'u, 's) cli_updater \<Rightarrow> string option \<Rightarrow> string \<Rightarrow> upgrade_args \<Rightarrow>
     (string list, 'e upgrade_error) rresult" where
  "upgrade_run U env binary args =
     and_then (resolve_target U (ua_target args)) (\<lambda>target.
     let check = build_update_check binary target
     in and_then (build_updater U (resolve_release_server_with_env (ua_release_server args) env))
        (\<lambda>updater.
        if ua_command args = Some Status then upgrade_status U binary updater check
        else upgrade_install U binary (ua_force args) updater check))"


section \<open>Facts\<close>

lemma updater_result_simps [simp]:
  "updater_result r = Ok a \<longleftrightarrow> r = Inr a"
  "updater_result r = Err e \<longleftrightarrow> (\<exists>x. r = Inl x \<and> e = Updater x)"
  "updater_result r \<noteq> Panic"
  by (cases r; auto)+

text \<open>The flag comes before the environment, the environment before the built-in address.\<close>

lemma release_server_order:
  "resolve_release_server_with_env (Some server) env = server"
  "value \<noteq> [] \<Longrightarrow> resolve_release_server_with_env None (Some value) = value"
  "resolve_release_server_with_env None (Some []) = default_release_server_url"
  "resolve_release_server_with_env None None = default_release_server_url"
  by (simp_all add: resolve_release_server_with_env_def)

text \<open>\<^verbatim>\<open>upgrade status\<close> never installs anything: its outcome does not depend on the installer.\<close>

lemma status_does_not_install:
  "ua_command args = Some Status \<Longrightarrow>
   upgrade_run (U\<lparr>cu_upgrade := f\<rparr>) env binary args = upgrade_run U env binary args"
  by (simp add: upgrade_run_def resolve_target_def build_updater_def upgrade_status_def
      cong: if_cong split: option.splits)

lemma upgrade_run_not_Panic: "upgrade_run U env binary args \<noteq> Panic"
  by (auto simp: upgrade_run_def resolve_target_def build_updater_def upgrade_status_def
      upgrade_install_def Let_def split: option.splits)

end
