(* ===== verification/Cli.thy ===== *)
theory Cli
  imports Upgrade
begin

text \<open>
  The command line tool, \<^verbatim>\<open>crates/redloop-cli/src/\<close>: its arguments (\<^verbatim>\<open>cli.rs\<close>), its commands
  (\<^verbatim>\<open>commands/\<close>) and \<^verbatim>\<open>main.rs\<close>. Parsing the arguments is left to \<^verbatim>\<open>clap\<close>; the values printed as
  JSON are kept as values.
\<close>

section \<open>Arguments\<close>

record connect_args =
  ca_key_prefix :: string
  ca_command_timeout_ms :: nat
  ca_redis_url :: "string option"
  ca_sentinel_service_name :: "string option"
  ca_sentinel_node :: "string list"
  ca_cluster_node :: "string list"

text \<open>What is passed when no flag is given.\<close>

definition default_connect_args :: connect_args where
  "default_connect_args =
     \<lparr>ca_key_prefix = ''redloop'', ca_command_timeout_ms = 5000, ca_redis_url = None,
      ca_sentinel_service_name = None, ca_sentinel_node = [], ca_cluster_node = []\<rparr>"

record namespace_args =
  na_namespace :: string

record job_args =
  ja_namespace :: string
  ja_job_id :: string

record force_fail_args =
  fa_namespace :: string
  fa_job_id :: string
  fa_message :: string

record list_failed_args =
  la_namespace :: string
  la_cursor :: "string option"
  la_limit :: nat

record purge_failed_args =
  pa_namespace :: string
  pa_job_id :: "string option"
  pa_older_than :: "string option"
  pa_all :: bool

datatype command =
    Namespaces
  | Counts namespace_args
  | Get_job job_args
  | List_failed list_failed_args
  | List_workers namespace_args
  | Cancel job_args
  | Force_ack job_args
  | Force_fail force_fail_args
  | Requeue job_args
  | Retry_now job_args
  | Force_retry job_args
  | Purge_failed purge_failed_args
  | Upgrade_command upgrade_args

text \<open>\<^verbatim>\<open>Duration::from_millis\<close>; a duration is a number of nanoseconds.\<close>

definition to_config :: "connect_args \<Rightarrow> connect_config" where
  "to_config args =
     \<lparr>deployment =
        (if ca_cluster_node args \<noteq> [] then Cluster (ca_cluster_node args)
         else if ca_sentinel_node args \<noteq> [] \<or> ca_sentinel_service_name args \<noteq> None
         then Sentinel (case ca_sentinel_service_name args of Some name \<Rightarrow> name | None \<Rightarrow> [])
                (ca_sentinel_node args)
         else Standalone (case ca_redis_url args of Some url \<Rightarrow> url | None \<Rightarrow> ''redis://127.0.0.1/'')),
      key_prefix = ca_key_prefix args,
      command_timeout = ca_command_timeout_ms args * 1000000\<rparr>"

text \<open>\<open>rfc3339\<close> is \<^verbatim>\<open>DateTime::parse_from_rfc3339\<close> of chrono.\<close>

definition selector :: "(string \<Rightarrow> timestamp option) \<Rightarrow> purge_failed_args \<Rightarrow> failed_selector result" where
  "selector rfc3339 args =
     (case pa_job_id args of
        Some job \<Rightarrow> Ok (Sel_JobId job)
      | None \<Rightarrow>
          (case pa_older_than args of
             Some older_than \<Rightarrow>
               (case rfc3339 older_than of
                  Some t \<Rightarrow> Ok (Sel_OlderThan t)
                | None \<Rightarrow> Err (InvalidCursor older_than))
           | None \<Rightarrow> if pa_all args then Ok Sel_All else Ok Sel_All))"


section \<open>Output and errors\<close>

datatype json =
    Json_namespaces "string list"
  | Json_counts queue_counts
  | Json_job "job_record option"
  | Json_failed failed_jobs_page
  | Json_workers "worker_info list"
  | Json_status_ok
  | Json_deleted nat

datatype printed = Print_json json | Print_line string

datatype 'e cli_error = Redloop_error error | Upgrade_error "'e upgrade_error"

text \<open>A run of the tool: the database afterwards, what was printed, and the result.\<close>

type_synonym ('db, 'e) cli_io = "'db \<Rightarrow> 'db \<times> printed list \<times> (unit, 'e cli_error) rresult"

text \<open>\<^verbatim>\<open>print_json(&operation.await?); Ok(())\<close>\<close>

definition print_answer :: "('a \<Rightarrow> json) \<Rightarrow> ('db, 'a) io \<Rightarrow> ('db, 'e) cli_io" where
  "print_answer value operation db =
     (case operation db of
        (db', Ok a) \<Rightarrow> (db', [Print_json (value a)], Ok ())
      | (db', Err e) \<Rightarrow> (db', [], Err (Redloop_error e))
      | (db', Panic) \<Rightarrow> (db', [], Panic))"

definition print_ok :: "('db, unit) io \<Rightarrow> ('db, 'e) cli_io" where
  "print_ok = print_answer (\<lambda>_. Json_status_ok)"


section \<open>Commands\<close>

text \<open>The links of the operation's commands and the instant its clock reads.\<close>

record 'db call_env =
  ce_links :: "'db links"
  ce_now :: timestamp

definition namespaces_list :: "'db redloop \<Rightarrow> 'db call_env \<Rightarrow> ('db, 'e) cli_io" where
  "namespaces_list R E = print_answer Json_namespaces (redloop_list_namespaces R (ce_links E))"

definition namespaces_counts :: "'db redloop \<Rightarrow> 'db call_env \<Rightarrow> namespace_args \<Rightarrow> ('db, 'e) cli_io" where
  "namespaces_counts R E args =
     print_answer Json_counts (rn_counts (open_namespace R (na_namespace args)) (ce_links E) (ce_now E))"

definition workers_list :: "'db redloop \<Rightarrow> 'db call_env \<Rightarrow> namespace_args \<Rightarrow> ('db, 'e) cli_io" where
  "workers_list R E args =
     print_answer Json_workers
       (rn_list_workers (open_namespace R (na_namespace args)) (ce_links E) (ce_now E))"

definition jobs_get_job :: "'db redloop \<Rightarrow> 'db call_env \<Rightarrow> job_args \<Rightarrow> ('db, 'e) cli_io" where
  "jobs_get_job R E args =
     print_answer Json_job
       (rn_get_job (open_namespace R (ja_namespace args)) (ce_links E) (ja_job_id args))"

definition jobs_cancel :: "'db redloop \<Rightarrow> 'db call_env \<Rightarrow> job_args \<Rightarrow> ('db, 'e) cli_io" where
  "jobs_cancel R E args =
     print_ok (rn_cancel (open_namespace R (ja_namespace args)) (ce_links E) (ce_now E) (ja_job_id args))"

definition jobs_force_ack :: "'db redloop \<Rightarrow> 'db call_env \<Rightarrow> job_args \<Rightarrow> ('db, 'e) cli_io" where
  "jobs_force_ack R E args =
     print_ok (rn_force_ack (open_namespace R (ja_namespace args)) (ce_links E) (ce_now E) (ja_job_id args))"

definition jobs_force_fail :: "'db redloop \<Rightarrow> 'db call_env \<Rightarrow> force_fail_args \<Rightarrow> ('db, 'e) cli_io" where
  "jobs_force_fail R E args =
     print_ok (rn_force_fail (open_namespace R (fa_namespace args)) (ce_links E) (ce_now E)
       \<lparr>ff_job_id = fa_job_id args, ff_message = fa_message args\<rparr>)"

definition jobs_requeue :: "'db redloop \<Rightarrow> 'db call_env \<Rightarrow> job_args \<Rightarrow> ('db, 'e) cli_io" where
  "jobs_requeue R E args =
     print_ok (rn_requeue (open_namespace R (ja_namespace args)) (ce_links E) (ce_now E) (ja_job_id args))"

definition jobs_retry_now :: "'db redloop \<Rightarrow> 'db call_env \<Rightarrow> job_args \<Rightarrow> ('db, 'e) cli_io" where
  "jobs_retry_now R E args =
     print_ok (rn_retry_now (open_namespace R (ja_namespace args)) (ce_links E) (ce_now E) (ja_job_id args))"

definition jobs_force_retry :: "'db redloop \<Rightarrow> 'db call_env \<Rightarrow> job_args \<Rightarrow> ('db, 'e) cli_io" where
  "jobs_force_retry R E args =
     print_ok (rn_force_retry (open_namespace R (ja_namespace args)) (ce_links E) (ce_now E) (ja_job_id args))"

definition failed_list :: "'db redloop \<Rightarrow> 'db call_env \<Rightarrow> list_failed_args \<Rightarrow> ('db, 'e) cli_io" where
  "failed_list R E args =
     print_answer Json_failed
       (rn_list_failed (open_namespace R (la_namespace args)) (ce_links E)
         \<lparr>fq_cursor = la_cursor args, fq_limit = la_limit args\<rparr>)"

definition failed_purge ::
    "(string \<Rightarrow> timestamp option) \<Rightarrow> 'db redloop \<Rightarrow> 'db call_env \<Rightarrow> purge_failed_args \<Rightarrow>
     ('db, 'e) cli_io" where
  "failed_purge rfc3339 R E args =
     (let queue = open_namespace R (pa_namespace args)
      in print_answer Json_deleted
           (io_bind (io_return (selector rfc3339 args)) (rn_purge_failed queue (ce_links E))))"

definition dispatch ::
    "(string \<Rightarrow> timestamp option) \<Rightarrow> 'db redloop \<Rightarrow> 'db call_env \<Rightarrow> command \<Rightarrow> ('db, 'e) cli_io" where
  "dispatch rfc3339 R E command =
     (case command of
        Namespaces \<Rightarrow> namespaces_list R E
      | Counts args \<Rightarrow> namespaces_counts R E args
      | Get_job args \<Rightarrow> jobs_get_job R E args
      | List_failed args \<Rightarrow> failed_list R E args
      | List_workers args \<Rightarrow> workers_list R E args
      | Cancel args \<Rightarrow> jobs_cancel R E args
      | Force_ack args \<Rightarrow> jobs_force_ack R E args
      | Force_fail args \<Rightarrow> jobs_force_fail R E args
      | Requeue args \<Rightarrow> jobs_requeue R E args
      | Retry_now args \<Rightarrow> jobs_retry_now R E args
      | Force_retry args \<Rightarrow> jobs_force_retry R E args
      | Purge_failed args \<Rightarrow> failed_purge rfc3339 R E args
      | Upgrade_command _ \<Rightarrow> (\<lambda>db. (db, [], Panic)))"

text \<open>
  The world the tool runs in: the redis crate, the server behind a connection, chrono, the updater
  crate and the environment variable of the upgrade command.
\<close>

record ('h, 'db, 'e, 'u, 's) cli_world =
  cw_crate :: "'h redis_crate"
  cw_server :: "'h redis_driver \<Rightarrow> 'db redis_api"
  cw_chrono :: chrono_api
  cw_rfc3339 :: "string \<Rightarrow> timestamp option"
  cw_updater :: "('e, 'u, 's) cli_updater"
  cw_release_server :: "string option"

definition run_command ::
    "('h, 'db, 'e, 'u, 's) cli_world \<Rightarrow> 'db call_env \<Rightarrow> connect_args \<Rightarrow> command \<Rightarrow>
     ('db, 'e) cli_io" where
  "run_command W E connect command db =
     (case redloop_connect (cw_crate W) (cw_server W) (cw_chrono W) (to_config connect) of
        Ok R \<Rightarrow> dispatch (cw_rfc3339 W) R E command db
      | Err e \<Rightarrow> (db, [], Err (Redloop_error e))
      | Panic \<Rightarrow> (db, [], Panic))"

definition cli_main ::
    "('h, 'db, 'e, 'u, 's) cli_world \<Rightarrow> 'db call_env \<Rightarrow> connect_args \<Rightarrow> command \<Rightarrow>
     ('db, 'e) cli_io" where
  "cli_main W E connect command db =
     (case command of
        Upgrade_command args \<Rightarrow>
          (case upgrade_run (cw_updater W) (cw_release_server W) ''redloop-cli'' args of
             Ok lines \<Rightarrow> (db, map Print_line lines, Ok ())
           | Err e \<Rightarrow> (db, [], Err (Upgrade_error e))
           | Panic \<Rightarrow> (db, [], Panic))
      | _ \<Rightarrow> run_command W E connect command db)"

end
