(* ===== verification/Cli_Properties.thy ===== *)
theory Cli_Properties
  imports Client_Queue Cli Store_Properties
begin

text \<open>
  The command line tool on the queue: which connection its flags select, what a purge selects, and
  the property that a command acts on the queue at most once and only as its name says.
\<close>

section \<open>Arguments\<close>

text \<open>
  Without flags the tool connects to a local standalone Redis; cluster nodes win over sentinel flags,
  and these over the address. The configuration is refused exactly when a sentinel name or its nodes
  are missing.
\<close>

lemma to_config_default:
  "to_config default_connect_args =
     \<lparr>deployment = Standalone ''redis://127.0.0.1/'', key_prefix = ''redloop'',
      command_timeout = 5000000000\<rparr>"
  by (simp add: to_config_def default_connect_args_def)

lemma to_config_accepted:
  "connect_config_validate (to_config args) = Ok () \<longleftrightarrow>
     ca_cluster_node args \<noteq> [] \<or>
     (ca_sentinel_node args = [] \<and> ca_sentinel_service_name args = None) \<or>
     (ca_sentinel_node args \<noteq> [] \<and> ca_sentinel_service_name args \<notin> {None, Some []})"
  by (cases "ca_sentinel_service_name args")
     (auto simp: connect_config_validate_def deployment_validate_def to_config_def)

text \<open>
  The job id comes before the time; without either, everything is selected, whether or not
  \<^verbatim>\<open>--all\<close> was given.
\<close>

lemma selector_all:
  "pa_job_id args = None \<Longrightarrow> pa_older_than args = None \<Longrightarrow> selector rfc3339 args = Ok Sel_All"
  by (simp add: selector_def)

lemma selector_ignores_all: "selector rfc3339 (args\<lparr>pa_all := b\<rparr>) = selector rfc3339 args"
  by (simp add: selector_def cong: option.case_cong)

lemma selector_invalid_time:
  "pa_job_id args = None \<Longrightarrow> pa_older_than args = Some text \<Longrightarrow> rfc3339 text = None \<Longrightarrow>
   selector rfc3339 args = Err (InvalidCursor text)"
  by (simp add: selector_def)


section \<open>Commands\<close>

fun command_namespace :: "command \<Rightarrow> string option" where
  "command_namespace Namespaces = None"
| "command_namespace (Counts args) = Some (na_namespace args)"
| "command_namespace (Get_job args) = Some (ja_namespace args)"
| "command_namespace (List_failed args) = Some (la_namespace args)"
| "command_namespace (List_workers args) = Some (na_namespace args)"
| "command_namespace (Cancel args) = Some (ja_namespace args)"
| "command_namespace (Force_ack args) = Some (ja_namespace args)"
| "command_namespace (Force_fail args) = Some (fa_namespace args)"
| "command_namespace (Requeue args) = Some (ja_namespace args)"
| "command_namespace (Retry_now args) = Some (ja_namespace args)"
| "command_namespace (Force_retry args) = Some (ja_namespace args)"
| "command_namespace (Purge_failed args) = Some (pa_namespace args)"
| "command_namespace (Upgrade_command args) = None"

fun operator_of :: "command \<Rightarrow> (operator_command \<times> string) option" where
  "operator_of (Cancel args) = Some (Op_cancel, ja_job_id args)"
| "operator_of (Force_ack args) = Some (Op_force_ack, ja_job_id args)"
| "operator_of (Force_fail args) = Some (Op_force_fail, fa_job_id args)"
| "operator_of (Requeue args) = Some (Op_requeue, ja_job_id args)"
| "operator_of (Retry_now args) = Some (Op_retry_now, ja_job_id args)"
| "operator_of (Force_retry args) = Some (Op_force_retry, ja_job_id args)"
| "operator_of command = None"

text \<open>
  The one step a command may take; the steps \<open>U\<close> of others may lie between its reads and its write.
  The commands that are neither operators nor a purge nor the list of workers take none.
\<close>

definition command_step ::
    "('db \<Rightarrow> 'db \<Rightarrow> bool) \<Rightarrow> 'db redis_store \<Rightarrow> string \<Rightarrow> (string \<Rightarrow> timestamp option) \<Rightarrow> timestamp \<Rightarrow>
     command \<Rightarrow> 'db \<Rightarrow> 'db \<Rightarrow> bool" where
  "command_step U S ns rfc3339 t command db db' \<longleftrightarrow>
     (\<exists>c job. operator_of command = Some (c, job) \<and> operator_step S ns t c job db db') \<or>
     (\<exists>args which. command = Purge_failed args \<and> selector rfc3339 args = Ok which \<and>
        purge_step U S ns which db db') \<or>
     (\<exists>args. command = List_workers args \<and> cleanup_step U S ns t db db')"

lemma command_step_queue: "command_step U S ns rfc3339 t command \<le> queue_step S ns False"
  using method_steps_queue by (fastforce simp: command_step_def le_fun_def)

lemma command_steps:
  "operator_of command = Some (c, job) \<Longrightarrow> command_step U S ns rfc3339 t command = operator_step S ns t c job"
  "selector rfc3339 args = Ok which \<Longrightarrow>
   command_step U S ns rfc3339 t (Purge_failed args) = purge_step U S ns which"
  "command_step U S ns rfc3339 t (List_workers args') = cleanup_step U S ns t"
  by (auto simp: command_step_def fun_eq_iff)

lemma print_answer_once:
  "acts_once U V operation \<Longrightarrow> print_answer value operation db = (db', out, r) \<Longrightarrow>
   once U V db db' \<and> (r = Ok () \<longleftrightarrow> out \<noteq> [])"
  using acts_onceD [of U V operation db]
  by (auto simp: print_answer_def split: prod.splits rresult.splits)

lemma dispatch_once:
  assumes R: "R = \<lparr>rl_store = redis_queue_store S\<rparr>"
    and ns: "command_namespace command \<in> {None, Some ns}" and L: "calls_follow U (ce_links E)"
    and command: "\<forall>args. command \<noteq> Upgrade_command args"
    and run: "dispatch rfc3339 R E command db = (db', out, r)"
  shows "once U (command_step U S ns rfc3339 (ce_now E) command) db db' \<and> (r = Ok () \<longleftrightarrow> out \<noteq> [])"
proof -
  let ?V = "command_step U S ns rfc3339 (ce_now E)"
  have namespaces: "acts_once U V (redloop_list_namespaces R (ce_links E))" for V
    using moves_list_namespaces [OF calls_followD [OF L], of S]
    by (simp add: redloop_list_namespaces_def client_list_namespaces_def R redis_queue_store_def acts_once_moves)
  have handle: "open_namespace R ns = namespace_object \<lparr>nh_store = redis_queue_store S, nh_namespace = ns\<rparr>"
    by (simp add: open_namespace_def namespace_handle_def R)
  note reads = handle_reads [OF L handle, THEN acts_once_moves]
  note once = handle_once [OF L handle]
  have purge: "acts_once U (?V (Purge_failed args)) (io_bind (io_return (selector rfc3339 args))
      (rn_purge_failed (open_namespace R ns) (ce_links E)))" for args
  proof (cases "selector rfc3339 args")
    case (Ok which)
    then show ?thesis
      using once(7) [of which] by (simp add: command_steps acts_once_def io_bind_def io_return_def)
  qed (simp_all add: acts_once_def io_bind_def io_return_def once_stay)
  have force_fail: "acts_once U (operator_step S ns t Op_force_fail job) (rn_force_fail (open_namespace R ns)
      (ce_links E) t \<lparr>ff_job_id = job, ff_message = message\<rparr>)" for job t message
    using once(3) [of t "\<lparr>ff_job_id = job, ff_message = message\<rparr>"] by simp
  note printed = reads [THEN print_answer_once] once [THEN print_answer_once]
    force_fail [THEN print_answer_once] namespaces [THEN print_answer_once] purge [THEN print_answer_once]
  have "case command_namespace command of None \<Rightarrow> True | Some n \<Rightarrow> n = ns"
    using ns by (auto split: option.splits)
  then show ?thesis
    using run command
    by (cases command)
       (simp_all add: dispatch_def namespaces_list_def namespaces_counts_def workers_list_def
          jobs_get_job_def jobs_cancel_def jobs_force_ack_def jobs_force_fail_def jobs_requeue_def
          jobs_retry_now_def jobs_force_retry_def failed_list_def failed_purge_def Let_def print_ok_def
          command_steps,
        (erule printed)+)
qed

text \<open>An operator command that reports success has been run on the database that others had left.\<close>

lemma print_ok_validated:
  assumes "print_ok (validated job (operator_call c S L t ns job)) db = (db', out, r)" and "r = Ok ()"
  shows "operator_call c S quiet t ns job (others (L 0) db) = (db', Ok ())"
proof -
  have "operator_call c S L t ns job db = (db', Ok ())"
    using assms by (auto simp: print_ok_def print_answer_def validated_def validate_job_id_def io_bind_def
        io_return_def split: prod.splits rresult.splits if_splits)
  then show ?thesis unfolding operator_call_at by (rule operator_succeeded)
qed

lemma dispatch_operator:
  assumes R: "R = \<lparr>rl_store = redis_queue_store S\<rparr>" and ns: "command_namespace command \<in> {None, Some ns}"
    and c: "operator_of command = Some (c, job)"
    and run: "dispatch rfc3339 R E command db = (db', out, r)" and ok: "r = Ok ()"
  shows "operator_call c S quiet (ce_now E) ns job (others (ce_links E 0) db) = (db', Ok ())"
proof (rule print_ok_validated [OF _ ok])
  have handle: "open_namespace R ns = namespace_object \<lparr>nh_store = redis_queue_store S, nh_namespace = ns\<rparr>"
    by (simp add: open_namespace_def namespace_handle_def R)
  have "case command_namespace command of None \<Rightarrow> True | Some n \<Rightarrow> n = ns"
    using ns by (auto split: option.splits)
  then show "print_ok (validated job (operator_call c S (ce_links E) (ce_now E) ns job)) db = (db', out, r)"
    using run c
    by (cases command)
       (auto simp: dispatch_def jobs_cancel_def jobs_force_ack_def jobs_force_fail_def jobs_requeue_def
          jobs_retry_now_def jobs_force_retry_def handle handle_defs client_cancel_def client_force_ack_def
          client_force_fail_def client_requeue_def client_retry_now_def client_force_retry_def
          operator_call_def force_fail_def)
qed

lemma upgrade_install_prints: "upgrade_install U binary force updater check = Ok lines \<Longrightarrow> lines \<noteq> []"
proof -
  assume "upgrade_install U binary force updater check = Ok lines"
  then obtain outcome where "lines = (case outcome of
      Up_to_date status \<Rightarrow> [cu_format_status_summary U status]
    | Installed status \<Rightarrow> [''updated '' @ binary @ '' to '' @ cu_latest_version U status])"
    by (auto simp: upgrade_install_def)
  then show "lines \<noteq> []" by (cases outcome) simp_all
qed

lemma upgrade_run_prints: "upgrade_run U env binary args = Ok lines \<Longrightarrow> lines \<noteq> []"
  by (auto simp: upgrade_run_def upgrade_status_def Let_def dest: upgrade_install_prints
      split: if_splits)

text \<open>
  C21. A command of the tool acts on the queue at most once, and only as its name says, whatever is
  lost on the way and whatever others do between its reads and its write: an operator command is
  that operation on the job it names, a purge removes the failed jobs its arguments select, the list
  of workers forgets stale workers, and every other command changes nothing. When an operator command
  succeeds it has run exactly once, last, and the queue accepted it. With only steps of the queue by
  others, a reachable database stays reachable. The tool prints something exactly when it succeeds.
\<close>

theorem cli_keeps_queue:
  assumes "redis_driver_connect (cw_crate W) (to_config connect) = Ok driver"
    and "S = \<lparr>redis = cw_server W driver, chrono = cw_chrono W, store_config = to_config connect\<rparr>"
    and "command_namespace command \<in> {None, Some ns}"
    and "calls_follow U (ce_links E)"
    and "cli_main W E connect command db = (db', out, r)"
  shows "once U (command_step U S ns (cw_rfc3339 W) (ce_now E) command) db db' \<and>
    (\<forall>c job. operator_of command = Some (c, job) \<longrightarrow> r = Ok () \<longrightarrow>
       (\<exists>db0. U\<^sup>*\<^sup>* db db0 \<and> operator_call c S quiet (ce_now E) ns job db0 = (db', Ok ()))) \<and>
    (U \<le> queue_step S ns False \<longrightarrow> reachable S ns False db \<longrightarrow> reachable S ns False db') \<and>
    (r = Ok () \<longleftrightarrow> out \<noteq> [])"
proof -
  let ?V = "command_step U S ns (cw_rfc3339 W) (ce_now E) command"
  have reach: "reachable S ns False db'" if "once U ?V db db'" "U \<le> queue_step S ns False" "reachable S ns False db"
    using once_into [OF that(2) command_step_queue that(1)] that(3) by (rule reachable_steps)
  show ?thesis
  proof (cases "\<exists>args. command = Upgrade_command args")
    case True
    then have "db' = db" "r = Ok () \<longleftrightarrow> out \<noteq> []" "operator_of command = None"
      using assms(5) by (auto simp: cli_main_def split: rresult.splits dest: upgrade_run_prints)
    then show ?thesis by (simp add: once_stay)
  next
    case False
    then have run: "run_command W E connect command db = (db', out, r)"
      using assms(5) by (cases command) (simp_all add: cli_main_def)
    show ?thesis
    proof (cases "redloop_connect (cw_crate W) (cw_server W) (cw_chrono W) (to_config connect)")
      case (Ok R)
      with assms(1,2) have R: "R = \<lparr>rl_store = redis_queue_store S\<rparr>"
        by (auto simp: redloop_connect_def redis_store_connect_def)
      have step: "dispatch (cw_rfc3339 W) R E command db = (db', out, r)"
        using run Ok by (simp add: run_command_def)
      have "U\<^sup>*\<^sup>* db (others (ce_links E 0) db)" using assms(4) by (simp add: calls_follow_def follows_def)
      then show ?thesis
        using dispatch_once [OF R assms(3,4) _ step] False dispatch_operator [OF R assms(3)] step reach by blast
    qed (use run in \<open>auto simp: run_command_def once_stay\<close>)
  qed
qed

text \<open>A world with the in-memory Redis behind every connection.\<close>

definition demo_world :: "(nat, mem_db, nat, nat, nat) cli_world" where
  "demo_world =
     \<lparr>cw_crate =
        \<lparr>client_open = (\<lambda>_. Inr 0), connection_manager_new = (\<lambda>_ _. Inr 0),
         sentinel_build = (\<lambda>_ _. Inr 0), sentinel_get_client = (\<lambda>_. Inr 0),
         cluster_build = (\<lambda>_ _ _. Inr 0), cluster_get_async_connection = (\<lambda>_. Inr 0)\<rparr>,
      cw_server = (\<lambda>_. mem_redis), cw_chrono = chrono_range, cw_rfc3339 = (\<lambda>_. None),
      cw_updater =
        \<lparr>cu_current_target = Inl 0, cu_new = (\<lambda>_. Inr 0), cu_status = (\<lambda>_ _. Inr 0),
         cu_upgrade = (\<lambda>_ _. Inr (Installed 0)), cu_format_status_summary = (\<lambda>_. ''ok''),
         cu_update_available = (\<lambda>_. False), cu_latest_version = (\<lambda>_. ''0.2.0''), cu_current_exe = Inl 0\<rparr>,
      cw_release_server = None\<rparr>"

text \<open>Arguments that lead to the store of the small queue, on which an operator cancels job \<open>c\<close>.\<close>

definition demo_connect :: connect_args where
  "demo_connect =
     default_connect_args\<lparr>ca_key_prefix := ''app'', ca_redis_url := Some ''redis://localhost''\<rparr>"

definition demo_cli_run :: "mem_db \<times> printed list \<times> (unit, nat cli_error) rresult" where
  "demo_cli_run = cli_main demo_world \<lparr>ce_links = quiet, ce_now = 500000\<rparr> demo_connect
     (Cancel \<lparr>ja_namespace = ''mail'', ja_job_id = ''c''\<rparr>) demo_db"

lemma demo_to_config: "to_config demo_connect = store_config demo_store"
  by (simp add: demo_connect_def to_config_def default_connect_args_def demo_store_def)

lemma demo_driver: "redis_driver_connect (cw_crate demo_world) (to_config demo_connect) = Ok (Single 0)"
  by (simp add: demo_world_def demo_to_config demo_store_def redis_driver_connect_def)

lemma demo_world_store:
  "demo_store = \<lparr>redis = cw_server demo_world (Single 0), chrono = cw_chrono demo_world,
     store_config = to_config demo_connect\<rparr>"
  by (simp add: demo_to_config) (simp add: demo_store_def demo_world_def)

lemma demo_cancel:
  "snd (cancel demo_store quiet 500000 ''mail'' ''c'' demo_db) = Ok ()"
  "stored demo_store ''mail'' (fst (cancel demo_store quiet 500000 ''mail'' ''c'' demo_db))
     (demo_queue(''c'' := fresh Absent))"
proof -
  have stored: "stored demo_store ''mail'' (others (quiet 0) demo_db) demo_queue" by simp
  note run = operator_applies [where L = quiet and db = demo_db and c = Op_cancel and now = 500000 and j = "''c''",
    OF demo_good stored]
  show "snd (cancel demo_store quiet 500000 ''mail'' ''c'' demo_db) = Ok ()"
    "stored demo_store ''mail'' (fst (cancel demo_store quiet 500000 ''mail'' ''c'' demo_db))
       (demo_queue(''c'' := fresh Absent))"
    using applies_answered(1,2) [OF run]
    by (simp_all add: cancel_def operator_effect_def accepts_def demo_place)
qed

lemma demo_cli_succeeds: "snd (snd demo_cli_run) = Ok ()"
proof -
  have connected: "redloop_connect (cw_crate demo_world) (cw_server demo_world) (cw_chrono demo_world)
      (to_config demo_connect) = Ok \<lparr>rl_store = redis_queue_store demo_store\<rparr>"
    using demo_driver demo_world_store
    by (simp add: redloop_connect_def redis_store_connect_def connect_config_validate_def
        deployment_validate_def demo_to_config) (simp add: demo_store_def)
  obtain db' where "cancel demo_store quiet 500000 ''mail'' ''c'' demo_db = (db', Ok ())"
    using demo_cancel(1) by (metis prod.collapse)
  then show ?thesis
    by (simp add: demo_cli_run_def cli_main_def run_command_def connected dispatch_def jobs_cancel_def
        open_namespace_def namespace_handle_def handle_defs client_cancel_def validated_def
        validate_job_id_def io_bind_def io_return_def print_ok_def print_answer_def)
qed

theorem cli_keeps_queue_witness:
  "once (\<lambda>_ _. False) (operator_step demo_store ''mail'' 500000 Op_cancel ''c'') demo_db (fst demo_cli_run) \<and>
   stored demo_store ''mail'' (fst demo_cli_run) (demo_queue(''c'' := fresh Absent)) \<and>
   fst (snd demo_cli_run) \<noteq> []"
proof -
  let ?command = "Cancel \<lparr>ja_namespace = ''mail'', ja_job_id = ''c''\<rparr>"
  have ns: "command_namespace ?command \<in> {None, Some ''mail''}" by simp
  have links: "calls_follow (\<lambda>_ _. False) (ce_links \<lparr>ce_links = quiet, ce_now = 500000\<rparr>)" by simp
  have run: "cli_main demo_world \<lparr>ce_links = quiet, ce_now = 500000\<rparr> demo_connect ?command demo_db =
    (fst demo_cli_run, fst (snd demo_cli_run), snd (snd demo_cli_run))"
    by (simp add: demo_cli_run_def)
  have c: "operator_of ?command = Some (Op_cancel, ''c'')" by simp
  note result = cli_keeps_queue [OF demo_driver demo_world_store ns links run]
  have none: "(\<lambda>_ _. False)\<^sup>*\<^sup>* db db0 \<Longrightarrow> db0 = db" for db db0 :: mem_db
    by (induction rule: rtranclp_induct) simp_all
  obtain db0 where db0: "(\<lambda>_ _. False)\<^sup>*\<^sup>* demo_db db0"
    "operator_call Op_cancel demo_store quiet 500000 ''mail'' ''c'' db0 = (fst demo_cli_run, Ok ())"
    using result c demo_cli_succeeds by auto
  have "cancel demo_store quiet 500000 ''mail'' ''c'' demo_db = (fst demo_cli_run, Ok ())"
    using db0(2) none [OF db0(1)] by (simp add: operator_call_def)
  with demo_cancel(2) have "stored demo_store ''mail'' (fst demo_cli_run) (demo_queue(''c'' := fresh Absent))"
    by simp
  with result c demo_cli_succeeds show ?thesis by (simp add: command_steps(1) [OF c])
qed

end
