(* ===== verification/Recovery.thy ===== *)
theory Recovery
  imports Demo
begin

text \<open>
  Recovery from a crash: a job whose worker has disappeared is taken back when its lease has expired
  and goes to the next worker, which composes the reap and the reserve of the store.
\<close>

section \<open>Taken back and leased again\<close>

definition overdue :: "int \<Rightarrow> (string \<Rightarrow> job) \<Rightarrow> string set" where
  "overdue now J = {j. \<exists>d \<le> now. leased_until (place (J j)) = Some d}"

definition runnable :: "int \<Rightarrow> (string \<Rightarrow> job) \<Rightarrow> string set" where
  "runnable now J = {j. turn_of now j (place (J j)) \<noteq> None}"

lemma overdue_expired: "overdue now J = snd ` expired now J"
  by (force simp: overdue_def expired_def)

lemma expired_inj: "inj_on snd (expired now J)"
  by (auto simp: inj_on_def expired_def)

lemma runnable_turns: "runnable now J = turn_job ` turns now J"
proof (rule set_eqI)
  fix j
  show "j \<in> runnable now J \<longleftrightarrow> j \<in> turn_job ` turns now J"
    using turn_of_job by (force simp: runnable_def turns_def image_iff)
qed

lemma turn_order_runnable:
  assumes "good_store S" "stored S ns db J"
  shows "set (map turn_job (turn_order now J)) = runnable now J"
    and "length (turn_order now J) = card (runnable now J)"
proof -
  have fin: "finite (turns now J)"
    by (rule redis_service.finite_turns [OF good_storeD(1) [OF assms(1)] assms(2) [unfolded stored_def]])
  then show set: "set (map turn_job (turn_order now J)) = runnable now J"
    by (simp add: turn_order_def runnable_turns)
  show "length (turn_order now J) = card (runnable now J)"
    using distinct_card [OF turn_jobs_distinct [OF assms, of now]] by (simp only: set length_map)
qed

lemma runnable_expire_all:
  "runnable now' (expire_all now js J) = (runnable now' J - set js) \<union> set js"
  by (auto simp: runnable_def expire_all_iff)

text \<open>A reap leaves the pinned retry policy alone.\<close>

context redis_service begin

lemma decrement_worker_hget: "k \<noteq> wl \<Longrightarrow> hget R (decrement_worker R wl w db) k f = hget R db k f"
  using hincrby_other [of k wl f w db "- 1"]
  by (simp add: decrement_worker_def split_def Let_def)

lemma reap_one_hget:
  "k \<noteq> lm \<Longrightarrow> k \<noteq> wl \<Longrightarrow> hget R (reap_one R le lm rd wl re now j db) k f = hget R db k f"
  by (simp add: reap_one_def Let_def decrement_worker_hget split: option.splits)

lemma reap_loop_hget:
  "k \<noteq> lm \<Longrightarrow> k \<noteq> wl \<Longrightarrow> hget R (fst (reap_loop n R le lm rd wl re now db)) k f = hget R db k f"
  by (induction n arbitrary: db) (simp_all add: split_def Let_def reap_one_hget split: list.splits)

end

lemma reap_policy:
  assumes "good_store S"
  shows "hget (redis S) (fst (reap_expired S L ns t limit db)) (cfg (store_keys S ns)) f =
    hget (redis S) (if limit = 0 then db else others (L 0) db) (cfg (store_keys S ns)) f"
proof -
  have Z: "redis_service (redis S)" using assms by (rule good_storeD)
  note keys = keys_okD [OF keys_ok_store [of S ns]]
  let ?run = "run_script S (reap_expired_lua (redis S))
    [leased (store_keys S ns), lease_meta (store_keys S ns), ready (store_keys S ns),
     workers_leases (store_keys S ns), rerun (store_keys S ns)]
    [show_int (micros (chrono S) t), show_nat limit]"
  have "hget (redis S) (fst (?run db0)) (cfg (store_keys S ns)) f =
      hget (redis S) db0 (cfg (store_keys S ns)) f" for db0
    by (simp add: run_script_def split_def Let_def redis_service.reap_loop_hget [OF Z] keys)
  with query_cmd_db [of S "''reap_expired''" "L 0" ?run db] show ?thesis
    by (auto simp: reap_expired_def Let_def eval_def)
qed

text \<open>A reap with a high enough limit makes every overdue job ready.\<close>

lemma reap_all_overdue:
  assumes S: "good_store S" and J: "stored S ns (others (L 0) db) J" and answered: "delivery (L 0) = Answered"
    and now: "now = dbl (micros (chrono S) t)" and limit: "card (overdue now J) \<le> limit" "safe_int (int limit)" "limit < 10 ^ 14"
    and j: "j \<in> overdue now J" and run: "reap_expired S L ns t limit db = (db1, r1)"
  obtains J1 where "stored S ns db1 J1"
    and "\<And>i. J1 i = (if i \<in> overdue now J then (J i)\<lparr>place := At_ready now, again := False\<rparr> else J i)"
    and "runnable now' J1 = runnable now' J \<union> overdue now J"
proof -
  have fin: "finite (expired now J)"
    using redis_service.finite_expired [OF good_storeD(1) [OF S] J [unfolded stored_def]] .
  define js where "js = take limit (reap_order now J)"
  have "set (reap_order now J) = overdue now J" "length (reap_order now J) = card (overdue now J)"
    using fin by (simp_all add: reap_order_def overdue_expired card_image [OF expired_inj])
  then have js: "set js = overdue now J" using limit(1) by (simp add: js_def)
  have pos: "0 < limit" using j js by (cases limit) (auto simp: js_def)
  have "applies S ''reap_expired'' ns (L 0) J db (expire_all now js J) (Ok (length js)) (db1, r1)"
    unfolding run [symmetric]
    by (rule reap_applies [where L = L and db = db, OF S J pos limit(2) now js_def])
       (use limit(3) in \<open>simp add: js_def\<close>)
  from applies_answered(2) [OF this answered] have "stored S ns db1 (expire_all now js J)" by simp
  then show thesis
    using that [of "expire_all now js J"] by (auto simp: expire_all_iff js runnable_expire_all)
qed

text \<open>A reserve with a token for every runnable job leases each of them.\<close>

lemma reserve_all_runnable:
  assumes S: "good_store S" and J: "stored S ns db J"
    and policy: "hget (redis S) db (cfg (store_keys S ns)) ''retry_policy'' \<in> {None, Some (retry_policy_key config)}"
    and room: "card (runnable now J) \<le> length tokens" "safe_int (int (length tokens))"
    and now: "now = dbl (micros (chrono S) t)"
    and until: "safe_int (now + dbl (duration_micros (lease_duration config)))"
    and safe: "\<forall>s i. place (J i) = At_scheduled s \<longrightarrow> safe_int s \<and> s \<noteq> 0"
    and j: "j \<in> runnable now J"
    and run: "reserve S quiet ns config (length tokens) t tokens db = (db', r)"
  obtains batch J' tok d where "r = Ok batch" and "stored S ns db' J'"
    and "\<lparr>rj_job_id = j, rj_lease_token = tok\<rparr> \<in> set (rb_jobs batch)" and "tok \<in> set tokens"
    and "J' j = (J j)\<lparr>place := At_leased d (worker_id config) tok\<rparr>"
proof -
  note order = turn_order_runnable [OF S J, of now]
  define gs where "gs = zip (map turn_job (take (length tokens) (turn_order now J))) tokens"
  define d where "d = dbl (now + dbl (duration_micros (lease_duration config)))"
  define J' where "J' = lease_all (worker_id config) d gs J"
  have d: "i64_min \<le> d" "d \<le> i64_max"
    using until by (auto simp: d_def safe_int_def i64_min_def i64_max_def)
  have fst_gs: "map fst gs = map turn_job (turn_order now J)"
    using order(2) room(1) by (simp add: gs_def map_fst_zip_take)
  then have "j \<in> set (map fst gs)" using j order(1) by simp
  then obtain tok where g: "(j, tok) \<in> set gs" by force
  then have tok: "tok \<in> set tokens" by (auto simp: gs_def dest: set_zip_rightD)
  then have pos: "0 < length tokens" by (cases tokens) simp_all
  have future: "\<forall>s \<in> future_scores (g14 now) J'. safe_int s \<and> s \<noteq> 0"
    using safe by (auto simp: future_scores_def J'_def dest!: lease_all_scheduled)
  have quiet: "stored S ns (others (quiet 0) db) J" using J by simp
  have r: "r = Ok (reserved_batch (g14 now) J' gs)" and db': "stored S ns db' J'"
    using reserve_applies [where L = quiet, OF S quiet _ _ _ pos room(2) refl now d_def d gs_def J'_def future run]
      policy by simp_all
  have "distinct (map fst gs)" unfolding fst_gs by (rule turn_jobs_distinct [OF S J])
  from lease_all_member [OF g this] have "J' j = (J j)\<lparr>place := At_leased d (worker_id config) tok\<rparr>"
    by (simp add: J'_def)
  moreover have "\<lparr>rj_job_id = j, rj_lease_token = tok\<rparr> \<in> set (rb_jobs (reserved_batch (g14 now) J' gs))"
    using g by (force simp: reserved_batch_def)
  ultimately show thesis using that r db' tok by blast
qed

text \<open>
  C11. A job is not stuck with a worker that has crashed. When its lease has expired, another worker's
  reap makes it ready, as long as the limit covers the expired leases, and a reserve that has room for
  all runnable jobs leases it to that worker with one of its tokens; its failure count stays. From
  then on the crashed worker, should it come back, gets a lease mismatch.
\<close>

theorem crashed_job_recovered:
  assumes "good_store S" and "stored S ns (others (L 0) db) J" and "delivery (L 0) = Answered"
    and "now = dbl (micros (chrono S) t)" and "now' = dbl (micros (chrono S) t')"
    and "place (J j) = At_leased deadline w tok" and "deadline \<le> now"
    and "card (overdue now J) \<le> limit" and "safe_int (int limit)" and "limit < 10 ^ 14"
    and "card (runnable now' J \<union> overdue now J) \<le> length tokens" and "safe_int (int (length tokens))"
    and "reap_expired S L ns t limit db = (db1, r1)"
    and "hget (redis S) (others (L 0) db) (cfg (store_keys S ns)) ''retry_policy'' \<in> {None, Some (retry_policy_key config)}"
    and "safe_int (now' + dbl (duration_micros (lease_duration config)))"
    and "\<forall>s j. place (J j) = At_scheduled s \<longrightarrow> safe_int s \<and> s \<noteq> 0"
    and "reserve S quiet ns config (length tokens) t' tokens db1 = (db2, r2)"
    and "worker_id config \<noteq> w"
  shows "\<exists>batch J2 tok' d. r2 = Ok batch \<and> \<lparr>rj_job_id = j, rj_lease_token = tok'\<rparr> \<in> set (rb_jobs batch) \<and>
    tok' \<in> set tokens \<and> stored S ns db2 J2 \<and> fails (J2 j) = fails (J j) \<and>
    place (J2 j) = At_leased d (worker_id config) tok' \<and>
    snd (ack S quiet t'' ns w j tok db2) = Err (LeaseMismatch j)"
proof -
  have j: "j \<in> overdue now J" using assms(6,7) by (simp add: overdue_def)
  obtain J1 where db1: "stored S ns db1 J1"
    and J1: "\<And>i. J1 i = (if i \<in> overdue now J then (J i)\<lparr>place := At_ready now, again := False\<rparr> else J i)"
    and run1: "runnable now' J1 = runnable now' J \<union> overdue now J"
    using reap_all_overdue [where L = L and db = db and now' = now', OF assms(1-4,8-10) j assms(13)] by blast
  have "finite (overdue now J)"
    unfolding overdue_expired
    using redis_service.finite_expired [OF good_storeD(1) [OF assms(1)] assms(2) [unfolded stored_def]] by simp
  then have "limit \<noteq> 0" using j assms(8) card_gt_0_iff [of "overdue now J"] by auto
  then have policy: "hget (redis S) db1 (cfg (store_keys S ns)) ''retry_policy'' \<in> {None, Some (retry_policy_key config)}"
    using reap_policy [OF assms(1), of L ns t limit db "''retry_policy''"] assms(14) by (simp add: assms(13))
  have safe: "\<forall>s i. place (J1 i) = At_scheduled s \<longrightarrow> safe_int s \<and> s \<noteq> 0"
    using assms(16) by (auto simp: J1)
  have room: "card (runnable now' J1) \<le> length tokens" and runnable: "j \<in> runnable now' J1"
    using assms(11) j by (simp_all add: run1)
  obtain batch J2 tok' d where r2: "r2 = Ok batch" and db2: "stored S ns db2 J2"
    and granted: "\<lparr>rj_job_id = j, rj_lease_token = tok'\<rparr> \<in> set (rb_jobs batch)" "tok' \<in> set tokens"
    and J2: "J2 j = (J1 j)\<lparr>place := At_leased d (worker_id config) tok'\<rparr>"
    using reserve_all_runnable [OF assms(1) db1 policy room assms(12,5,15) safe runnable assms(17)] by blast
  have "stored S ns (others (quiet 0) db2) J2" using db2 by simp
  from applies_answered(1) [OF ack_applies [where L = quiet and db = db2 and w = w and j = j and t = tok
      and now = t'', OF assms(1) this]]
  have "snd (ack S quiet t'' ns w j tok db2) = Err (LeaseMismatch j)"
    using assms(18) by (simp add: lease_result_def J2)
  then show ?thesis
    using r2 db2 granted J2 J1 [of j] j by (auto intro!: exI [of _ J2])
qed

text \<open>Worker \<open>w\<close> has crashed with job \<open>a\<close>; worker \<open>v\<close> takes it with the second of two tokens.\<close>

definition demo_tokens :: "string list" where
  "demo_tokens = [''t1'', ''t2'', ''t3'']"

theorem crashed_job_recovered_witness:
  "\<exists>batch tok'. snd (reserve demo_store quiet ''mail'' demo_config 3 9500000 demo_tokens
      (fst (reap_expired demo_store quiet ''mail'' 9500000 5 demo_db))) = Ok batch \<and>
    \<lparr>rj_job_id = ''a'', rj_lease_token = tok'\<rparr> \<in> set (rb_jobs batch) \<and> tok' \<in> {''t1'', ''t2'', ''t3''}"
proof -
  let ?reap = "reap_expired demo_store quiet ''mail'' 9500000 5 demo_db"
  have now: "9500 = dbl (micros (chrono demo_store) 9500000)" by (simp add: micros_def safe_int_def)
  have stored: "stored demo_store ''mail'' (others (quiet 0) demo_db) demo_queue" by simp
  have overdue: "overdue 9500 demo_queue = {''a''}"
    by (auto simp: overdue_def demo_queue_def split: if_splits)
  have runnable: "runnable 9500 demo_queue = {''b'', ''c''}"
    by (auto simp: runnable_def demo_queue_def)
  have length: "length demo_tokens = 3" by (simp add: demo_tokens_def)
  have policy: "hget (redis demo_store) (others (quiet 0) demo_db) (cfg (store_keys demo_store ''mail''))
      ''retry_policy'' \<in> {None, Some (retry_policy_key demo_config)}"
    by (simp add: demo_policy demo_keys_def [symmetric])
  have safe: "safe_int (9500 + dbl (duration_micros (lease_duration demo_config)))"
    by (simp add: demo_config_def duration_micros_def as_micros_def i64_max_def safe_int_def)
  have sched: "\<forall>s j. place (demo_queue j) = At_scheduled s \<longrightarrow> safe_int s \<and> s \<noteq> 0"
    by (auto simp: demo_queue_def safe_int_def split: if_splits)
  have "\<exists>batch J2 tok' d. snd (reserve demo_store quiet ''mail'' demo_config 3 9500000 demo_tokens (fst ?reap)) = Ok batch \<and>
      \<lparr>rj_job_id = ''a'', rj_lease_token = tok'\<rparr> \<in> set (rb_jobs batch) \<and> tok' \<in> set demo_tokens \<and>
      stored demo_store ''mail'' (fst (reserve demo_store quiet ''mail'' demo_config 3 9500000 demo_tokens (fst ?reap))) J2 \<and>
      fails (J2 ''a'') = fails (demo_queue ''a'') \<and> place (J2 ''a'') = At_leased d (worker_id demo_config) tok' \<and>
      snd (ack demo_store quiet 0 ''mail'' ''w'' ''a'' ''t''
        (fst (reserve demo_store quiet ''mail'' demo_config 3 9500000 demo_tokens (fst ?reap)))) = Err (LeaseMismatch ''a'')"
    unfolding length [symmetric]
    by (rule crashed_job_recovered [where L = quiet and db = demo_db, OF demo_good stored _ now now
          demo_place(1) _ _ _ _ _ _ prod.collapse [symmetric] policy safe sched prod.collapse [symmetric]])
       (simp_all add: overdue runnable length safe_int_def demo_worker)
  moreover have "set demo_tokens = {''t1'', ''t2'', ''t3''}" by (simp add: demo_tokens_def)
  ultimately show ?thesis by blast
qed

end
