(* ===== verification/Duplicates.thy ===== *)
theory Duplicates
  imports Demo
begin

text \<open>
  The cleaning loop of the reserve script, which drops a due schedule of a job that is also ready or
  leased. In a reachable database there is none, so the lemmas here hold of any database: the loop
  ends within the number of rounds it is given, and it stops at the first due job of its own.
\<close>

section \<open>The due entries\<close>

definition due_entries :: "'db redis_api \<Rightarrow> redis_key \<Rightarrow> int \<Rightarrow> 'db \<Rightarrow> zentry list" where
  "due_entries R sc now_us db = zrangebyscore R db sc NegInf (Incl now_us) None"

definition held_elsewhere :: "'db redis_api \<Rightarrow> redis_key \<Rightarrow> redis_key \<Rightarrow> 'db \<Rightarrow> zentry \<Rightarrow> bool" where
  "held_elsewhere R rd le db e \<longleftrightarrow>
     zscore R db rd (zmember e) \<noteq> None \<or> zscore R db le (zmember e) \<noteq> None"

context redis_service begin

lemma due_candidate_entries: "due_candidate R sc now db = take 1 (due_entries R sc now db)"
  by (simp add: due_candidate_def due_entries_def zrangebyscore_filter)

lemma zall_zrem: "zall R (zrem R db k m) k = filter (\<lambda>e. zmember e \<noteq> m) (zall R db k)"
  by (rule zall_filter [OF redis_service_axioms]) simp

lemma due_entries_Cons:
  assumes "due_entries R sc now db = e # es"
  shows "due_entries R sc now (zrem R db sc (zmember e)) = es"
proof -
  let ?due = "filter (in_range NegInf (Incl now))"
  have due: "?due (zall R db sc) = e # es"
    using assms by (simp add: due_entries_def zrangebyscore_filter)
  have "distinct (map zmember (e # es))"
    using distinct_map_filter [OF zall_distinct [of db sc], of "in_range NegInf (Incl now)"]
    by (simp only: due)
  then have "filter (\<lambda>x. zmember x \<noteq> zmember e) (e # es) = es"
    by (auto simp: filter_id_conv rev_image_eqI)
  moreover have "?due (filter P xs) = filter P (?due xs)" for P xs
    by (simp add: conj_commute)
  ultimately show ?thesis
    by (simp only: due_entries_def zrangebyscore_filter zall_zrem option.case due)
qed

lemma held_elsewhere_zrem:
  "rd \<noteq> sc \<Longrightarrow> le \<noteq> sc \<Longrightarrow> held_elsewhere R rd le (zrem R db sc m) = held_elsewhere R rd le db"
  by (simp add: held_elsewhere_def fun_eq_iff)

lemma drop_duplicates_entries:
  assumes "rd \<noteq> sc" "le \<noteq> sc" "length (due_entries R sc now db) \<le> n"
  shows "snd (drop_duplicates n R rd sc le now db (due_candidate R sc now db)) =
      take 1 (dropWhile (held_elsewhere R rd le db) (due_entries R sc now db)) \<and>
    zscore R (fst (drop_duplicates n R rd sc le now db (due_candidate R sc now db))) k j =
      (if k = sc \<and> j \<in> zmember ` set (takeWhile (held_elsewhere R rd le db) (due_entries R sc now db)) then None
       else zscore R db k j)"
  using assms(3)
proof (induction n arbitrary: db)
  case 0
  then show ?case by (simp add: due_candidate_entries)
next
  case (Suc n)
  show ?case
  proof (cases "due_entries R sc now db")
    case Nil
    then show ?thesis by (simp add: due_candidate_entries)
  next
    case (Cons e es)
    let ?db = "zrem R db sc (zmember e)"
    have es: "due_entries R sc now ?db = es"
      by (rule due_entries_Cons [OF Cons])
    show ?thesis
      using Suc.IH [of ?db] Suc.prems assms(1,2)
      by (auto simp: due_candidate_entries Cons es Let_def held_elsewhere_zrem
          held_elsewhere_def [of R rd le db e])
  qed
qed

lemma due_entries_length: "length (due_entries R sc now db) \<le> zcard R db sc"
  by (simp add: due_entries_def zrangebyscore_filter zcard_length)

end


section \<open>The loop ends\<close>

text \<open>
  C40. The cleaning loop ends: with at least as many rounds as the schedule has entries it stops at the
  first due job that is neither ready nor leased, or because no due job is left, and it has taken
  exactly the due jobs before it off the schedule. More rounds change nothing.
\<close>

theorem cleaning_ends:
  assumes "redis_service R" "rd \<noteq> sc" "le \<noteq> sc" "zcard R db sc \<le> rounds"
    and "drop_duplicates rounds R rd sc le now_us db (due_candidate R sc now_us db) =
      (db', candidate)"
  shows "candidate = take 1 (dropWhile (held_elsewhere R rd le db) (due_entries R sc now_us db)) \<and>
    zscore R db' k j =
      (if k = sc \<and>
          j \<in> zmember ` set (takeWhile (held_elsewhere R rd le db) (due_entries R sc now_us db))
       then None else zscore R db k j)"
  using redis_service.drop_duplicates_entries [OF assms(1-3)
      order_trans [OF redis_service.due_entries_length [OF assms(1)] assms(4)]] assms(5)
  by (metis fst_conv snd_conv)

text \<open>A damaged queue in which the due job \<open>c\<close> is also leased, and \<open>e\<close> is due.\<close>

definition damaged_db :: mem_db where
  "damaged_db =
     \<lparr>mz = (\<lambda>_. [])(''s'' := [(''c'', 400), (''e'', 450)], ''l'' := [(''c'', 9000)]),
      mh = \<lambda>_ _. None, ms = \<lambda>_. []\<rparr>"

theorem cleaning_ends_witness:
  "\<exists>db'. drop_duplicates 2 mem_redis ''r'' ''s'' ''l'' 500 damaged_db
      (due_candidate mem_redis ''s'' 500 damaged_db) = (db', [ZEntry 450 ''e'']) \<and>
    zscore mem_redis db' ''s'' ''c'' = None \<and> zscore mem_redis db' ''l'' ''c'' = Some 9000"
proof -
  have due: "due_entries mem_redis ''s'' 500 damaged_db = [ZEntry 400 ''c'', ZEntry 450 ''e'']"
    by code_simp
  have elsewhere: "held_elsewhere mem_redis ''r'' ''l'' damaged_db (ZEntry 400 ''c'')"
    "\<not> held_elsewhere mem_redis ''r'' ''l'' damaged_db (ZEntry 450 ''e'')"
    by code_simp+
  have size: "zcard mem_redis damaged_db ''s'' \<le> 2" and score: "mem_zscore damaged_db ''l'' ''c'' = Some 9000"
    by code_simp+
  obtain db' candidate where run: "drop_duplicates 2 mem_redis ''r'' ''s'' ''l'' 500 damaged_db
      (due_candidate mem_redis ''s'' 500 damaged_db) = (db', candidate)"
    by (cases "drop_duplicates 2 mem_redis ''r'' ''s'' ''l'' 500 damaged_db
      (due_candidate mem_redis ''s'' 500 damaged_db)")
  show ?thesis
    using cleaning_ends [OF mem.redis_service_axioms _ _ size run, of "''s''" "''c''"]
      cleaning_ends [OF mem.redis_service_axioms _ _ size run, of "''l''" "''c''"] run
    by (simp add: due elsewhere score)
qed

end
