(* ===== verification/Tasks.thy ===== *)
theory Tasks
  imports Prelude
begin

text \<open>
  The developer tool of the repository, \<^verbatim>\<open>xtask/src/\<close>: the file length lint, the test layout lint,
  the check that runs all steps in order, and the review command. The file system is a tree, and
  running a program is a parameter.
\<close>

section \<open>Files\<close>

text \<open>
  A directory lists its entries in the order in which they are read. An \<open>Inl\<close> is the text of the
  error that reading gives.
\<close>

datatype node =
    File string "string + string"
  | Dir string "string + node list"
  | Unreadable string

text \<open>\<^verbatim>\<open>Path::extension\<close>: after the last dot, unless the name has none or only starts with one.\<close>

definition extension :: "string \<Rightarrow> string option" where
  "extension name =
     (let ext = rev (takeWhile (\<lambda>c. c \<noteq> CHR ''.'') (rev name));
          stem = take (length name - length ext - 1) name
      in if CHR ''.'' \<notin> set name \<or> stem = [] \<or> name = ''..'' then None else Some ext)"

text \<open>\<^verbatim>\<open>str::lines().count()\<close>: a last line without a newline counts, nothing after one does not.\<close>

fun line_count :: "string \<Rightarrow> nat" where
  "line_count [] = 0"
| "line_count (c # text) =
     (if c = CHR 0x0A then Suc (line_count text)
      else if CHR 0x0A \<in> set text then line_count text
      else 1)"

text \<open>\<^verbatim>\<open>str::contains\<close>\<close>

fun contains :: "string \<Rightarrow> string \<Rightarrow> bool" where
  "contains [] pattern = (pattern = [])"
| "contains (c # text) pattern = (take (length pattern) (c # text) = pattern \<or> contains text pattern)"

definition join_path :: "string \<Rightarrow> string \<Rightarrow> string" where
  "join_path path name = path @ ''/'' @ name"

text \<open>\<^verbatim>\<open>Path::display\<close> prints the path as it is; errors are texts, as in the code.\<close>

type_synonym 'a tool_result = "('a, string) rresult"


section \<open>The file length lint\<close>

definition rust_file_limit :: nat where
  "rust_file_limit = 300"

definition length_violation :: "string \<Rightarrow> string \<Rightarrow> string list" where
  "length_violation path contents =
     (if line_count contents > rust_file_limit
      then [path @ '' has '' @ show_nat (line_count contents) @ '' lines; limit is '' @ show_nat rust_file_limit]
      else [])"

text \<open>
  The recursion of both lints over a directory: \<open>check\<close> gives the violations of one Rust file. The
  first error ends the whole walk.
\<close>

fun collect_entries :: "(string \<Rightarrow> string \<Rightarrow> string list) \<Rightarrow> string \<Rightarrow> node list \<Rightarrow> string list tool_result"
  and collect_node :: "(string \<Rightarrow> string \<Rightarrow> string list) \<Rightarrow> string \<Rightarrow> node \<Rightarrow> string list tool_result" where
  "collect_entries check path [] = Ok []"
| "collect_entries check path (n # ns) =
     and_then (collect_node check path n) (\<lambda>vs.
     map_ok ((@) vs) (collect_entries check path ns))"
| "collect_node check path (Unreadable source) =
     Err (''read '' @ path @ '' entry: '' @ source)"
| "collect_node check path (Dir name (Inl source)) =
     Err (''read '' @ join_path path name @ '': '' @ source)"
| "collect_node check path (Dir name (Inr ns)) = collect_entries check (join_path path name) ns"
| "collect_node check path (File name contents) =
     (if extension name \<noteq> Some ''rs'' then Ok []
      else case contents of
             Inl source \<Rightarrow> Err (''read '' @ join_path path name @ '': '' @ source)
           | Inr text \<Rightarrow> Ok (check (join_path path name) text))"

text \<open>A root directory that does not exist has no violations.\<close>

definition collect_root ::
    "(string \<Rightarrow> string \<Rightarrow> string list) \<Rightarrow> string \<Rightarrow> (string + node list) option \<Rightarrow> string list tool_result" where
  "collect_root check root dir =
     (case dir of
        None \<Rightarrow> Ok []
      | Some (Inl source) \<Rightarrow> Err (''read '' @ root @ '': '' @ source)
      | Some (Inr ns) \<Rightarrow> collect_entries check root ns)"

text \<open>What a lint prints on success and on failure, and its result.\<close>

record lint_output =
  lo_stdout :: "string list"
  lo_stderr :: "string list"
  lo_result :: "unit tool_result"

definition lint_failed :: "string \<Rightarrow> lint_output" where
  "lint_failed e = \<lparr>lo_stdout = [], lo_stderr = [], lo_result = Err e\<rparr>"

type_synonym file_system = "string \<Rightarrow> (string + node list) option"

definition run_rust_file_length_lint :: "file_system \<Rightarrow> string list \<Rightarrow> lint_output" where
  "run_rust_file_length_lint fs args =
     (if args \<noteq> [] \<and> (length args \<noteq> 1 \<or> args ! 0 \<noteq> ''--all'')
      then lint_failed ''usage: cargo xtask rust-file-length-lint [--all]''
      else
        case and_then (collect_root length_violation ''crates'' (fs ''crates'')) (\<lambda>vs.
             map_ok ((@) vs) (collect_root length_violation ''xtask'' (fs ''xtask''))) of
          Ok [] \<Rightarrow> \<lparr>lo_stdout = [''rust_file_length_lint=ok''], lo_stderr = [], lo_result = Ok ()\<rparr>
        | Ok violations \<Rightarrow>
            \<lparr>lo_stdout = [], lo_stderr = violations,
             lo_result = Err (show_nat (length violations) @ '' Rust file(s) exceeded '' @
               show_nat rust_file_limit @ '' lines'')\<rparr>
        | Err e \<Rightarrow> lint_failed e
        | Panic \<Rightarrow> lint_failed [])"


section \<open>The test layout lint\<close>

text \<open>The components of a relative path without dots.\<close>

fun components :: "string \<Rightarrow> string list" where
  "components [] = [[]]"
| "components (c # path) =
     (if c = CHR ''/'' then [] # components path
      else (c # hd (components path)) # tl (components path))"

definition is_test_file :: "string \<Rightarrow> bool" where
  "is_test_file path \<longleftrightarrow> (\<exists>c \<in> set (components path). c = ''_tests_'' \<or> c = ''tests'')"

definition layout_violation :: "string \<Rightarrow> string \<Rightarrow> string list" where
  "layout_violation path contents =
     (if \<not> is_test_file path \<and> (contains contents ''#[test]'' \<or> contains contents ''#[tokio::test]'')
      then [path @ '' contains test bodies outside a _tests_ module'']
      else [])"

definition source_layout_lint :: "file_system \<Rightarrow> lint_output" where
  "source_layout_lint fs =
     (case collect_root layout_violation ''crates'' (fs ''crates'') of
        Ok [] \<Rightarrow> \<lparr>lo_stdout = [''source_layout_lint=ok''], lo_stderr = [], lo_result = Ok ()\<rparr>
      | Ok violations \<Rightarrow>
          \<lparr>lo_stdout = [], lo_stderr = violations,
           lo_result = Err (show_nat (length violations) @ '' Rust test layout violation(s)'')\<rparr>
      | Err e \<Rightarrow> lint_failed e
      | Panic \<Rightarrow> lint_failed [])"


section \<open>Running programs\<close>

text \<open>
  A program is started with arguments and environment variables; it cannot be started, or it ends
  with a status that is a success or not and has a text. The machine also says which files there
  are; both may depend on what has run before.
\<close>

record program =
  pr_name :: string
  pr_args :: "string list"
  pr_envs :: "(string \<times> string) list"

datatype exit_status = Exit (success: bool) (exit_text: string)

datatype io_error_kind = BrokenPipe | OtherIo

text \<open>
  \<open>mc_run\<close> runs a program with the terminal of the tool, \<open>mc_output\<close> collects its standard
  output. A child is spawned with a pipe to write to (the boolean says that the pipe is there),
  written to, and waited for.
\<close>

record 'w machine =
  mc_exists :: "'w \<Rightarrow> string \<Rightarrow> bool"
  mc_files :: "'w \<Rightarrow> file_system"
  mc_run :: "'w \<Rightarrow> program \<Rightarrow> 'w \<times> (string + exit_status)"
  mc_output :: "'w \<Rightarrow> program \<Rightarrow> 'w \<times> (string + exit_status \<times> string)"
  mc_spawn :: "'w \<Rightarrow> program \<Rightarrow> 'w \<times> (string + bool)"
  mc_write_all :: "'w \<Rightarrow> string \<Rightarrow> 'w \<times> (io_error_kind \<times> string) option"
  mc_wait :: "'w \<Rightarrow> 'w \<times> (string + exit_status)"

datatype printed_line = Stdout string | Stderr string

type_synonym 'w task = "'w \<Rightarrow> 'w \<times> printed_line list \<times> unit tool_result"

text \<open>The question mark between two tasks.\<close>

definition then_task :: "'w task \<Rightarrow> 'w task \<Rightarrow> 'w task" where
  "then_task a b w =
     (case a w of
        (w', out, Ok _) \<Rightarrow> (case b w' of (w'', out', r) \<Rightarrow> (w'', out @ out', r))
      | (w', out, r) \<Rightarrow> (w', out, r))"

definition lint_task :: "('w \<Rightarrow> lint_output) \<Rightarrow> 'w task" where
  "lint_task lint w =
     (let out = lint w
      in (w, map Stdout (lo_stdout out) @ map Stderr (lo_stderr out), lo_result out))"

definition run_command_with_env ::
    "'w machine \<Rightarrow> string \<Rightarrow> string list \<Rightarrow> (string \<times> string) list \<Rightarrow> 'w task" where
  "run_command_with_env M name args envs w =
     (case mc_run M w \<lparr>pr_name = name, pr_args = args, pr_envs = envs\<rparr> of
        (w', Inl source) \<Rightarrow> (w', [], Err (''failed to run `'' @ name @ ''`: '' @ source))
      | (w', Inr status) \<Rightarrow>
          (w', [], if success status then Ok ()
                   else Err (''`'' @ name @ ''` exited with '' @ exit_text status)))"

definition run_program :: "'w machine \<Rightarrow> string \<Rightarrow> string list \<Rightarrow> 'w task" where
  "run_program M name args = run_command_with_env M name args []"

definition actionlint :: "'w machine \<Rightarrow> 'w task" where
  "actionlint M w =
     (if \<not> mc_exists M w ''.github/workflows'' then (w, [], Ok ())
      else run_program M ''actionlint''
             [''.github/workflows/ci.yml'', ''.github/workflows/release-plz.yml''] w)"

definition run_check :: "'w machine \<Rightarrow> 'w task" where
  "run_check M =
     then_task (actionlint M)
    (then_task (lint_task (\<lambda>w. source_layout_lint (mc_files M w)))
    (then_task (run_program M ''cargo'' [''fmt'', ''--all'', ''--'', ''--check''])
    (then_task (run_program M ''cargo'' [''build'', ''--workspace''])
    (then_task (run_program M ''cargo'' [''build'', ''-p'', ''redloop'', ''--example'', ''basic''])
    (then_task (run_program M ''cargo''
       [''clippy'', ''--workspace'', ''--all-targets'', ''--all-features'', ''--'', ''-D'', ''warnings''])
    (then_task (run_program M ''cargo'' [''test'', ''--workspace''])
    (then_task (run_program M ''cargo'' [''test'', ''--doc'', ''--workspace''])
    (then_task (run_command_with_env M ''scripts/cli-release.sh''
       [''verify-package-manifests'', ''Cargo.toml''] [(''CLI_RELEASE_VERSION_PACKAGE'', ''redloop-cli'')])
    (lint_task (\<lambda>w. run_rust_file_length_lint (mc_files M w) [''--all'']))))))))))"


section \<open>The review command\<close>

text \<open>
  \<^verbatim>\<open>str::trim\<close> takes the characters with the Unicode property \<open>White_Space\<close> off both ends. These
  are their UTF-8 sequences.
\<close>

definition white_space :: "string list" where
  "white_space =
     map (\<lambda>c. [char_of (c :: nat)]) [9, 10, 11, 12, 13, 32]
     @ map (\<lambda>c. [CHR 0xC2, char_of (c :: nat)]) [0x85, 0xA0]
     @ [[CHR 0xE1, CHR 0x9A, CHR 0x80]]
     @ map (\<lambda>c. [CHR 0xE2, CHR 0x80, char_of c]) ([0x80..<0x8B] @ [0xA8, 0xA9, 0xAF :: nat])
     @ [[CHR 0xE2, CHR 0x81, CHR 0x9F], [CHR 0xE3, CHR 0x80, CHR 0x80]]"

function trim_words :: "string list \<Rightarrow> string \<Rightarrow> string" where
  "trim_words ws s =
     (case find (\<lambda>w. w \<noteq> [] \<and> take (length w) s = w) ws of
        None \<Rightarrow> s
      | Some w \<Rightarrow> trim_words ws (drop (length w) s))"
  by pat_completeness auto

termination
proof (relation "measure (\<lambda>(ws, s). length s)")
  fix ws s w
  assume "find (\<lambda>w. w \<noteq> [] \<and> take (length w) s = w) ws = Some (w :: string)"
  then have "w \<noteq> []" "take (length w) s = w"
    by (auto simp: find_Some_iff)
  then show "((ws, drop (length w) s), (ws, s)) \<in> measure (\<lambda>(ws, s). length s)"
    by (cases s; cases w) auto
qed simp

declare trim_words.simps [simp del]

definition trim :: "string \<Rightarrow> string" where
  "trim s = rev (trim_words (map rev white_space) (rev (trim_words white_space s)))"

text \<open>
  \<^verbatim>\<open>String::from_utf8\<close>: the width of the first character, or the error of the first bad sequence:
  \<open>Some n\<close> when \<open>n\<close> bytes are wrong, \<open>None\<close> when the text ends too early.
\<close>

definition continuation :: "nat \<Rightarrow> bool" where
  "continuation b \<longleftrightarrow> 0x80 \<le> b \<and> b \<le> 0xBF"

text \<open>The range of the byte after a leading byte, and how many continuation bytes follow that.\<close>

definition utf8_lead :: "nat \<Rightarrow> (nat \<times> nat \<times> nat) option" where
  "utf8_lead b =
     (if 0xC2 \<le> b \<and> b \<le> 0xDF then Some (0x80, 0xBF, 0)
      else if b = 0xE0 then Some (0xA0, 0xBF, 1)
      else if b = 0xED then Some (0x80, 0x9F, 1)
      else if 0xE1 \<le> b \<and> b \<le> 0xEF then Some (0x80, 0xBF, 1)
      else if b = 0xF0 then Some (0x90, 0xBF, 2)
      else if 0xF1 \<le> b \<and> b \<le> 0xF3 then Some (0x80, 0xBF, 2)
      else if b = 0xF4 then Some (0x80, 0x8F, 2)
      else None)"

fun utf8_tail :: "nat \<Rightarrow> nat \<Rightarrow> nat list \<Rightarrow> nat option + nat" where
  "utf8_tail 0 seen bs = Inr seen"
| "utf8_tail (Suc n) seen [] = Inl None"
| "utf8_tail (Suc n) seen (b # bs) =
     (if continuation b then utf8_tail n (Suc seen) bs else Inl (Some seen))"

fun utf8_width :: "nat list \<Rightarrow> nat option + nat" where
  "utf8_width [] = Inl None"
| "utf8_width (b # bs) =
     (if b < 0x80 then Inr 1
      else case utf8_lead b of
        None \<Rightarrow> Inl (Some 1)
      | Some (low, high, k) \<Rightarrow>
          (case bs of
             [] \<Rightarrow> Inl None
           | b2 # rest \<Rightarrow>
               (if low \<le> b2 \<and> b2 \<le> high then utf8_tail k 2 rest else Inl (Some 1))))"

text \<open>
  The position and the kind of the first bad sequence. A character has at least one byte, so the
  length of the text is fuel enough.
\<close>

fun utf8_error :: "nat \<Rightarrow> nat \<Rightarrow> nat list \<Rightarrow> (nat \<times> nat option) option" where
  "utf8_error 0 i bs = None"
| "utf8_error (Suc fuel) i bs =
     (if bs = [] then None
      else case utf8_width bs of
             Inl e \<Rightarrow> Some (i, e)
           | Inr n \<Rightarrow> utf8_error fuel (i + n) (drop n bs))"

definition from_utf8 :: "string \<Rightarrow> string tool_result" where
  "from_utf8 bytes =
     (case utf8_error (length bytes) 0 (map of_char bytes) of
        None \<Rightarrow> Ok bytes
      | Some (i, Some n) \<Rightarrow>
          Err (''invalid utf-8 sequence of '' @ show_nat n @ '' bytes from index '' @ show_nat i)
      | Some (i, None) \<Rightarrow> Err (''incomplete utf-8 byte sequence from index '' @ show_nat i))"

type_synonym ('w, 'a) step = "'w \<Rightarrow> 'w \<times> 'a tool_result"

definition command_output :: "'w machine \<Rightarrow> string \<Rightarrow> string list \<Rightarrow> ('w, string) step" where
  "command_output M name args w =
     (case mc_output M w \<lparr>pr_name = name, pr_args = args, pr_envs = []\<rparr> of
        (w', Inl source) \<Rightarrow> (w', Err (''failed to run `'' @ name @ ''`: '' @ source))
      | (w', Inr (status, out)) \<Rightarrow>
          (w', if \<not> success status then Err (''`'' @ name @ ''` exited with '' @ exit_text status)
               else case from_utf8 out of
                      Ok s \<Rightarrow> Ok s
                    | Err source \<Rightarrow> Err (''stdout was not utf-8: '' @ source)
                    | Panic \<Rightarrow> Panic))"

text \<open>\<^verbatim>\<open>str::lines\<close>: a carriage return before the newline belongs to it.\<close>

definition chop_return :: "string \<Rightarrow> string" where
  "chop_return l = (if l \<noteq> [] \<and> last l = CHR 0x0D then butlast l else l)"

function text_lines :: "string \<Rightarrow> string list" where
  "text_lines s =
     (if s = [] then []
      else let rest = dropWhile (\<lambda>c. c \<noteq> CHR 0x0A) s; l = takeWhile (\<lambda>c. c \<noteq> CHR 0x0A) s
           in if rest = [] then [l] else chop_return l # text_lines (tl rest))"
  by pat_completeness auto

termination
proof (relation "measure length")
  fix s rest l :: string
  assume "rest = dropWhile (\<lambda>c. c \<noteq> CHR 0x0A) s" "rest \<noteq> []"
  then show "(tl rest, s) \<in> measure length"
    using length_dropWhile_le [of "\<lambda>c. c \<noteq> CHR 0x0A" s]
    by (cases s) (auto simp del: length_dropWhile_le split: if_splits)
qed simp

declare text_lines.simps [simp del]

fun join_with :: "string \<Rightarrow> string list \<Rightarrow> string" where
  "join_with sep [] = []"
| "join_with sep [s] = s"
| "join_with sep (s # ss) = s @ sep @ join_with sep ss"

definition max_untracked_files :: nat where
  "max_untracked_files = 200"

definition bounded_untracked_files :: "string \<Rightarrow> string" where
  "bounded_untracked_files files =
     (let paths = text_lines files;
          omitted = length paths - max_untracked_files
      in join_with [CHR 0x0A] (take max_untracked_files paths) @
         (if omitted > 0
          then CHR 0x0A # ''... '' @ show_nat omitted @ '' additional untracked files omitted''
          else []))"

text \<open>The sections that are not blank, each trimmed and under its label.\<close>

fun summary :: "(string \<times> string) list \<Rightarrow> string" where
  "summary [] = []"
| "summary ((label, text) # sections) =
     (if trim text = [] then summary sections
      else label @ [CHR 0x0A] @ trim text @ [CHR 0x0A, CHR 0x0A] @ summary sections)"

fun command_outputs :: "'w machine \<Rightarrow> string list list \<Rightarrow> ('w, string list) step" where
  "command_outputs M [] w = (w, Ok [])"
| "command_outputs M (args # rest) w =
     (case command_output M ''git'' args w of
        (w', Ok out) \<Rightarrow> (case command_outputs M rest w' of (w'', r) \<Rightarrow> (w'', map_ok ((#) out) r))
      | (w', Err e) \<Rightarrow> (w', Err e)
      | (w', Panic) \<Rightarrow> (w', Panic))"

definition review_sections :: "string list \<Rightarrow> (string \<times> string) list" where
  "review_sections outs =
     [(''branch diff stat'', outs ! 0), (''staged diff stat'', outs ! 1),
      (''unstaged diff stat'', outs ! 2), (''untracked files'', bounded_untracked_files (outs ! 3))]"

definition review_context :: "'w machine \<Rightarrow> ('w, string) step" where
  "review_context M w =
     (case command_outputs M
        [[''diff'', ''--stat'', ''origin/main...HEAD''],
         [''diff'', ''--stat'', ''--cached''],
         [''diff'', ''--stat''],
         [''ls-files'', ''--others'', ''--exclude-standard'']] w of
        (w', r) \<Rightarrow> (w', map_ok (\<lambda>outs. summary (review_sections outs)) r))"

definition run_codex_review :: "'w machine \<Rightarrow> string \<Rightarrow> 'w task" where
  "run_codex_review M prompt w =
     (case mc_spawn M w
        \<lparr>pr_name = ''codex'',
         pr_args = [''--ask-for-approval'', ''never'', ''exec'', ''--ephemeral'', ''--ignore-rules'',
           ''--model'', ''gpt-5.5'', ''--config'',
           ''model_reasoning_effort='' @ [CHR 0x22] @ ''xhigh'' @ [CHR 0x22],
           ''--sandbox'', ''read-only'', ''--skip-git-repo-check'', ''--cd'', ''.'', ''-''],
         pr_envs = []\<rparr> of
        (w1, Inl source) \<Rightarrow> (w1, [], Err (''failed to start `cargo xtask review`: '' @ source))
      | (w1, Inr False) \<Rightarrow> (w1, [], Err ''failed to open review subprocess stdin'')
      | (w1, Inr True) \<Rightarrow>
          (case mc_write_all M w1 prompt of
             (w2, Some (OtherIo, source)) \<Rightarrow>
               (w2, [], Err (''failed to write review prompt: '' @ source))
           | (w2, _) \<Rightarrow>
               (case mc_wait M w2 of
                  (w3, Inl source) \<Rightarrow>
                    (w3, [], Err (''failed to wait for review subprocess: '' @ source))
                | (w3, Inr status) \<Rightarrow>
                    (w3, [], if success status then Ok ()
                             else Err (''review subprocess exited with '' @ exit_text status)))))"

definition text_line :: "string \<Rightarrow> string" where
  "text_line s = s @ [CHR 0x0A]"

definition review_prompt :: "string \<Rightarrow> string" where
  "review_prompt context =
     concat (map text_line
       [''You are Codex, an AI code reviewer performing a read-only review of this local change set.'',
        [],
        ''Review scope:'',
        ''- Base ref: origin/main.'',
        ''- Include committed branch changes, staged changes, unstaged changes, and untracked files.'',
        ''- The repository is available at the current working directory.'',
        [],
        ''Local change summary:''])
     @ context @
     concat (map text_line
       [[],
        ''Instructions:'',
        ''- Inspect the changed files and nearby dependencies before reporting findings.'',
        ''- Focus on bugs, behavioral regressions, missing tests, stale docs, security, and operational risks.'',
        ''- Do not make edits.'',
        ''- If there are no material issues, say so clearly and mention any residual test or review risk.'',
        ''- Report findings first, ordered by severity, with file and line references when available.''])"

definition run_review :: "'w machine \<Rightarrow> 'w task" where
  "run_review M w =
     (case review_context M w of
        (w', Ok context) \<Rightarrow>
          (if trim context = []
           then (w', [Stdout ''No changes to review relative to origin/main or in the working tree.''], Ok ())
           else run_codex_review M (review_prompt context) w')
      | (w', Err e) \<Rightarrow> (w', [], Err e)
      | (w', Panic) \<Rightarrow> (w', [], Panic))"


section \<open>The command of the tool\<close>

definition xtask_run :: "'w machine \<Rightarrow> string list \<Rightarrow> 'w task" where
  "xtask_run M args w =
     (case args of
        [] \<Rightarrow> (w, [], Err ''usage: cargo xtask <check|review|rust-file-length-lint>'')
      | command # rest \<Rightarrow>
          (if command = ''check'' \<and> rest = [] then run_check M w
           else if command = ''review'' \<and> rest = [] then run_review M w
           else if command = ''rust-file-length-lint''
           then lint_task (\<lambda>w. run_rust_file_length_lint (mc_files M w) rest) w
           else (w, [], Err (''unknown or invalid xtask command `'' @ command @ ''`''))))"

text \<open>\<open>main\<close>: an error is printed and the exit code is a failure.\<close>

definition xtask_main :: "'w machine \<Rightarrow> string list \<Rightarrow> 'w \<Rightarrow> 'w \<times> printed_line list \<times> bool" where
  "xtask_main M args w =
     (case xtask_run M args w of
        (w', out, Ok _) \<Rightarrow> (w', out, True)
      | (w', out, Err e) \<Rightarrow> (w', out @ [Stderr e], False)
      | (w', out, Panic) \<Rightarrow> (w', out, False))"

end
