(* ===== verification/Task_Properties.thy ===== *)
theory Task_Properties
  imports Tasks
begin

text \<open>
  What the developer tool guarantees: a lint reports exactly the files of the tree that break its
  rule, in the order in which they are read, the check succeeds only when each of its steps does
  and stops at the first that fails, and the review is not started without changes.
\<close>

section \<open>Walks\<close>

lemma collect_not_Panic [simp]:
  "collect_entries check path ns \<noteq> Panic" "collect_node check path n \<noteq> Panic"
  by (induction check path ns and check path n rule: collect_entries_collect_node.induct)
     (auto split: sum.splits)

lemma collect_root_not_Panic [simp]: "collect_root check root dir \<noteq> Panic"
  by (auto simp: collect_root_def split: option.splits sum.splits)

text \<open>
  The reference the lints are measured against: the Rust files of a tree in reading order, and
  whether everything the walk has to read can be read.
\<close>

fun rust_files :: "string \<Rightarrow> node list \<Rightarrow> (string \<times> string) list"
  and rust_files_of :: "string \<Rightarrow> node \<Rightarrow> (string \<times> string) list" where
  "rust_files path [] = []"
| "rust_files path (n # ns) = rust_files_of path n @ rust_files path ns"
| "rust_files_of path (Unreadable source) = []"
| "rust_files_of path (Dir name (Inl source)) = []"
| "rust_files_of path (Dir name (Inr ns)) = rust_files (join_path path name) ns"
| "rust_files_of path (File name (Inl source)) = []"
| "rust_files_of path (File name (Inr text)) =
     (if extension name = Some ''rs'' then [(join_path path name, text)] else [])"

fun readable :: "node list \<Rightarrow> bool" and readable_node :: "node \<Rightarrow> bool" where
  "readable [] = True"
| "readable (n # ns) = (readable_node n \<and> readable ns)"
| "readable_node (Unreadable source) = False"
| "readable_node (Dir name (Inl source)) = False"
| "readable_node (Dir name (Inr ns)) = readable ns"
| "readable_node (File name (Inl source)) = (extension name \<noteq> Some ''rs'')"
| "readable_node (File name (Inr text)) = True"

lemma collect_readable:
  "readable ns \<Longrightarrow>
   collect_entries check path ns = Ok (concat (map (\<lambda>(p, t). check p t) (rust_files path ns)))"
  "readable_node n \<Longrightarrow>
   collect_node check path n = Ok (concat (map (\<lambda>(p, t). check p t) (rust_files_of path n)))"
proof (induction check path ns and check path n rule: collect_entries_collect_node.induct)
  case (6 check path name contents)
  then show ?case by (cases contents) auto
qed auto

lemma collect_unreadable:
  "\<not> readable ns \<Longrightarrow> \<exists>e. collect_entries check path ns = Err e"
  "\<not> readable_node n \<Longrightarrow> \<exists>e. collect_node check path n = Err e"
proof (induction check path ns and check path n rule: collect_entries_collect_node.induct)
  case (2 check path n ns)
  show ?case
  proof (cases "readable_node n")
    case True
    with 2 collect_readable(2) [OF True] show ?thesis by auto
  next
    case False
    with 2 show ?thesis by auto
  qed
next
  case (6 check path name contents)
  then show ?case by (cases contents) auto
qed auto

definition root_readable :: "(string + node list) option \<Rightarrow> bool" where
  "root_readable dir = (case dir of None \<Rightarrow> True | Some (Inl source) \<Rightarrow> False | Some (Inr ns) \<Rightarrow> readable ns)"

definition root_files :: "string \<Rightarrow> (string + node list) option \<Rightarrow> (string \<times> string) list" where
  "root_files root dir =
     (case dir of None \<Rightarrow> [] | Some (Inl source) \<Rightarrow> [] | Some (Inr ns) \<Rightarrow> rust_files root ns)"

lemma collect_root_readable:
  "root_readable dir \<Longrightarrow>
   collect_root check root dir = Ok (concat (map (\<lambda>(p, t). check p t) (root_files root dir)))"
  by (auto simp: collect_root_def root_readable_def root_files_def collect_readable(1)
      split: option.splits sum.splits)

lemma collect_root_unreadable:
  "\<not> root_readable dir \<Longrightarrow> \<exists>e. collect_root check root dir = Err e"
  by (auto simp: collect_root_def root_readable_def collect_unreadable(1)
      split: option.splits sum.splits)

text \<open>A run of the check succeeds exactly when every step does, in order.\<close>

lemma then_task_Ok:
  "snd (snd (then_task a b w)) = Ok () \<longleftrightarrow>
   snd (snd (a w)) = Ok () \<and> snd (snd (b (fst (a w)))) = Ok ()"
  by (auto simp: then_task_def split: prod.splits rresult.splits)

text \<open>After a step that fails nothing runs.\<close>

lemma then_task_stops: "snd (snd (a w)) \<noteq> Ok () \<Longrightarrow> then_task a b w = a w"
  by (auto simp: then_task_def split: prod.splits rresult.splits)


section \<open>The file length lint\<close>

definition project_files :: "file_system \<Rightarrow> (string \<times> string) list" where
  "project_files fs = root_files ''crates'' (fs ''crates'') @ root_files ''xtask'' (fs ''xtask'')"

definition too_long :: "file_system \<Rightarrow> (string \<times> string) list" where
  "too_long fs = filter (\<lambda>(path, contents). line_count contents > 300) (project_files fs)"

lemma limit_text: "show_nat rust_file_limit = ''300''"
  by (simp add: rust_file_limit_def show_nat.simps digit_char_def char_of_def bit_iff_odd)

lemma length_violations:
  "concat (map (\<lambda>(p, t). length_violation p t) fs) =
   map (\<lambda>(p, t). p @ '' has '' @ show_nat (line_count t) @ '' lines; limit is 300'')
     (filter (\<lambda>(p, t). line_count t > 300) fs)"
  by (induction fs) (auto simp: length_violation_def limit_text [unfolded rust_file_limit_def] rust_file_limit_def)

text \<open>
  C39. With readable sources the lint reports exactly the Rust files under \<open>crates\<close> and
  \<open>xtask\<close> with more than 300 lines, each with its number of lines and in the order in which they
  are read, and succeeds when there is none. It does so with and without \<open>--all\<close>.
\<close>

theorem file_length_lint_exact:
  assumes "root_readable (fs ''crates'')" "root_readable (fs ''xtask'')" "args = [] \<or> args = [''--all'']"
  shows "lo_stderr (run_rust_file_length_lint fs args) =
           map (\<lambda>(path, contents). path @ '' has '' @ show_nat (line_count contents) @ '' lines; limit is 300'')
             (too_long fs) \<and>
         (lo_result (run_rust_file_length_lint fs args) = Ok () \<longleftrightarrow> too_long fs = []) \<and>
         (lo_stdout (run_rust_file_length_lint fs args) = [''rust_file_length_lint=ok''] \<longleftrightarrow> too_long fs = [])"
proof -
  let ?vs = "map (\<lambda>(p, t). p @ '' has '' @ show_nat (line_count t) @ '' lines; limit is 300'') (too_long fs)"
  have "and_then (collect_root length_violation ''crates'' (fs ''crates'')) (\<lambda>vs.
      map_ok ((@) vs) (collect_root length_violation ''xtask'' (fs ''xtask''))) = Ok ?vs"
    using assms by (simp add: collect_root_readable length_violations too_long_def project_files_def)
  moreover have "\<not> (args \<noteq> [] \<and> (length args \<noteq> 1 \<or> args ! 0 \<noteq> ''--all''))"
    using assms(3) by auto
  ultimately show ?thesis
    by (cases ?vs) (auto simp: run_rust_file_length_lint_def)
qed

definition demo_sources :: file_system where
  "demo_sources root =
     (if root = ''crates''
      then Some (Inr [Dir ''a'' (Inr [File ''x.rs'' (Inr (replicate 301 CHR 0x0A)), File ''y.rs'' (Inr ''ok'')]),
             File ''z.md'' (Inl ''denied'')])
      else None)"

theorem file_length_lint_exact_witness:
  "lo_stderr (run_rust_file_length_lint demo_sources [''--all'']) =
     [''crates/a/x.rs has 301 lines; limit is 300'']"
proof -
  have roots: "root_readable (demo_sources ''crates'')" "root_readable (demo_sources ''xtask'')"
    by (simp_all add: demo_sources_def root_readable_def extension_def)
  have lines: "line_count (replicate n CHR 0x0A) = n" for n
    by (induction n) auto
  have three: "show_nat 301 = ''301''"
    by (simp add: show_nat.simps digit_char_def char_of_def bit_iff_odd)
  have "too_long demo_sources = [(''crates/a/x.rs'', replicate 301 CHR 0x0A)]"
    by (simp add: too_long_def project_files_def demo_sources_def root_files_def extension_def
        join_path_def lines)
  then show ?thesis
    using file_length_lint_exact [of demo_sources "[''--all'']"] roots
    by (simp add: lines three)
qed


section \<open>The test layout lint\<close>

text \<open>A test attribute with arguments is not seen.\<close>

lemma layout_lint_misses_arguments:
  "layout_violation ''crates/a/x.rs'' ''#[tokio::test(start_paused = true)] fn f() {}'' = []"
  "layout_violation ''crates/a/x.rs'' ''#[tokio::test] fn f() {}'' \<noteq> []"
  by (simp_all add: layout_violation_def is_test_file_def)


section \<open>The review\<close>

text \<open>Without changes the review ends well and starts no reviewer.\<close>

lemma review_without_changes:
  assumes "review_context M w = (w', Ok context)" "trim context = []"
  shows "run_review M w =
    (w', [Stdout ''No changes to review relative to origin/main or in the working tree.''], Ok ())"
  using assms by (simp add: run_review_def)

text \<open>A reviewer that closes its input early does not fail the review, its exit status decides.\<close>

lemma broken_pipe_ignored:
  assumes "mc_write_all M w1 prompt = (w2, Some (BrokenPipe, e))" "mc_wait M w2 = (w3, Inr (Exit ok t))"
    and "\<And>p. mc_spawn M w p = (w1, Inr True)"
  shows "run_codex_review M prompt w = (w3, [], if ok then Ok () else Err (''review subprocess exited with '' @ t))"
  using assms by (simp add: run_codex_review_def)

end
