(* ===== verification/Findings.thy ===== *)
theory Findings
  imports Worker_Properties Machine_Effects
begin

text \<open>
  Behaviours of the code that differ from what its documents say or that it does not intend, each
  shown on the small queue of theory Demo.
\<close>

section \<open>Purge\<close>

text \<open>
  A purge selects in one round trip and deletes in the next. A job that an operator retries in
  between is counted as deleted although it is still in the queue.
\<close>

definition demo_race :: "mem_db links" where
  "demo_race = (\<lambda>i. \<lparr>others = (if i = 1 then (\<lambda>db. fst (force_retry demo_store quiet ''mail'' ''d'' 500000 db))
     else (\<lambda>db. db)), delivery = Answered\<rparr>)"

theorem purge_overcounts:
  "snd (purge_failed demo_store demo_race ''mail'' (Sel_JobId ''d'') demo_db) = Ok 1 \<and>
   known demo_store ''mail'' (fst (purge_failed demo_store demo_race ''mail'' (Sel_JobId ''d'') demo_db)) ''d''"
proof -
  let ?db1 = "fst (force_retry demo_store quiet ''mail'' ''d'' 500000 demo_db)"
  let ?J = "demo_queue(''d'' := fresh (At_ready 500))"
  have quiet: "stored demo_store ''mail'' (others (quiet 0) demo_db) demo_queue" by simp
  from applies_answered(2) [OF operator_applies [where L = quiet and db = demo_db and c = Op_force_retry
      and j = "''d''" and now = 500000, OF demo_good quiet]]
  have J: "stored demo_store ''mail'' ?db1 ?J"
    by (simp add: force_retry_def operator_effect_def demo_place micros_def safe_int_def)
  have score: "mem_zscore demo_db (failed (store_keys demo_store ''mail'')) ''d'' = Some 200"
    using representsD(4) [OF demo_stored [unfolded stored_def], of "''d''"] by (simp add: demo_place)
  have run: "purge_failed demo_store demo_race ''mail'' (Sel_JobId ''d'') demo_db =
      (purge_jobs mem_redis (store_keys demo_store ''mail'') [''d''] ?db1, Ok 1)"
    by (simp add: purge_failed_def Let_def query_pipe_def query_cmd_def select_failed_def demo_race_def
        score io_bind_def)
  have "stored demo_store ''mail'' (purge_jobs mem_redis (store_keys demo_store ''mail'') [''d''] ?db1)
      (purge_all [''d''] ?J)"
    using redis_service.purge_represents(1) [OF good_storeD(1) [OF demo_good] keys_ok_store
        J [unfolded stored_def], of "[''d'']"] by (simp add: stored_def)
  from known_iff [OF this, of "''d''"] run show ?thesis
    by (simp add: purge_all_def purge_job_def)
qed


section \<open>Lease counters\<close>

text \<open>
  Forgetting a worker that holds a lease drops its counter, which is then wrong while the job is
  still leased to that worker.
\<close>

theorem cleanup_breaks_counter:
  "stored demo_store ''mail'' (forget_worker mem_redis demo_keys ''w'' demo_db) demo_queue \<and>
   leased_by (place (demo_queue ''a'')) ''w'' \<and>
   hget mem_redis (forget_worker mem_redis demo_keys ''w'' demo_db) (workers_leases demo_keys) ''w'' = None"
proof -
  have "stored demo_store ''mail'' (forget_worker mem_redis demo_keys ''w'' demo_db) demo_queue"
    using forget_stored [OF demo_good, of "''mail''" "[''w'']" demo_db demo_queue] demo_stored
    by (simp add: demo_keys_def)
  then show ?thesis by (simp add: demo_place forget_worker_def mem_hdel_def)
qed


section \<open>Listing failed jobs\<close>

text \<open>
  The end of a page is the sum of two numbers the caller chose. It can exceed 64 bits, which panics
  in a build with overflow checks.
\<close>

theorem list_failed_overflow:
  "snd (list_failed S L ns \<lparr>fq_cursor = Some (show_nat (2 ^ 64 - 1)), fq_limit = 1\<rparr> db) = Panic"
  by (simp add: list_failed_def parse_cursor_def add_usize_def io_bind_def Let_def
      parse_unsigned_show_nat)


section \<open>The next activation\<close>

text \<open>
  The reserve script asks for activations after \<^verbatim>\<open>'(' .. now_us\<close>, and Lua prints 14 significant
  digits of the 16 that a present instant has. An activation within the rounded part of the present
  is not announced.
\<close>

theorem next_activation_missed:
  "1700000000123456 < (1700000000123470 :: int) \<and>
   future_scores (g14 1700000000123456) (demo_queue(''c'' := fresh (At_scheduled 1700000000123470))) = {}"
proof -
  have "length (show_nat 1700000000123456) = 16" by (simp add: show_nat.simps)
  then have "g14 1700000000123456 = 1700000000123500" by (simp add: g14_def round_to_def)
  then show ?thesis by (auto simp: future_scores_def demo_queue_def split: if_splits)
qed


section \<open>Dropped reserves\<close>

text \<open>
  When another arm wins the select, a reserve in flight is dropped. If its script has run, its jobs
  are leased to the worker, but the worker does not hold the leases and runs no handler for them.
\<close>

theorem dropped_reserve_strands_jobs:
  assumes "iteration demo_worker_handle
    (demo_pre, Some demo_reserve_call, Reap_ticked demo_call (0, 0)) (initial_state demo_config) demo_db =
    (db, st, r)"
  shows "r = Ok () \<and> ws_active st = [] \<and> ws_join_set st = [] \<and>
    hget mem_redis db (lease_meta demo_keys) ''b'' = Some (pack_meta ''v'' ''t1'')"
proof -
  let ?L = "quiet :: mem_db links"
  let ?tokens = "[''t1'', ''t2'']"
  let ?db1 = "fst (reserve demo_store ?L ''mail'' demo_config 2 500000 ?tokens demo_db)"
  define J where "J = lease_all ''v'' 30500 [(''b'', ''t1''), (''c'', ''t2'')] demo_queue"
  have J: "stored demo_store ''mail'' ?db1 J" unfolding J_def using demo_reserve_both by blast
  then have quiet: "stored demo_store ''mail'' (others (?L 0) ?db1) J" by simp
  have "expired 700 J = {}"
    by (auto simp: expired_def J_def lease_all_def lease_job_def demo_queue_def split: if_splits)
  then have none: "[] = take 2 (reap_order 700 J)" by (simp add: reap_order_def)
  let ?reap = "reap_expired demo_store ?L ''mail'' 700000 2 ?db1"
  have now: "700 = dbl (micros (chrono demo_store) 700000)" by (simp add: micros_def safe_int_def)
  from applies_answered(1,2) [OF reap_applies [where L = quiet and db = ?db1, OF demo_good quiet _ _ now none]]
  have reap: "snd ?reap = Ok 0" "stored demo_store ''mail'' (fst ?reap) J" by (simp_all add: safe_int_def)
  have tokens: "new_lease_tokens (\<lambda>i. ?tokens ! i) 2 = ?tokens"
    by (simp add: new_lease_tokens_def numeral_2_eq_2)
  have "drop_reserve demo_worker_handle (Some demo_reserve_call) (initial_state demo_config) demo_db = ?db1"
    by (simp add: drop_reserve_def reserve_jobs_def free_capacity_def initial_state_def demo_config_def
        demo_reserve_call_def tokens)
  moreover have "io_unit (reap_expired demo_store ?L ''mail'' 700000 (concurrency demo_config)) ?db1 = (fst ?reap, Ok ())"
    using reap(1) by (cases ?reap) (simp add: io_unit_def io_bind_def demo_config_def)
  ultimately have "db = fst ?reap \<and> st = initial_state demo_config \<and> r = Ok ()"
    using assms by (simp add: iteration_def demo_before back_off_def demo_call_def)
  moreover have "leased_to (place (J ''b'')) ''v'' ''t1''"
    by (simp add: J_def lease_all_def lease_job_def)
  ultimately show ?thesis
    using lease_meta_iff [OF reap(2), of "''b''" "''v''" "''t1''"]
    by (simp add: demo_keys_def initial_state_def)
qed


section \<open>Torn lookups\<close>

text \<open>
  A lookup reads the four sets and the lease one after the other. A job whose run ends in between is
  reported as unknown, or as damaged data, although it is in the queue all the time.
\<close>

definition demo_ended_at :: "nat \<Rightarrow> mem_db links" where
  "demo_ended_at n = (\<lambda>i. \<lparr>others = (if i = n
     then (\<lambda>db. fst (ack demo_store quiet 700000 ''mail'' ''w'' ''a'' ''t'' db)) else (\<lambda>db. db)),
     delivery = Answered\<rparr>)"

lemma torn_lookups:
  "snd (get_job demo_store (demo_ended_at 1) ''mail'' ''a'' demo_db) = Ok None"
  "snd (get_job demo_store (demo_ended_at 5) ''mail'' ''a'' demo_db) = Err (InvalidData ''lease_meta'')"
  "known demo_store ''mail'' demo_db ''a''"
  "known demo_store ''mail'' (fst (ack demo_store quiet 700000 ''mail'' ''w'' ''a'' ''t'' demo_db)) ''a''"
proof -
  let ?db = "fst (ack demo_store quiet 700000 ''mail'' ''w'' ''a'' ''t'' demo_db)"
  let ?J = "demo_queue(''a'' := fresh (At_ready 700))"
  have quiet: "stored demo_store ''mail'' (others (quiet 0) demo_db) demo_queue" by simp
  have J: "stored demo_store ''mail'' ?db ?J"
    using applies_answered(2) [OF ack_applies [where L = quiet and db = demo_db and w = "''w''" and j = "''a''"
        and t = "''t''" and now = 700000, OF demo_good quiet]]
    by (simp add: ack_spec_def demo_place micros_def safe_int_def)
  note before = representsD [OF demo_stored [unfolded stored_def], of "''a''"]
  note after = representsD [OF J [unfolded stored_def], of "''a''"]
  have "fails (demo_queue ''a'') = 1" by (simp add: demo_place)
  note reads = get_job_def query_pipe_def query_cmd_def lookup_fields_def Let_def io_bind_def demo_ended_at_def
    converted_def job_of_fields_def
  show "snd (get_job demo_store (demo_ended_at 1) ''mail'' ''a'' demo_db) = Ok None"
    using before after by (simp add: reads demo_place)
  show "snd (get_job demo_store (demo_ended_at 5) ''mail'' ''a'' demo_db) = Err (InvalidData ''lease_meta'')"
    using before after by (simp add: reads demo_place)
  show "known demo_store ''mail'' demo_db ''a''" "known demo_store ''mail'' ?db ''a''"
    using known_iff [OF demo_stored, of "''a''"] known_iff [OF J, of "''a''"] by (simp_all add: demo_place)
qed

end
