(* ===== verification/Exactly_Once.thy ===== *)
theory Exactly_Once
  imports Completion Demo
begin

text \<open>
  Lost answers. A worker whose completion gets no answer in time cannot know whether the server has
  stored it, keeps it and stores it again later. The lease token makes the second attempt harmless.
\<close>

section \<open>Attempts\<close>

text \<open>
  The attempts of a worker to store one completion, one per iteration and store call, until the
  store answers. \<open>Ok True\<close> asks for another attempt.
\<close>

fun attempts ::
    "'db worker \<Rightarrow> lease_attempt_key \<Rightarrow> 'db store_call list \<Rightarrow> worker_state \<Rightarrow> 'db \<Rightarrow>
     'db \<times> worker_state \<times> bool result" where
  "attempts W key [] st db = (db, st, Ok True)"
| "attempts W key (call # calls) st db =
     (case resolve_pending_from W (\<lambda>_. call) 0 [key] st db of
        (db', st', Ok True) \<Rightarrow> attempts W key calls st' db'
      | out \<Rightarrow> out)"

definition unanswered :: "'db store_call \<Rightarrow> bool" where
  "unanswered call \<longleftrightarrow>
     alone (sc_links call 0) \<and> (\<exists>executed. delivery (sc_links call 0) = Timer_fired executed)"

definition answered :: "'db store_call \<Rightarrow> bool" where
  "answered call \<longleftrightarrow> alone (sc_links call 0) \<and> delivery (sc_links call 0) = Answered"

text \<open>
  Where the job is: still leased as before the first attempt, or ended by one of the attempts made
  so far.
\<close>

definition once ::
    "'db redis_store \<Rightarrow> string \<Rightarrow> worker_config \<Rightarrow> completed_lease \<Rightarrow> (string \<Rightarrow> job) \<Rightarrow> 'db store_call set \<Rightarrow>
     'db \<Rightarrow> bool" where
  "once S ns config c J made db \<longleftrightarrow> stored S ns db J \<or>
     (\<exists>call \<in> made. stored S ns db
        (J(cl_job_id c := ended_run S config call (cl_result c) (J (cl_job_id c)))))"

lemma once_mono: "once S ns config c J made db \<Longrightarrow> made \<subseteq> made' \<Longrightarrow> once S ns config c J made' db"
  by (auto simp: once_def)

text \<open>One attempt.\<close>

lemma attempt_once:
  assumes S: "good_store S"
    and held: "leased_to (place (J (cl_job_id c))) (worker_id config) (cl_lease_token c)"
    and storable: "storable (ended_run S config call (cl_result c) (J (cl_job_id c)))"
    and alone: "alone (sc_links call 0)"
    and before: "once S ns config c J made db"
    and run: "resolve_completed (redis_queue_store S) call ns config c db = (db', r)"
  shows "once S ns config c J (insert call made) db'"
    and "delivery (sc_links call 0) = Answered \<Longrightarrow>
      r \<in> {Ok (), Err (LeaseMismatch (cl_job_id c))} \<and>
      (\<exists>m \<in> insert call made. stored S ns db'
        (J(cl_job_id c := ended_run S config m (cl_result c) (J (cl_job_id c)))))"
proof -
  let ?j = "cl_job_id c"
  let ?ran = "\<lambda>m. ended_run S config m (cl_result c) (J ?j)"
  have "once S ns config c J (insert call made) db' \<and>
    (delivery (sc_links call 0) = Answered \<longrightarrow> r \<in> {Ok (), Err (LeaseMismatch ?j)} \<and>
      (\<exists>m \<in> insert call made. stored S ns db' (J(?j := ?ran m))))"
    using before unfolding once_def [of _ _ _ _ _ made]
  proof
    assume "stored S ns db J"
    then have "stored S ns (others (sc_links call 0) db) J" by (simp add: alone)
    from completion_applies [OF S this refl refl refl refl storable] held run
    obtain operation where "applies S operation ns (sc_links call 0) J db (J(?j := ?ran call)) (Ok ()) (db', r)"
      by auto
    then show ?thesis by (auto simp: applies_def once_def)
  next
    assume "\<exists>m \<in> made. stored S ns db (J(?j := ?ran m))"
    then obtain m where m: "m \<in> made" and J': "stored S ns db (J(?j := ?ran m))" by blast
    from J' have "stored S ns (others (sc_links call 0) db) (J(?j := ?ran m))" by (simp add: alone)
    from completion_applies [where c = c and config = config, OF S this refl refl refl refl] run
    obtain operation where "applies S operation ns (sc_links call 0) (J(?j := ?ran m)) db (J(?j := ?ran m))
        (Err (LeaseMismatch ?j)) (db', r)"
      by (auto simp: ended_run_not_leased)
    then show ?thesis using m by (auto simp: applies_def once_def)
  qed
  then show "once S ns config c J (insert call made) db'"
    and "delivery (sc_links call 0) = Answered \<Longrightarrow>
      r \<in> {Ok (), Err (LeaseMismatch ?j)} \<and>
      (\<exists>m \<in> insert call made. stored S ns db' (J(?j := ?ran m)))"
    by blast+
qed


text \<open>An attempt whose answer is lost keeps the completion; an answered one lets go of the lease.\<close>

lemma attempt_lost:
  assumes "map_of (ws_pending st) (completed_attempt_key c) = Some c"
    and "resolve_completed (wk_store W) call (wk_namespace W) (wk_config W) c db =
      (db', Err (CommandTimedOut operation millis))"
  obtains st' where "resolve_pending_from W (\<lambda>_. call) 0 [completed_attempt_key c] st db = (db', st', Ok True)"
    and "map_of (ws_pending st') (completed_attempt_key c) = Some c"
  using assms by (auto simp: Let_def AList.update_conv')

lemma attempt_answered:
  assumes "map_of (ws_pending st) (completed_attempt_key c) = Some c"
    and "resolve_completed (wk_store W) call (wk_namespace W) (wk_config W) c db = (db', r)"
    and "r \<in> {Ok (), Err (LeaseMismatch j)}"
  obtains st' where "resolve_pending_from W (\<lambda>_. call) 0 [completed_attempt_key c] st db = (db', st', Ok False)"
    and "map_of (ws_pending st') (completed_attempt_key c) = None"
    and "map_of (ws_active st') (completed_attempt_key c) = None"
  using assms by (auto simp: Let_def AList.delete_conv')

lemma attempts_once:
  assumes S: "good_store S" and W: "wk_store W = redis_queue_store S" "wk_namespace W = ns" "wk_config W = config"
    and held: "leased_to (place (J (cl_job_id c))) (worker_id config) (cl_lease_token c)"
    and storable: "\<forall>call \<in> set lost. storable (ended_run S config call (cl_result c) (J (cl_job_id c)))"
      "storable (ended_run S config final (cl_result c) (J (cl_job_id c)))"
    and lost: "\<forall>call \<in> set lost. unanswered call" and final: "answered final"
    and pending: "map_of (ws_pending st) (completed_attempt_key c) = Some c"
    and before: "once S ns config c J made db"
    and run: "attempts W (completed_attempt_key c) (lost @ [final]) st db = (db', st', r)"
  shows "r = Ok False \<and> map_of (ws_pending st') (completed_attempt_key c) = None \<and>
    map_of (ws_active st') (completed_attempt_key c) = None \<and>
    (\<exists>call \<in> made \<union> set lost \<union> {final}. stored S ns db'
      (J(cl_job_id c := ended_run S config call (cl_result c) (J (cl_job_id c)))))"
  using storable(1) lost pending before run
proof (induction lost arbitrary: st db made)
  case Nil
  obtain db1 r1 where complete: "resolve_completed (redis_queue_store S) final ns config c db = (db1, r1)"
    by (metis surj_pair)
  note once = attempt_once [where call = final, OF S held storable(2) _ Nil.prems(4) complete]
  have ok: "r1 \<in> {Ok (), Err (LeaseMismatch (cl_job_id c))}"
    and ended: "\<exists>m \<in> insert final made. stored S ns db1
      (J(cl_job_id c := ended_run S config m (cl_result c) (J (cl_job_id c))))"
    using once(2) final by (simp_all add: answered_def)
  obtain st1 where st1: "resolve_pending_from W (\<lambda>_. final) 0 [completed_attempt_key c] st db = (db1, st1, Ok False)"
      "map_of (ws_pending st1) (completed_attempt_key c) = None"
      "map_of (ws_active st1) (completed_attempt_key c) = None"
    using attempt_answered [where W = W, OF Nil.prems(3) _ ok] complete W by metis
  then have run: "db' = db1" "st' = st1" "r = Ok False"
    using Nil.prems(5) by simp_all
  have "made \<union> set [] \<union> {final} = insert final made" by simp
  with st1(2,3) ended show ?case unfolding run by metis
next
  case (Cons call lost)
  obtain executed where call: "alone (sc_links call 0)" "delivery (sc_links call 0) = Timer_fired executed"
    using Cons.prems(2) by (auto simp: unanswered_def)
  obtain db1 operation millis where complete: "resolve_completed (redis_queue_store S) call ns config c db =
      (db1, Err (CommandTimedOut operation millis))"
    using completion_timed_out [where S = S and ns = ns and config = config and c = c and db = db, OF call(2)]
    by blast
  have storable1: "storable (ended_run S config call (cl_result c) (J (cl_job_id c)))"
    using Cons.prems(1) by simp
  note once = attempt_once(1) [OF S held storable1 call(1) Cons.prems(4) complete]
  obtain st1 where st1: "resolve_pending_from W (\<lambda>_. call) 0 [completed_attempt_key c] st db = (db1, st1, Ok True)"
      "map_of (ws_pending st1) (completed_attempt_key c) = Some c"
    using attempt_lost [where W = W, OF Cons.prems(3)] complete W by metis
  have rest: "attempts W (completed_attempt_key c) (lost @ [final]) st1 db1 = (db', st', r)"
    using Cons.prems(5) st1(1) by simp
  have "\<forall>call \<in> set lost. storable (ended_run S config call (cl_result c) (J (cl_job_id c)))"
    "\<forall>call \<in> set lost. unanswered call" using Cons.prems(1,2) by simp_all
  from Cons.IH [OF this st1(2) once rest]
  have "r = Ok False \<and> map_of (ws_pending st') (completed_attempt_key c) = None \<and>
    map_of (ws_active st') (completed_attempt_key c) = None \<and>
    (\<exists>call \<in> insert call made \<union> set lost \<union> {final}. stored S ns db'
      (J(cl_job_id c := ended_run S config call (cl_result c) (J (cl_job_id c)))))" .
  moreover have "made \<union> set (call # lost) \<union> {final} = insert call made \<union> set lost \<union> {final}" by auto
  ultimately show ?case by metis
qed


section \<open>Exactly once\<close>

text \<open>
  C6. A completion takes effect exactly once. A worker that holds the lease stores its completion until
  the store answers, and any number of attempts, one after the other without steps of other clients,
  may lose their answer to the timer, run by the server or not: in the
  end the job has been ended by exactly one attempt (completed, rescheduled or failed with one more
  failure), every other job is as before, and the worker has let go of the lease and of the completion.
\<close>

theorem completion_exactly_once:
  assumes "good_store S" and "stored S ns db J"
    and "wk_store W = redis_queue_store S" and "wk_namespace W = ns" and "wk_config W = config"
    and "leased_to (place (J (cl_job_id c))) (worker_id config) (cl_lease_token c)"
    and "map_of (ws_pending st) (completed_attempt_key c) = Some c"
    and "\<forall>call \<in> set lost. unanswered call" and "answered final"
    and "\<forall>call \<in> set lost \<union> {final}. storable (ended_run S config call (cl_result c) (J (cl_job_id c)))"
    and "attempts W (completed_attempt_key c) (lost @ [final]) st db = (db', st', r)"
  shows "r = Ok False \<and> map_of (ws_pending st') (completed_attempt_key c) = None \<and>
    map_of (ws_active st') (completed_attempt_key c) = None \<and>
    (\<exists>call \<in> set lost \<union> {final}. stored S ns db'
      (J(cl_job_id c := ended_run S config call (cl_result c) (J (cl_job_id c)))))"
proof -
  have start: "once S ns config c J {} db" using assms(2) by (simp add: once_def)
  have storable: "\<forall>call \<in> set lost. storable (ended_run S config call (cl_result c) (J (cl_job_id c)))"
    "storable (ended_run S config final (cl_result c) (J (cl_job_id c)))"
    using assms(10) by simp_all
  from attempts_once [OF assms(1,3-6) storable assms(8,9,7) start assms(11)] show ?thesis by simp
qed

text \<open>
  Worker \<open>w\<close> of the small queue reports an error of job \<open>a\<close>: the first answer is lost after the script
  ran, the second attempt is refused, and one failure has been added.
\<close>

definition demo_holder :: "mem_db worker" where
  "demo_holder = \<lparr>wk_namespace = ''mail'', wk_store = redis_queue_store demo_store,
     wk_config = demo_config\<lparr>worker_id := ''w''\<rparr>\<rparr>"

definition demo_failed :: completed_lease where
  "demo_failed = \<lparr>cl_job_id = ''a'', cl_lease_token = ''t'', cl_result = Inl ''no''\<rparr>"

definition demo_attempt :: "delivery \<Rightarrow> mem_db store_call" where
  "demo_attempt fate = \<lparr>sc_links = (\<lambda>_. \<lparr>others = (\<lambda>db. db), delivery = fate\<rparr>),
     sc_system_now = 700000, sc_now = 700000\<rparr>"

definition demo_pending :: worker_state where
  "demo_pending = (initial_state (wk_config demo_holder))
     \<lparr>ws_pending := [(completed_attempt_key demo_failed, demo_failed)]\<rparr>"

theorem completion_exactly_once_witness:
  "stored demo_store ''mail'' (fst (attempts demo_holder (completed_attempt_key demo_failed)
      [demo_attempt (Timer_fired True), demo_attempt Answered] demo_pending demo_db))
    (demo_queue(''a'' := \<lparr>place = At_failed 700, fails = 2, again = False\<rparr>))"
proof -
  have W: "wk_store demo_holder = redis_queue_store demo_store" "wk_namespace demo_holder = ''mail''"
    "wk_config demo_holder = demo_config\<lparr>worker_id := ''w''\<rparr>"
    by (simp_all add: demo_holder_def)
  have held: "leased_to (place (demo_queue (cl_job_id demo_failed))) (worker_id (demo_config\<lparr>worker_id := ''w''\<rparr>))
      (cl_lease_token demo_failed)"
    by (simp add: demo_failed_def demo_place)
  have pending: "map_of (ws_pending demo_pending) (completed_attempt_key demo_failed) = Some demo_failed"
    by (simp add: demo_pending_def)
  have lost: "\<forall>call \<in> set [demo_attempt (Timer_fired True)]. unanswered call" "answered (demo_attempt Answered)"
    by (auto simp: demo_attempt_def unanswered_def answered_def)
  have ended: "ended_run demo_store (demo_config\<lparr>worker_id := ''w''\<rparr>) (demo_attempt fate) (cl_result demo_failed)
      (demo_queue (cl_job_id demo_failed)) = \<lparr>place = At_failed 700, fails = 2, again = False\<rparr>" for fate
    by (simp add: ended_run_def demo_attempt_def demo_failed_def demo_config_def failed_job_def
        failure_placement_def micros_def safe_int_def demo_place)
  have storable: "\<forall>call \<in> set [demo_attempt (Timer_fired True)] \<union> {demo_attempt Answered}. storable
      (ended_run demo_store (demo_config\<lparr>worker_id := ''w''\<rparr>) call (cl_result demo_failed)
        (demo_queue (cl_job_id demo_failed)))"
    by (simp add: ended storable_def readable_placement_def)
  obtain db' st' r where run: "attempts demo_holder (completed_attempt_key demo_failed)
      ([demo_attempt (Timer_fired True)] @ [demo_attempt Answered]) demo_pending demo_db = (db', st', r)"
    by (metis surj_pair)
  from completion_exactly_once [OF demo_good demo_stored W held pending lost storable run]
  have "stored demo_store ''mail'' db' (demo_queue(''a'' := \<lparr>place = At_failed 700, fails = 2, again = False\<rparr>))"
    by (auto simp: ended) (simp_all add: demo_failed_def)
  then show ?thesis using run by simp
qed

end
