(* ===== verification/Reply_Types.thy ===== *)
theory Reply_Types
  imports Store_Properties Queue_Properties
begin

text \<open>
  The scripts and the parsers of their replies agree. A script answers with a list of texts; the Rust
  side reads states, counts and times out of it and calls the data of Redis invalid when that fails.
\<close>

section \<open>Readable answers\<close>

text \<open>
  An answer is readable when the operation has neither panicked nor complained about the data or a
  time it found.
\<close>

fun readable :: "'a result \<Rightarrow> bool" where
  "readable (Ok a) = True"
| "readable (Err (InvalidData field)) = False"
| "readable (Err (InvalidTimestamp v)) = False"
| "readable (Err e) = True"
| "readable Panic = False"

lemma readable_runtime: "runtime_error S operation e \<Longrightarrow> readable (Err e)"
  by (auto simp: runtime_error_def)

lemma readable_applies:
  assumes "applies S operation ns l J db J' r out" and "readable r"
  shows "readable (snd out)"
  using assms readable_runtime by (cases "delivery l = Answered") (auto simp: applies_def)

lemma readable_lease_result: "readable (lease_result x w t j)"
  by (simp add: lease_result_def)

lemma readable_enqueue_answer: "readable (enqueue_answer request now requested x)"
  by (cases "place x")
     (simp_all add: enqueue_answer_def enqueue_now_result_def schedule_result_def enqueued_def Let_def)

lemma readable_reschedule_answer: "readable (reschedule_answer now requested j x)"
  by (cases "place x") (simp_all add: reschedule_answer_def Let_def)

lemma readable_accepts: "readable (accepts P j p)"
  by (simp add: accepts_def)


section \<open>Reserve\<close>

lemma parse_reserve_readable:
  assumes S: "good_store S" and d: "i64_min \<le> d" "d \<le> i64_max"
    and fin: "finite (future_scores b J)" and safe: "\<And>s. s \<in> future_scores b J \<Longrightarrow> safe_int s"
  obtains batch where "parse_reserve_response (chrono S) w
      (''ok'' # next_text (redis S) b J # lease_reply d gs) = Ok batch"
proof -
  note next_text = redis_zsets.score_text_exact
    [OF redis_service.axioms(1) [OF good_storeD(1) [OF S]] safe [OF Min_in [OF fin]]]
  have "parse_reserved (lease_reply d gs) =
      Ok (map (\<lambda>(j, t). \<lparr>rj_job_id = j, rj_lease_token = t\<rparr>) gs)"
    unfolding lease_reply_def by (rule parse_reserved_lease_reply [OF d])
  then have "\<exists>batch. parse_reserve_response (chrono S) w
      (''ok'' # next_text (redis S) b J # lease_reply d gs) = Ok batch"
    using safe [OF Min_in [OF fin]]
    by (simp add: parse_reserve_response_def next_text_def next_text
        parse_micros_safe [OF good_storeD(2) [OF S]])
  then show thesis using that by blast
qed

lemma reserve_readable:
  assumes S: "good_store S" and J: "stored S ns (others (L 0) db) J"
    and cap: "length tokens = capacity" "safe_int (int capacity)"
    and d: "d = dbl (dbl (micros (chrono S) t) + dbl (duration_micros (lease_duration config)))"
      "i64_min \<le> d" "d \<le> i64_max"
    and safe: "\<And>j. readable_placement (place (J j))"
  shows "readable (snd (reserve S L ns config capacity t tokens db))"
proof (cases "capacity = 0")
  case True
  then show ?thesis by (simp add: reserve_def)
next
  case False
  then have cap': "0 < capacity" by simp
  let ?ks = "store_keys S ns"
  let ?stored = "hget (redis S) (others (L 0) db) (cfg ?ks) ''retry_policy''"
  show ?thesis
  proof (cases "delivery (L 0) = Answered")
    case answered: True
    show ?thesis
    proof (cases "?stored \<in> {None, Some (retry_policy_key config)}")
      case True
      define gs where "gs = zip (map turn_job (take capacity (turn_order (dbl (micros (chrono S) t)) J))) tokens"
      define J' where "J' = lease_all (worker_id config) d gs J"
      let ?b = "g14 (dbl (micros (chrono S) t))"
      obtain db1 where db1: "stored S ns db1 J'"
        and answer: "reserve S L ns config capacity t tokens db =
          io_bind (io_return (parse_reserve_response (chrono S) (worker_id config)
              (''ok'' # next_text (redis S) ?b J' # lease_reply d gs)))
            (\<lambda>batch db. (fst (remember_namespace S (L 1) ns db), Ok batch)) db1"
        using reserve_runs [where L = L and db = db,
            OF S J answered True cap' cap(2,1) refl d(1) gs_def J'_def] by blast
      have fin: "finite (future_scores ?b J')"
        by (rule redis_service.finite_future_scores [OF good_storeD(1) [OF S] db1 [unfolded stored_def]])
      have "safe_int s" if "s \<in> future_scores ?b J'" for s
      proof -
        from that obtain j where "place (J j) = At_scheduled s"
          by (auto simp: future_scores_def J'_def dest!: lease_all_scheduled)
        with safe [of j] show ?thesis by (simp add: readable_placement_def)
      qed
      from parse_reserve_readable [OF S d(2,3) fin this]
      obtain batch where "parse_reserve_response (chrono S) (worker_id config)
          (''ok'' # next_text (redis S) ?b J' # lease_reply d gs) = Ok batch" by blast
      with answer show ?thesis by simp
    next
      case False
      then obtain p where "?stored = Some p" "p \<noteq> retry_policy_key config" by auto
      from reserve_policy_mismatch [where L = L and db = db, OF answered this cap'] show ?thesis by simp
    qed
  next
    case False
    have "\<exists>e. snd (reserve S L ns config capacity t tokens db) = Err e \<and> runtime_error S ''reserve'' e"
    proof -
      obtain db1 r where run: "eval S ''reserve'' (L 0) (reserve_lua (redis S))
          [cfg ?ks, ready ?ks, scheduled ?ks, leased ?ks, lease_meta ?ks, workers_last_seen ?ks,
           workers_config ?ks, workers_leases ?ks]
          ([worker_id config, show_int (micros (chrono S) t), show_nat capacity,
            show_int (duration_micros (lease_duration config)), retry_policy_key config,
            pack_worker_config_record config] @ tokens) db = (db1, r)"
        by (metis surj_pair)
      then have "r \<noteq> Panic" "\<And>e. r = Err e \<Longrightarrow> runtime_error S ''reserve'' e" "\<And>rs. r \<noteq> Ok rs"
        using runtime_error_query query_cmd_not_Panic query_cmd_Ok False unfolding eval_def
        by (metis snd_conv)+
      then obtain e where "r = Err e" "runtime_error S ''reserve'' e" by (cases r) auto
      with run cap' show ?thesis by (simp add: reserve_def Let_def io_bind_def)
    qed
    with readable_runtime show ?thesis by metis
  qed
qed


section \<open>All operations\<close>

text \<open>
  C13. On a stored queue whose scheduled times are integers of at most 53 bits, no script answers with
  a reply that its parser rejects: whatever the job, the worker, the token and the fate of the
  command, an operation succeeds, refuses the job with one of the documented errors, or reports a
  runtime error. It never panics and never calls the data of Redis or a time invalid. The premises
  on the failed run and the rescheduled job say that the new time and the new count are in range.
\<close>

theorem replies_readable:
  assumes "good_store S" and "stored S ns (others (L 0) db) J"
    and "\<And>j. readable_placement (place (J j))"
    and "x = failed_job (dbl (micros (chrono S) (fr_now failure))) (fr_action failure)
      (fr_retry_policy failure) (J (fr_job_id failure))"
    and "fails x < 2 ^ 32" and "readable_placement (place x)"
    and "readable_placement (target (dbl (micros (chrono S) t)) (dbl (schedule_micros (chrono S) at)))"
    and "d = dbl (dbl (micros (chrono S) t) + dbl (duration_micros (lease_duration config)))"
    and "i64_min \<le> d" and "d \<le> i64_max"
    and "length tokens < 10 ^ 14" and "limit < 10 ^ 14"
  shows "readable (snd (enqueue S L t ns request db)) \<and>
    readable (snd (reschedule S L t ns j at db)) \<and>
    readable (snd (operator_call c S L t ns j db)) \<and>
    readable (snd (reserve S L ns config (length tokens) t tokens db)) \<and>
    readable (snd (heartbeat S L ns w j tok t duration db)) \<and>
    readable (snd (ack S L t ns w j tok db)) \<and>
    readable (snd (complete_and_reschedule S L ns w j tok at t db)) \<and>
    readable (snd (fail_or_retry S L ns failure db)) \<and>
    readable (snd (reap_expired S L ns t limit db))"
proof (intro conjI)
  note S = assms(1) and J = assms(2)
  note answer = readable_applies
  show "readable (snd (enqueue S L t ns request db))"
    by (rule answer [OF enqueue_applies [where L = L and db = db, OF S J refl refl refl] readable_enqueue_answer])
  show "readable (snd (reschedule S L t ns j at db))"
    by (rule answer [OF reschedule_applies [where L = L and db = db, OF S J refl refl assms(7)] readable_reschedule_answer])
  show "readable (snd (operator_call c S L t ns j db))"
    unfolding operator_call_at by (rule answer [OF operator_applies [where L = L and db = db, OF S J] readable_accepts])
  show "readable (snd (reserve S L ns config (length tokens) t tokens db))"
    by (rule reserve_readable [where L = L and db = db, OF S J refl _ assms(8-10,3)]) (use assms(11) in \<open>simp add: safe_int_def\<close>)
  show "readable (snd (heartbeat S L ns w j tok t duration db))"
    by (rule answer [OF heartbeat_applies [where L = L and db = db, OF S J refl] readable_lease_result])
  show "readable (snd (ack S L t ns w j tok db))"
    by (rule answer [OF ack_applies [where L = L and db = db, OF S J] readable_lease_result])
  show "readable (snd (complete_and_reschedule S L ns w j tok at t db))"
    by (rule answer [OF complete_applies [where L = L and db = db, OF S J] readable_lease_result])
  show "readable (snd (fail_or_retry S L ns failure db))"
    by (rule answer [OF fail_applies [where L = L and db = db, OF S J refl refl refl refl assms(4-6)]]) simp
  show "readable (snd (reap_expired S L ns t limit db))"
  proof (cases "limit = 0")
    case False
    then have "0 < limit" "safe_int (int limit)" using assms(12) by (simp_all add: safe_int_def)
    from answer [OF reap_applies [where L = L and db = db, OF S J this refl refl]] assms(12) show ?thesis by simp
  qed (simp add: reap_expired_def)
qed

theorem replies_readable_witness:
  "readable (snd (enqueue demo_store quiet 700000 ''mail'' (builder_into_batch_item \<lparr>jb_namespace = demo_handle, jb_job_id = ''c''\<rparr>) demo_db)) \<and>
   readable (snd (reschedule demo_store quiet 700000 ''mail'' ''c'' (Some 900000) demo_db)) \<and>
   readable (snd (operator_call Op_cancel demo_store quiet 700000 ''mail'' ''c'' demo_db)) \<and>
   readable (snd (reserve demo_store quiet ''mail'' demo_config 1 700000 [''t1''] demo_db)) \<and>
   readable (snd (heartbeat demo_store quiet ''mail'' ''w'' ''c'' ''t'' 700000 5000000 demo_db)) \<and>
   readable (snd (ack demo_store quiet 700000 ''mail'' ''w'' ''c'' ''t'' demo_db)) \<and>
   readable (snd (complete_and_reschedule demo_store quiet ''mail'' ''w'' ''c'' ''t'' (Some 900000) 700000 demo_db)) \<and>
   readable (snd (fail_or_retry demo_store quiet ''mail'' demo_failure demo_db)) \<and>
   readable (snd (reap_expired demo_store quiet ''mail'' 700000 5 demo_db))"
proof -
  have stored: "stored demo_store ''mail'' (others (quiet 0) demo_db) demo_queue" by simp
  have places: "readable_placement (place (demo_queue j))" for j
    by (simp add: demo_queue_def readable_placement_def safe_int_def)
  let ?x = "failed_job (dbl (micros (chrono demo_store) (fr_now demo_failure))) (fr_action demo_failure)
    (fr_retry_policy demo_failure) (demo_queue (fr_job_id demo_failure))"
  have "?x = \<lparr>place = At_scheduled 150700, fails = 2, again = False\<rparr>"
    by (simp add: failed_job_def failure_placement_def demo_failure_def demo_place after_delay_def
        micros_def safe_int_def numeral_2_eq_2)
  then have failed: "fails ?x < 2 ^ 32" "readable_placement (place ?x)"
    by (simp_all add: readable_placement_def safe_int_def)
  have later: "readable_placement (target (dbl (micros (chrono demo_store) 700000))
      (dbl (schedule_micros (chrono demo_store) (Some 900000))))"
    by (simp add: target_def schedule_micros_def micros_def safe_int_def readable_placement_def)
  have until: "30700 = dbl (dbl (micros (chrono demo_store) 700000) + dbl (duration_micros (lease_duration demo_config)))"
    by (simp add: demo_config_def duration_micros_def as_micros_def micros_def safe_int_def i64_max_def)
  from replies_readable [where L = quiet and db = demo_db and tokens = "[''t1'']" and limit = 5,
      OF demo_good stored places refl failed later until] show ?thesis
    by (simp add: i64_min_def i64_max_def)
qed

end
