(* ===== verification/Horizon.thy ===== *)
theory Horizon
  imports Recovery
begin

text \<open>
  Activations beyond the horizon of the client: a schedule can hold a time that the store can write
  but cannot read back, because the microseconds leave the range of an \<^verbatim>\<open>i64\<close> or of an instant.
  The retry backoff of a valid worker configuration produces such times.
\<close>


section \<open>Times that cannot be read\<close>

lemma parse_signed_beyond:
  assumes "2 ^ (w - 1) \<le> i"
  shows "parse_signed w (show_int i) = None"
proof -
  have i: "0 \<le> i" using assms by (rule order_trans [rotated]) simp
  obtain c cs where c: "show_nat (nat i) = c # cs" by (cases "show_nat (nat i)") auto
  from show_nat_Cons [OF this] have "c \<noteq> CHR ''+''" "c \<noteq> CHR ''-''" by auto
  moreover have "read_nat (c # cs) = Some (nat i)" using c read_show_nat by metis
  ultimately show ?thesis using c i assms by (simp add: show_int_def parse_signed_def)
qed

lemma parse_micros_beyond: "2 ^ 63 \<le> i \<Longrightarrow> parse_micros C field (show_int i) = Err (InvalidData field)"
  by (simp add: parse_micros_def parse_i64_def parse_signed_beyond)

lemma parse_micros_fatal:
  "parse_micros C field value = Err e \<Longrightarrow> \<not> is_recoverable_worker_runtime e"
  by (auto simp: parse_micros_def parse_i64_def from_micros_def split: option.splits)

lemma parse_micros_zero: "chrono_service C \<Longrightarrow> parse_micros C field ''0'' = Ok 0"
  using parse_micros_safe [of C 0 field] by (simp add: show_int_def safe_int_def show_nat.simps)


section \<open>A retry beyond the horizon\<close>

text \<open>
  The failure is stored and the job is scheduled, but the answer is an error: the call has done its
  work and reports that the data of Redis is invalid.
\<close>

lemma overlong_retry_misread:
  assumes "good_store S" and "stored S ns (others (L 0) db) J" and "delivery (L 0) = Answered"
    and "j = fr_job_id request" and "now = dbl (micros (chrono S) (fr_now request))"
    and "leased_to (place (J j)) (fr_worker_id request) (fr_lease_token request)"
    and x: "x = failed_job now (fr_action request) (fr_retry_policy request) (J j)"
    and s: "place x = At_scheduled s" "2 ^ 63 \<le> s" and n: "fails x < 2 ^ 32"
  shows "snd (fail_or_retry S L ns request db) = Err (InvalidData ''fail_or_retry.schedule_at'')"
    and "stored S ns (fst (fail_or_retry S L ns request db)) (J(j := x))"
proof -
  note run = fail_answers [where L = L and db = db, OF assms(1,2) assms(4) refl refl assms(5) x]
  have "show_int s \<noteq> ''0''" using s(2) by (simp add: show_int_0_iff)
  moreover have "lua_tostring (int (fails x)) = show_nat (fails x)"
    using n by (simp add: lua_tostring_small)
  ultimately have "parse_failure_response (chrono S) j
      [''ok'', lua_tostring (int (fails x)), state_name (place x), schedule_text (place x)] =
    Err (InvalidData ''fail_or_retry.schedule_at'')"
    using s n by (simp add: parse_failure_response_def parse_micros_beyond parse_state_def)
  then show "snd (fail_or_retry S L ns request db) = Err (InvalidData ''fail_or_retry.schedule_at'')"
    and "stored S ns (fst (fail_or_retry S L ns request db)) (J(j := x))"
    using applies_answered [OF run assms(3)] assms(6) by simp_all
qed


text \<open>The failure leaves the configuration of the namespace alone.\<close>

context redis_service begin

lemma place_failed_hget:
  "hget R (fst (place_failed R rd sc fl j now n ak pk mr bk a b c db)) k f = hget R db k f"
  by (simp add: place_failed_def Let_def)

lemma fail_lua_hget:
  assumes "k \<noteq> lm" "k \<noteq> wl" "k \<noteq> fs"
  shows "hget R (fst (fail_or_retry_lua R [le, lm, fs, rd, sc, fl, wl, re]
    [j, w, t, now, ak, pk, mr, bk, a, b, c] db)) k f = hget R db k f"
  using hincrby_other [of k fs f j _ 1] assms
  by (simp add: Let_def split_def place_failed_hget decrement_worker_hget)

end

lemma fst_io_bind_return: "fst (io_bind m (\<lambda>a. io_return (g a)) db) = fst (m db)"
  by (simp add: io_bind_def io_return_def split: prod.splits rresult.splits)

lemma fail_policy:
  assumes "good_store S"
  shows "hget (redis S) (fst (fail_or_retry S L ns request db)) (cfg (store_keys S ns)) f =
    hget (redis S) (others (L 0) db) (cfg (store_keys S ns)) f"
proof -
  have Z: "redis_service (redis S)" using assms by (rule good_storeD)
  note keys = keys_okD [OF keys_ok_store [of S ns]]
  obtain ak pk mr bk a b c where args: "failure_args (chrono S) request =
      [fr_job_id request, fr_worker_id request, fr_lease_token request,
       show_int (micros (chrono S) (fr_now request)), ak, pk, mr, bk, a, b, c]"
    using failure_args_spec [of "chrono S" request 0] by auto
  let ?ks = "store_keys S ns"
  let ?run = "run_script S (fail_or_retry_lua (redis S))
    [leased ?ks, lease_meta ?ks, failures ?ks, ready ?ks, scheduled ?ks, failed ?ks,
     workers_leases ?ks, rerun ?ks] (failure_args (chrono S) request)"
  have "hget (redis S) (fst (?run db0)) (cfg ?ks) f = hget (redis S) db0 (cfg ?ks) f" for db0
    by (simp add: run_script_def split_def Let_def args redis_service.fail_lua_hget [OF Z] keys
        del: fail_or_retry_lua.simps split: reply.splits)
  with query_cmd_db [of S "''fail_or_retry''" "L 0" ?run db] show ?thesis
    by (auto simp: fail_or_retry_def Let_def eval_def fst_io_bind_return)
qed


section \<open>Reserving before the horizon\<close>

text \<open>
  C20. When the next activation that a reserve announces cannot be read, the call fails with an error
  that ends the worker, although its script has leased the runnable jobs to that worker: nobody runs
  them until those leases are over. The same happens to every other worker whose reserve announces
  that activation.
\<close>

theorem unreadable_activation_stops_worker:
  assumes "good_store S" and "stored S ns (others (L 0) db) J"
    and "delivery (L 0) = Answered"
    and "hget (redis S) (others (L 0) db) (cfg (store_keys S ns)) ''retry_policy'' \<in>
      {None, Some (retry_policy_key config)}"
    and "0 < capacity" and "safe_int (int capacity)" and "length tokens = capacity"
    and "now = dbl (micros (chrono S) t)"
    and "d = dbl (now + dbl (duration_micros (lease_duration config)))"
    and "gs = zip (map turn_job (take capacity (turn_order now J))) tokens"
    and "J' = lease_all (worker_id config) d gs J"
    and "future_scores (g14 now) J' \<noteq> {}"
    and "parse_micros (chrono S) ''next_schedule_at''
      (score_text (redis S) (Min (future_scores (g14 now) J'))) = Err e"
    and "reserve S L ns config capacity t tokens db = (db', r)"
  shows "r = Err e \<and> \<not> is_recoverable_worker_runtime e \<and> stored S ns db' J'"
proof -
  obtain db1 where db1: "stored S ns db1 J'"
    and answer: "reserve S L ns config capacity t tokens db =
      io_bind (io_return (parse_reserve_response (chrono S) (worker_id config)
          (''ok'' # next_text (redis S) (g14 now) J' # lease_reply d gs)))
        (\<lambda>batch db. (fst (remember_namespace S (L 1) ns db), Ok batch)) db1"
    using reserve_runs [where L = L and db = db, OF assms(1-11)] by blast
  have "score_text (redis S) (Min (future_scores (g14 now) J')) \<noteq> ''0''"
    using assms(13) parse_micros_zero [OF good_storeD(2) [OF assms(1)]] by auto
  then have "parse_reserve_response (chrono S) (worker_id config)
      (''ok'' # next_text (redis S) (g14 now) J' # lease_reply d gs) = Err e"
    using assms(12,13) by (simp add: parse_reserve_response_def next_text_def)
  with answer assms(14) db1 parse_micros_fatal [OF assms(13)] show ?thesis
    by (simp add: io_bind_def)
qed

text \<open>
  A worker configuration that is valid, with a delay of ten to the sixteen milliseconds, and the
  failure that worker \<open>w\<close> reports with it.
\<close>

definition slow_config :: worker_config where
  "slow_config = demo_config\<lparr>retry_policy := Policy_infinite (Backoff_fixed (10 ^ 16))\<rparr>"

definition slow_failure :: failure_request where
  "slow_failure =
     \<lparr>fr_worker_id = ''w'', fr_job_id = ''a'', fr_lease_token = ''t'', fr_action = Action_retryable,
      fr_retry_policy = retry_policy slow_config, fr_now = 700000\<rparr>"

definition beyond_db :: mem_db where
  "beyond_db = fst (fail_or_retry demo_store quiet ''mail'' slow_failure demo_db)"

lemma slow_config_valid: "worker_config_validate slow_config = Ok ()"
  by (simp add: worker_config_validate_iff slow_config_def demo_config_def)

lemma dbl_beyond: "dbl (10 ^ 16) = 10 ^ 16" "dbl (10 ^ 19) = 10 ^ 19" "dbl (700 + 10 ^ 19) = 10 ^ 19"
  by (simp_all add: dbl_def safe_int_def round_to_def bit_length.simps)

definition beyond_queue :: "string \<Rightarrow> job" where
  "beyond_queue = demo_queue(''a'' := \<lparr>place = At_scheduled (10 ^ 19), fails = 2, again = False\<rparr>)"

lemma beyond_retry:
  "snd (fail_or_retry demo_store quiet ''mail'' slow_failure demo_db) =
     Err (InvalidData ''fail_or_retry.schedule_at'')"
  "stored demo_store ''mail'' beyond_db beyond_queue"
proof -
  have x: "\<lparr>place = At_scheduled (10 ^ 19), fails = 2, again = False\<rparr> =
      failed_job 700 (fr_action slow_failure) (fr_retry_policy slow_failure) (demo_queue ''a'')"
    using dbl_beyond
    by (simp add: failed_job_def failure_placement_def slow_failure_def slow_config_def
        after_delay_def demo_place)
  have stored: "stored demo_store ''mail'' (others (quiet 0) demo_db) demo_queue" by simp
  have now: "700 = dbl (micros (chrono demo_store) (fr_now slow_failure))"
    by (simp add: slow_failure_def micros_def safe_int_def)
  have j: "''a'' = fr_job_id slow_failure" by (simp add: slow_failure_def)
  note run = overlong_retry_misread [where L = quiet and db = demo_db,
    OF demo_good stored _ j now _ x]
  show "snd (fail_or_retry demo_store quiet ''mail'' slow_failure demo_db) =
      Err (InvalidData ''fail_or_retry.schedule_at'')"
    and "stored demo_store ''mail'' beyond_db beyond_queue"
    using run by (simp_all add: demo_place slow_failure_def beyond_db_def beyond_queue_def)
qed

theorem unreadable_activation_stops_worker_witness:
  "worker_config_validate slow_config = Ok () \<and>
   snd (fail_or_retry demo_store quiet ''mail'' slow_failure demo_db) =
     Err (InvalidData ''fail_or_retry.schedule_at'') \<and>
   snd (reserve demo_store quiet ''mail'' slow_config 2 500000 [''t1'', ''t2''] beyond_db) =
     Err (InvalidData ''next_schedule_at'') \<and>
   stored demo_store ''mail''
     (fst (reserve demo_store quiet ''mail'' slow_config 2 500000 [''t1'', ''t2''] beyond_db))
     (beyond_queue(''b'' := \<lparr>place = At_leased 30500 ''v'' ''t1'', fails = 0, again = False\<rparr>,
                   ''c'' := \<lparr>place = At_leased 30500 ''v'' ''t2'', fails = 0, again = False\<rparr>))"
proof -
  let ?gs = "[(''b'', ''t1''), (''c'', ''t2'')]"
  let ?J = "lease_all ''v'' 30500 ?gs beyond_queue"
  have J: "?J = beyond_queue(''b'' := \<lparr>place = At_leased 30500 ''v'' ''t1'', fails = 0, again = False\<rparr>,
                   ''c'' := \<lparr>place = At_leased 30500 ''v'' ''t2'', fails = 0, again = False\<rparr>)"
    by (simp add: fun_eq_iff lease_all_def lease_job_def beyond_queue_def demo_queue_def)
  have "turns 500 beyond_queue = turns 500 demo_queue"
    by (rule set_eqI) (auto simp: turns_def demo_turn_of beyond_queue_def)
  then have order: "turn_order 500 beyond_queue = [(100, False, ''b''), (400, True, ''c'')]"
    using demo_turns by (simp add: turn_order_def)
  let ?l = "10 ^ 19 :: int"
  have "(place (?J j) = At_scheduled s) = (j = ''a'' \<and> s = ?l)" for j s
    by (auto simp: lease_all_def lease_job_def beyond_queue_def demo_queue_def split: if_splits)
  then have "future_scores (g14 500) ?J = {s. g14 500 < s \<and> s = ?l}"
    by (simp only: future_scores_def ex_simps simp_thms)
  also have "\<dots> = {?l}" by (intro set_eqI) (simp add: g14_def, linarith)
  finally have future: "future_scores (g14 500) ?J = {?l}" .
  have stored: "stored demo_store ''mail'' (others (quiet 0) beyond_db) beyond_queue"
    using beyond_retry(2) by simp
  have policy: "hget (redis demo_store) (others (quiet 0) beyond_db)
      (cfg (store_keys demo_store ''mail'')) ''retry_policy'' \<in> {None, Some (retry_policy_key slow_config)}"
    using fail_policy [OF demo_good, of quiet "''mail''" slow_failure demo_db "''retry_policy''"]
    by (simp add: beyond_db_def demo_policy flip: demo_keys_def)
  have worker: "?J = lease_all (worker_id slow_config) 30500 ?gs beyond_queue"
    by (simp add: slow_config_def demo_config_def)
  have until: "30500 = dbl (500 + dbl (duration_micros (lease_duration slow_config)))"
    by (simp add: slow_config_def demo_config_def duration_micros_def as_micros_def safe_int_def i64_max_def)
  have now: "500 = dbl (micros (chrono demo_store) 500000)" by (simp add: micros_def safe_int_def)
  have granted: "?gs = zip (map turn_job (take 2 (turn_order 500 beyond_queue))) [''t1'', ''t2'']"
    by (simp add: order)
  have misread: "parse_micros (chrono demo_store) ''next_schedule_at''
      (score_text (redis demo_store) (Min (future_scores (g14 500) ?J))) = Err (InvalidData ''next_schedule_at'')"
    unfolding future by (simp add: parse_micros_beyond)
  have "future_scores (g14 500) ?J \<noteq> {}" unfolding future by simp
  from unreadable_activation_stops_worker [where L = quiet and db = beyond_db,
      OF demo_good stored _ policy _ _ _ now until granted worker this misread prod.collapse [symmetric]]
  show ?thesis
    unfolding J using slow_config_valid beyond_retry(1) by (simp add: safe_int_def)
qed

end
