(* ===== verification/Example.thy ===== *)
theory Example
  imports Session
begin

text \<open>
  The example program, \<^verbatim>\<open>crates/redloop/examples/basic.rs\<close>: a producer and a worker on one
  namespace, configured by the environment of the process.
\<close>

section \<open>What the program gets from outside\<close>

text \<open>
  The connection, the variables of the process (\<^verbatim>\<open>std::env::var\<close>), the sum of an instant and a
  number of seconds in chrono (\<open>None\<close> where the addition panics) and the printed form of an instant.
\<close>

record ('h, 'db) example_world =
  ew_crate :: "'h redis_crate"
  ew_server :: "'h redis_driver \<Rightarrow> 'db redis_api"
  ew_chrono :: chrono_api
  ew_var :: "string \<Rightarrow> string option"
  ew_plus_seconds :: "timestamp \<Rightarrow> int \<Rightarrow> timestamp option"
  ew_to_rfc3339 :: "timestamp \<Rightarrow> string"

datatype example_line = Stdout string | Stderr string

text \<open>A run: the database afterwards, the lines printed, the result.\<close>

type_synonym 'db example_io = "'db \<Rightarrow> 'db \<times> example_line list \<times> unit result"


section \<open>The handler\<close>

text \<open>
  \<open>seen\<close> is the number of jobs processed before, \<open>now\<close> the instant the handler reads. Adding a day
  panics only at the end of the calendar; the panic ends the task.
\<close>

definition example_handle ::
    "('h, 'db) example_world \<Rightarrow> nat \<Rightarrow> string \<Rightarrow> timestamp \<Rightarrow>
     nat \<times> example_line \<times> (job_error + job_outcome) option" where
  "example_handle W processed job now =
     (let seen = processed + 1
      in (seen, Stdout (''processing '' @ job @ '' (processed='' @ show_nat seen @ '')''),
          if take 13 job = ''daily-digest:''
          then map_option (\<lambda>t. Inr (Reschedule (Some t))) (ew_plus_seconds W now 86400)
          else Some (Inr Complete)))"

text \<open>What the worker gets from the task of a job: the answer of the handler or its panic.\<close>

definition example_task :: "('h, 'db) example_world \<Rightarrow> string \<Rightarrow> timestamp \<Rightarrow> task_end" where
  "example_task W job now =
     (case snd (snd (example_handle W 0 job now)) of
        Some answer \<Rightarrow> Returned (trait_handler_adapter (\<lambda>_. answer) job)
      | None \<Rightarrow> Task_lost Join_error)"

text \<open>The calls of the handler in the order in which they read the counter.\<close>

fun example_calls ::
    "('h, 'db) example_world \<Rightarrow> nat \<Rightarrow> (string \<times> timestamp) list \<Rightarrow> nat \<times> example_line list" where
  "example_calls W processed [] = (processed, [])"
| "example_calls W processed ((job, now) # calls) =
     (case example_handle W processed job now of (seen, line, _) \<Rightarrow>
        map_prod id ((#) line) (example_calls W seen calls))"


section \<open>The worker\<close>

definition example_config :: worker_config where
  "example_config =
     \<lparr>worker_id = ''example-worker'', concurrency = 4,
      retry_policy = Policy_count 3 (Backoff_fixed 1000), lease_duration = 30 * 1000000000,
      heartbeat_interval = 10 * 1000000000, reap_interval = 5 * 1000000000,
      poll_interval_min = 25 * 1000000, poll_interval_max = 250 * 1000000\<rparr>"

text \<open>
  The inputs of an iteration, with the index of a joined task and the instant its handler read in
  place of what the task returned.
\<close>

record 'db example_turn =
  et_finished :: "(nat \<times> timestamp) list"
  et_before :: "'db prelude_input"
  et_dropped :: "'db reserve_call option"
  et_arm :: "nat \<times> timestamp + 'db arm"

fun finished_tasks ::
    "('h, 'db) example_world \<Rightarrow> (nat \<times> timestamp) list \<Rightarrow> reserved_job list \<Rightarrow>
     (nat \<times> task_end) list \<times> reserved_job list" where
  "finished_tasks W [] jobs = ([], jobs)"
| "finished_tasks W ((i, now) # rest) jobs =
     map_prod ((#) (i, example_task W (rj_job_id (jobs ! i)) now)) id
       (finished_tasks W rest (take i jobs @ drop (Suc i) jobs))"

definition example_input ::
    "('h, 'db) example_world \<Rightarrow> 'db example_turn \<Rightarrow> worker_state \<Rightarrow> 'db turn_input" where
  "example_input W turn st =
     (case finished_tasks W (et_finished turn) (ws_join_set st) of (finished, running) \<Rightarrow>
        ((et_before turn)\<lparr>pi_finished := finished\<rparr>, et_dropped turn,
         case et_arm turn of
           Inl (i, now) \<Rightarrow> Task_joined i (example_task W (rj_job_id (running ! i)) now)
         | Inr arm \<Rightarrow> arm))"

fun example_inputs ::
    "('h, 'db) example_world \<Rightarrow> 'db worker \<Rightarrow> 'db example_turn list \<Rightarrow> worker_state \<Rightarrow> 'db \<Rightarrow>
     'db turn_input list" where
  "example_inputs X W [] st db = []"
| "example_inputs X W (turn # turns) st db =
     (let inp = example_input X turn st
      in inp # (case iteration W inp st db of
                  (db', st', Ok _) \<Rightarrow> example_inputs X W turns st' db'
                | _ \<Rightarrow> []))"

text \<open>
  \<^verbatim>\<open>tokio::time::timeout\<close> around \<^verbatim>\<open>worker.run\<close>: the worker stops with an error before the time is
  up, or it is dropped while it goes on. What a worker dropped in the middle of an iteration has
  done to the database is what that iteration does when the command it waits for gets no answer.
\<close>

definition run_worker_for ::
    "('h, 'db) example_world \<Rightarrow> 'db redloop_namespace \<Rightarrow> 'db example_turn list \<Rightarrow>
     (string \<times> timestamp) list \<Rightarrow> nat \<Rightarrow> 'db example_io" where
  "run_worker_for X queue turns calls run_for db =
     (let worker = rn_worker queue example_config;
          (processed, lines) = example_calls X 0 calls
      in case run_internal worker
             (example_inputs X worker turns (initial_state example_config) db) db of
           (db', st', Ok _) \<Rightarrow>
             (db', lines @ [Stdout (''worker stopped after '' @ show_nat run_for @ ''s''),
                            Stdout (''processed '' @ show_nat processed @ '' jobs'')], Ok ())
         | (db', st', Err e) \<Rightarrow> (db', lines, Err e)
         | (db', st', Panic) \<Rightarrow> (db', lines, Panic))"


section \<open>The program\<close>

definition print_usage :: "example_line list" where
  "print_usage = map Stderr
     [''usage:'',
      ''  cargo run -p redloop --example basic -- enqueue <job_id>'',
      ''  cargo run -p redloop --example basic -- schedule <job_id> [delay_seconds]'',
      ''  cargo run -p redloop --example basic -- counts'',
      ''  cargo run -p redloop --example basic -- work [seconds]'',
      '''',
      ''env:'',
      ''  REDIS_URL=redis://127.0.0.1/'',
      ''  REDLOOP_KEY_PREFIX=redloop-example'',
      ''  REDLOOP_NAMESPACE=example'']"

definition var_or :: "('h, 'db) example_world \<Rightarrow> string \<Rightarrow> string \<Rightarrow> string" where
  "var_or X name otherwise = (case ew_var X name of Some value \<Rightarrow> value | None \<Rightarrow> otherwise)"

definition example_connect_config :: "('h, 'db) example_world \<Rightarrow> connect_config" where
  "example_connect_config X =
     \<lparr>deployment = Standalone (var_or X ''REDIS_URL'' ''redis://127.0.0.1/''),
      key_prefix = var_or X ''REDLOOP_KEY_PREFIX'' ''redloop-example'',
      command_timeout = 5 * 1000000000\<rparr>"

definition example_namespace :: "('h, 'db) example_world \<Rightarrow> string" where
  "example_namespace X = var_or X ''REDLOOP_NAMESPACE'' ''example''"

definition from_env :: "('h, 'db) example_world \<Rightarrow> 'db redloop_namespace result" where
  "from_env X =
     map_ok (\<lambda>redloop. open_namespace redloop (example_namespace X))
       (redloop_connect (ew_crate X) (ew_server X) (ew_chrono X) (example_connect_config X))"

fun show_status :: "enqueue_status \<Rightarrow> string" where
  "show_status Created = ''Created''"
| "show_status Unchanged = ''Unchanged''"
| "show_status Updated = ''Updated''"

text \<open>An operation and the line its answer prints.\<close>

definition print_result :: "('db, 'a) io \<Rightarrow> ('a \<Rightarrow> string) \<Rightarrow> 'db example_io" where
  "print_result operation line db =
     (case operation db of
        (db', Ok a) \<Rightarrow> (db', [Stdout (line a)], Ok ())
      | (db', Err e) \<Rightarrow> (db', [], Err e)
      | (db', Panic) \<Rightarrow> (db', [], Panic))"

text \<open>
  What the environment gives to one command: the links of its calls, the instants the store and
  \<^verbatim>\<open>main\<close> read, and the iterations and handler calls of the worker.
\<close>

record 'db example_env =
  ee_links :: "'db links"
  ee_remember :: "'db links"
  ee_system_now :: timestamp
  ee_utc_now :: timestamp
  ee_turns :: "'db example_turn list"
  ee_calls :: "(string \<times> timestamp) list"

definition example_enqueue :: "'db example_env \<Rightarrow> 'db redloop_namespace \<Rightarrow> string \<Rightarrow> 'db example_io" where
  "example_enqueue E queue job =
     print_result (eo_execute (rn_job queue job) (ee_links E) (ee_remember E) (ee_system_now E))
       (\<lambda>result. ''enqueued '' @ job @ '': '' @ show_status (er_status result))"

text \<open>
  A delay that is no \<^verbatim>\<open>i64\<close> counts as 60 seconds; one beyond the range of a chrono duration, or an
  instant beyond the calendar, panics.
\<close>

definition example_schedule ::
    "('h, 'db) example_world \<Rightarrow> 'db example_env \<Rightarrow> 'db redloop_namespace \<Rightarrow> string \<Rightarrow> string option \<Rightarrow>
     'db example_io" where
  "example_schedule X E queue job delay db =
     (let delay_seconds = (case Option.bind delay (parse_signed 64) of Some s \<Rightarrow> s | None \<Rightarrow> 60)
      in case ew_plus_seconds X (ee_utc_now E) delay_seconds of
          None \<Rightarrow> (db, [], Panic)
        | Some schedule_at \<Rightarrow>
            print_result
              (so_execute (so_replace_if_earlier (eo_schedule_at (rn_job queue job) schedule_at))
                (ee_links E) (ee_remember E) (ee_system_now E))
              (\<lambda>result. ''scheduled '' @ job @ '' for '' @ ew_to_rfc3339 X schedule_at @ '': '' @
                 show_status (er_status result)) db)"

definition example_counts :: "'db example_env \<Rightarrow> 'db redloop_namespace \<Rightarrow> 'db example_io" where
  "example_counts E queue =
     print_result (rn_counts queue (ee_links E) (ee_system_now E))
       (\<lambda>counts. ''ready='' @ show_nat (ready_count counts) @
          '' scheduled_due='' @ show_nat (scheduled_due_count counts) @
          '' scheduled_future='' @ show_nat (scheduled_future_count counts) @
          '' leased='' @ show_nat (leased_count counts) @
          '' failed='' @ show_nat (failed_count counts))"

definition example_work ::
    "('h, 'db) example_world \<Rightarrow> 'db example_env \<Rightarrow> 'db redloop_namespace \<Rightarrow> string option \<Rightarrow>
     'db example_io" where
  "example_work X E queue seconds =
     run_worker_for X queue (ee_turns E) (ee_calls E)
       (case Option.bind seconds (parse_unsigned 64) of Some s \<Rightarrow> s | None \<Rightarrow> 10)"

definition example_main ::
    "('h, 'db) example_world \<Rightarrow> 'db example_env \<Rightarrow> string list \<Rightarrow> 'db example_io" where
  "example_main X E args db =
     (case args of
        [] \<Rightarrow> (db, print_usage, Ok ())
      | command # rest \<Rightarrow>
          (case from_env X of
             Err e \<Rightarrow> (db, [], Err e)
           | Panic \<Rightarrow> (db, [], Panic)
           | Ok queue \<Rightarrow>
               if command = ''enqueue'' then
                 (case get_at rest 0 of
                    None \<Rightarrow> (db, print_usage, Ok ())
                  | Some job \<Rightarrow> example_enqueue E queue job db)
               else if command = ''schedule'' then
                 (case get_at rest 0 of
                    None \<Rightarrow> (db, print_usage, Ok ())
                  | Some job \<Rightarrow> example_schedule X E queue job (get_at rest 1) db)
               else if command = ''counts'' then example_counts E queue db
               else if command = ''work'' then example_work X E queue (get_at rest 0) db
               else (db, print_usage, Ok ())))"

end
