(* ===== verification/Example_Properties.thy ===== *)
theory Example_Properties
  imports Example Client_Queue Worker_Properties
begin

text \<open>
  The example program on the queue: what its handler answers, that its configuration is valid, and
  that none of its commands can corrupt the queue.
\<close>

section \<open>The handler\<close>

text \<open>Every call counts once and prints its own number.\<close>

lemma example_calls_count:
  "fst (example_calls X n calls) = n + length calls"
  "length (snd (example_calls X n calls)) = length calls"
  by (induction X n calls rule: example_calls.induct) (simp_all add: example_handle_def split: prod.splits)

lemma example_task_digest:
  assumes "ew_plus_seconds X now 86400 = Some tomorrow"
  shows "example_task X (''daily-digest:'' @ name) now = Returned (Inr (Reschedule (Some tomorrow)))"
  using assms by (simp add: example_task_def example_handle_def trait_handler_adapter_def)

lemma example_task_other:
  "take 13 job \<noteq> ''daily-digest:'' \<Longrightarrow> example_task X job now = Returned (Inr Complete)"
  by (simp add: example_task_def example_handle_def trait_handler_adapter_def)

lemma example_config_valid: "worker_config_validate example_config = Ok ()"
  by (simp add: worker_config_validate_iff example_config_def)


section \<open>The queue\<close>

text \<open>Iterations in which the commands follow the steps of others.\<close>

definition turn_follows :: "('db \<Rightarrow> 'db \<Rightarrow> bool) \<Rightarrow> 'db example_turn \<Rightarrow> bool" where
  "turn_follows T turn \<longleftrightarrow>
     (\<forall>i. calls_follow T (sc_links (pi_calls (et_before turn) i))) \<and>
     pred_option (\<lambda>call. calls_follow T (rc_links call)) (et_dropped turn) \<and>
     (case et_arm turn of Inl task \<Rightarrow> True | Inr arm \<Rightarrow> arm_follows T arm)"

lemma example_input_follows: "turn_follows T turn \<Longrightarrow> input_follows T (example_input X turn st)"
  by (auto simp: turn_follows_def input_follows_def example_input_def split: prod.splits sum.splits)

lemma example_inputs_follow:
  assumes "\<forall>turn \<in> set ts. turn_follows T turn"
  shows "\<forall>inp \<in> set (example_inputs X W ts st db). input_follows T inp"
  using assms
proof (induction ts arbitrary: st db)
  case (Cons turn ts)
  obtain db1 st1 r1 where "iteration W (example_input X turn st) st db = (db1, st1, r1)" by (metis surj_pair)
  with Cons example_input_follows [of T turn X st] show ?case
    by (cases r1) (simp_all add: Let_def)
qed simp

lemma run_worker_steps:
  assumes queue: "queue = namespace_object \<lparr>nh_store = redis_queue_store S, nh_namespace = ns\<rparr>"
    and ts: "\<forall>turn \<in> set ts. turn_follows (queue_step S ns idle) turn"
    and run: "run_worker_for X queue ts calls run_for db = (db', out, r)"
  shows "(queue_step S ns idle)\<^sup>*\<^sup>* db db'"
proof -
  let ?W = "rn_worker queue example_config"
  let ?inps = "example_inputs X ?W ts (initial_state example_config) db"
  obtain db1 st1 r1 where internal: "run_internal ?W ?inps db = (db1, st1, r1)" by (metis surj_pair)
  have "wk_store ?W = redis_queue_store S" "wk_namespace ?W = ns" "wk_config ?W = example_config"
    by (simp_all add: queue namespace_object_def worker_runtime_def worker_new_def Let_def)
  from run_internal_steps [OF this(1,2) _ example_inputs_follow [OF ts] internal] this(3)
  have "(queue_step S ns idle)\<^sup>*\<^sup>* db db1" by (simp add: example_config_def safe_int_def)
  moreover have "db' = db1"
    using run internal by (auto simp: run_worker_for_def Let_def split: prod.splits rresult.splits)
  ultimately show ?thesis by simp
qed

text \<open>The methods of the handle that the example calls.\<close>

lemma example_calls:
  assumes L: "calls_follow (queue_step S ns False) L" "calls_follow (queue_step S ns False) L'"
    and queue: "N = namespace_object \<lparr>nh_store = redis_queue_store S, nh_namespace = ns\<rparr>"
  shows "moves (queue_step S ns False) (eo_execute (rn_job N job) L L' t)"
    and "moves (queue_step S ns False)
      (so_execute (so_replace_if_earlier (eo_schedule_at (rn_job N job) at)) L L' t)"
    and "moves (queue_step S ns False) (rn_counts N L t)"
  using handle_enqueues(1) [OF L] handle_reads(2) [OF L(1) queue]
  by (simp_all add: queue namespace_object_def namespace_job_def enqueue_trait_def builder_new_def Let_def
      builder_schedule_at_def replace_if_earlier_def scheduled_execute_def builder_execute_def)

lemma print_result_steps:
  "moves T operation \<Longrightarrow> print_result operation line db = (db', out, r) \<Longrightarrow> T\<^sup>*\<^sup>* db db'"
  using movesD [of T operation db]
  by (auto simp: print_result_def split: prod.splits rresult.splits)

text \<open>
  The example program keeps the queue: from a reachable database, with any arguments and environment
  variables, whatever is lost on the way and whatever other clients do in between, a run leaves a
  reachable database.
\<close>

lemma example_keeps_queue:
  assumes "redis_driver_connect (ew_crate X) (example_connect_config X) = Ok driver"
    and "S = \<lparr>redis = ew_server X driver, chrono = ew_chrono X, store_config = example_connect_config X\<rparr>"
    and "ns = example_namespace X"
    and "calls_follow (queue_step S ns False) (ee_links E)" and "calls_follow (queue_step S ns False) (ee_remember E)"
    and "\<forall>turn \<in> set (ee_turns E). turn_follows (queue_step S ns False) turn"
    and "reachable S ns False db" and "example_main X E args db = (db', out, r)"
  shows "reachable S ns False db'"
proof -
  have "redloop_connect (ew_crate X) (ew_server X) (ew_chrono X) (example_connect_config X) =
      Ok \<lparr>rl_store = redis_queue_store S\<rparr>"
    using assms(1,2) by (simp add: redloop_connect_def redis_store_connect_def connect_config_validate_def
        deployment_validate_def example_connect_config_def)
  then obtain queue where env: "from_env X = Ok queue"
    and queue: "queue = namespace_object \<lparr>nh_store = redis_queue_store S, nh_namespace = ns\<rparr>"
    by (simp add: from_env_def open_namespace_def namespace_handle_def assms(3))
  note printed = example_calls [OF assms(4,5) queue, THEN print_result_steps]
  have "(queue_step S ns False)\<^sup>*\<^sup>* db db'"
    using assms(8)
    by (auto simp: example_main_def env example_enqueue_def example_counts_def example_schedule_def
        example_work_def Let_def split: list.splits if_splits option.splits
        elim: printed run_worker_steps [OF queue assms(6)])
  then show ?thesis by (rule reachable_steps [OF _ assms(7)])
qed

text \<open>
  A worker that is still running when its time is up says so, and then how many times its handler
  was called.
\<close>

lemma example_reports_work:
  assumes "run_worker_for X queue ts calls run_for db = (db', out, Ok ())"
  shows "drop (length calls) out = [Stdout (''worker stopped after '' @ show_nat run_for @ ''s''),
    Stdout (''processed '' @ show_nat (length calls) @ '' jobs'')]"
  using assms example_calls_count [of X 0 calls]
  by (auto simp: run_worker_for_def Let_def split: prod.splits rresult.splits)

end
