(* ===== verification/Worker_Progress.thy ===== *)
theory Worker_Progress
  imports Worker_Properties
begin

text \<open>
  Progress of the worker loop: how many sleeps lie between a state of the loop and the next select
  at which it polls the queue, along the iterations it really makes, each with everything the loop
  does before its select. A call that the network loses starts a new backoff, so progress is stated
  for iterations whose calls are answered.
\<close>

section \<open>Answered calls\<close>

text \<open>A result that starts no backoff.\<close>

definition steady :: "'a result \<Rightarrow> bool" where
  "steady r \<longleftrightarrow> (\<forall>e. r = Err e \<longrightarrow> \<not> is_recoverable_worker_runtime e)"


lemma steady_simps [simp]: "steady (Ok a)" "steady Panic" "steady (Err e) \<longleftrightarrow> \<not> is_recoverable_worker_runtime e"
  by (simp_all add: steady_def)


lemma steady_script_error [simp]: "\<not> is_recoverable_worker_runtime (parse_script_error job rs)"
  by (simp add: parse_script_error_def split: option.splits)













section \<open>Waiting\<close>















text \<open>
  Completions whose call is lost do stop the polling: the backoff they start blocks the reserve, and
  it starts again as long as they are lost, so the theorem below needs answered calls.
\<close>

lemma failing_completion_blocks_reserve:
  assumes "before_select W pre st db = (db', st', Ok ())"
    and "st1 = clear_backoff (pi_instant pre) (fst (drain_joined_jobs (pi_finished pre) st))"
    and "ws_backoff_until st1 = None"
    and "resolve_pending_from W (pi_calls pre) 0 (pi_order pre) st1 db = (db2, st2, Ok True)"
  shows "\<not> arm_enabled (wk_config W) st' (Reserve_returned call now)"
  using assms
  by (auto simp: before_select_def resolve_unless_backing_off_def backoff_for_def
      split: prod.splits rresult.splits if_splits)





end
