(* ===== verification/Spec2Isabelle.thy ===== *)
theory Spec2Isabelle
  imports Safety_Properties Queue_Properties Store_Properties Admin_Properties Worker_Properties
    Cli_Properties Recovery Duplicates Task_Properties Findings Exactly_Once Reply_Types Horizon
    Example_Properties Worker_Progress
begin

text \<open>
  \<^bold>\<open>Redloop\<close> is a job queue on Redis: a library (\<^verbatim>\<open>crates/redloop\<close>), a command line tool for operators
  (\<^verbatim>\<open>crates/redloop-cli\<close>) and a developer tool (\<^verbatim>\<open>xtask\<close>). Clients put job ids into a namespace, at once
  or for a later time; workers lease jobs, run a handler and complete, retry or reschedule them;
  operators look at the queue and move jobs by hand.

  \<^bold>\<open>How the program works.\<close> A namespace is eleven Redis keys. Four sorted sets hold the jobs that are
  ready, scheduled, leased and failed, with the time at which they are due, expire or failed as the
  score. Hashes hold the lease of a job (its worker and a token), its failure count, and for every
  worker its configuration and the number of its leases; a set holds the jobs to run again after the
  current run. Every change of a job is one Lua script, so it is atomic; a few reads and two cleaning
  operations take several round trips. A command can be lost before or after it ran.

  \<^bold>\<open>The model, bottom up.\<close> Each theory names the source files it models.

  \<^item> Base: \<open>Prelude\<close> (results of fallible code with a panic, decimal numerals, widths), \<open>Types\<close>
    (\<^verbatim>\<open>types.rs\<close>, \<^verbatim>\<open>error.rs\<close>, the data of \<^verbatim>\<open>store.rs\<close> and \<^verbatim>\<open>config.rs\<close>), \<open>Config\<close> (\<^verbatim>\<open>config.rs\<close>), \<open>Keys\<close>
    (\<^verbatim>\<open>redis_store/keys.rs\<close>), \<open>Codec\<close> (\<^verbatim>\<open>redis_store/codec.rs\<close>).
  \<^item> The parameters: \<open>Redis_Service\<close> is a record of the Redis commands the program issues, with
    locales for what Redis documents of them and an in-memory Redis that interprets them; \<open>Lua\<close> is the
    arithmetic and text of the scripts (a number is an integral double: \<open>dbl\<close> rounds to 53 bits, \<open>g14\<close> to
    the 14 digits of \<^verbatim>\<open>tostring\<close>); \<open>Shared\<close> has the calendar (\<open>chrono_service\<close>).
  \<^item> The scripts (\<^verbatim>\<open>redis_store/scripts\<close>): \<open>Script_Enqueue\<close>, \<open>Script_Lease\<close> (ack, heartbeat,
    complete_and_reschedule, fail_or_retry), \<open>Script_Reserve\<close> (reserve, reap_expired), \<open>Script_Operator\<close>.
    A script is a function from the database, its keys and arguments to the new database and a reply.
  \<^item> The Rust store: \<open>Connection\<close> (\<^verbatim>\<open>connection.rs\<close>: what a lost, refused or late command gives), \<open>Shared\<close>
    (argument and reply conversion), \<open>Store\<close> (\<^verbatim>\<open>enqueue.rs\<close>, \<^verbatim>\<open>leases.rs\<close>, \<^verbatim>\<open>failures.rs\<close>,
    \<^verbatim>\<open>workers.rs\<close>, \<^verbatim>\<open>namespaces.rs\<close>), \<open>Store_Admin\<close> (\<^verbatim>\<open>counts.rs\<close> and the worker list).
    An operation takes \<^emph>\<open>links\<close>: for its \<open>i\<close>-th command what other clients do before it and whether
    it runs and is answered. So every interleaving of clients and every loss is a value of an argument.
  \<^item> The client: \<open>Client\<close> (the trait \<^verbatim>\<open>QueueStore\<close> as a record of operations with the Redis store as
    its instance, the builders of \<^verbatim>\<open>builder.rs\<close>, the handle operations of \<^verbatim>\<open>client/\<close>) and \<open>Session\<close>
    (connecting, handles, the traits of \<^verbatim>\<open>contract.rs\<close> and their implementations).
  \<^item> The worker: \<open>Worker\<close> (\<^verbatim>\<open>worker/leases.rs\<close>, \<^verbatim>\<open>recovery.rs\<close>, \<^verbatim>\<open>completion.rs\<close>,
    \<^verbatim>\<open>heartbeat.rs\<close>, \<^verbatim>\<open>handler.rs\<close>) and \<open>Worker_Run\<close> (\<^verbatim>\<open>worker/run.rs\<close>, \<^verbatim>\<open>spawning.rs\<close>): the record
    \<open>worker_state\<close> is the local variables of \<^verbatim>\<open>run_internal\<close>, \<open>iteration\<close> one round of its loop; which arm
    of the select wins, the clocks, the order of map traversals and the fate of every call are inputs.
  \<^item> The programs: \<open>Upgrade\<close> and \<open>Cli\<close> (\<^verbatim>\<open>crates/redloop-cli/src\<close>), \<open>Tasks\<close> (\<^verbatim>\<open>xtask/src\<close>), \<open>Example\<close>
    (\<^verbatim>\<open>crates/redloop/examples/basic.rs\<close>: its handler, a worker that is cut off after a given time, and
    the producer commands).

  \<^bold>\<open>The specification.\<close> \<open>Queue\<close> is the abstract queue: a function from job ids to a place (absent,
  ready, scheduled, leased, failed), a failure count and a rerun flag. \<open>represents\<close> says that a
  database stores such a queue. \<open>Sim_Lease\<close>, \<open>Sim_Enqueue\<close>, \<open>Sim_Operator\<close>, \<open>Sim_Reserve\<close> and \<open>Sim_Reap\<close>
  prove that each script refines an operation on it; \<open>Store_Refines\<close>, \<open>Store_Queue\<close>, \<open>Store_Reads\<close> and
  \<open>Store_Cleanup\<close> lift this to the Rust operations under any links. \<open>Machine\<close> has the steps of the queue
  with any number of clients (\<open>queue_step\<close>) and the databases they reach (\<open>reachable\<close>), all of which store a
  queue. \<open>Machine_Effects\<close> says what a step can do to one job, with its cause.

  \<open>Contract\<close> is the locale of what a worker relies on in a store, interpreted on the Redis store;
  \<open>Worker_Facts\<close> and \<open>Worker_Loop\<close> prove the invariant of the worker in it, and that it drops a lease
  only when the store has settled it. \<open>Moves\<close> says for any relation \<open>T\<close> when an operation moves the
  database only by \<open>T\<close> while others do, and when it takes at most one step of its own. With it,
  \<open>Worker_Queue\<close> shows that a worker takes only steps of its own (\<open>worker_step\<close>: it ends a run only with
  what a handler has returned), and \<open>Client_Queue\<close> that a method of a handle takes at most one, the one
  its name says; all of these are steps of the queue machine. \<open>Completion\<close> says what storing one completion does to the queue, lost or
  answered; \<open>Worker_Round\<close> follows a batch from the reserve to the last completion.

  \<^bold>\<open>What the properties say.\<close> \<open>Safety_Properties\<close>: no job is lost, no lease is taken from its holder
  before its deadline except by the holder or an operator. \<open>Queue_Properties\<close>: the invariant of the
  database and of the lease counters; reserve, ack, failure, completion and heartbeat. \<open>Store_Properties\<close>:
  enqueue, reschedule, operator commands, reap, reads and backoff. \<open>Admin_Properties\<close>: purge, worker
  list, batches, key layout, codecs. \<open>Worker_Properties\<close>: the worker runs the jobs that are due and settles
  them as their handlers said, keeps its leases until they are settled, stops only on fatal errors,
  changes the queue only by its own steps. \<open>Worker_Progress\<close>: as long as its calls are answered it polls
  again after at most two sleeps. \<open>Recovery\<close>: the job of a crashed worker is taken back and goes to the next one.
  \<open>Exactly_Once\<close>: a completion that is repeated because its answers were lost takes effect once.
  \<open>Reply_Types\<close>: the replies of all scripts are of the form their parsers expect. \<open>Horizon\<close>: what an
  activation that cannot be read back does to reserves. \<open>Cli_Properties\<close>: a command of the tool acts at
  most once, as its name says. \<open>Example_Properties\<close>: the example program cannot break the queue. \<open>Duplicates\<close>: the cleaning loop of reserve ends in any
  database. \<open>Task_Properties\<close>: the lints. \<open>Findings\<close>: behaviours that differ from the documents or are not
  intended. \<open>Demo\<close> is the small queue on which the properties are applied.

  \<^bold>\<open>Bounds and fuel.\<close> Numbers of the scripts are exact while times are at most two to the 53
  microseconds (the properties say so where it matters) and rounded beyond. The cleaning loop of reserve
  gets the size of the schedule as fuel, which \<open>cleaning_ends\<close> shows to be enough; the UTF-8 check gets
  the length of the text, and every character takes a byte. All other loops are structural. The worker
  loop has no end of its own and is modelled over any finite sequence of inputs.

  \<^bold>\<open>Not modelled.\<close> The Redis server and the \<^verbatim>\<open>redis\<close> crate, the calendar of \<^verbatim>\<open>chrono\<close>, the updater
  \<^verbatim>\<open>cli_updater\<close>, the file system and the programs \<^verbatim>\<open>xtask\<close> starts are parameters. The parsing of the command
  line (\<^verbatim>\<open>clap\<close>) and the text of JSON (\<^verbatim>\<open>serde\<close>) are derived by macros from the types, as are Debug and
  Clone; the model starts from the parsed arguments and prints values. The scheduler of \<^verbatim>\<open>tokio\<close> is the
  choice of inputs; for the example program this includes which handler calls have begun when its time
  is up. Tests and their helpers are not program code.
\<close>

end
